theory Spec2Isabelle
  imports Main "HOL-Library.AList" "HOL-Library.Char_ord" "HOL-Library.List_Lexorder"
begin

section \<open>JavaScript values and JSON text\<close>

text \<open>
  The data service and the server exchange JavaScript values: request and response bodies,
  rows read from the database, and the nested structures (questions, answers, analysis)
  that are stored as JSON text. Numbers are the integers: the identifiers, ages and scores
  that the application handles. JavaScript represents every integer of magnitude up to
  \<open>2^53\<close> exactly and prints it in decimal; the model stands for these and puts no bound on
  them. A number written with a fraction or an exponent is read as the integer it denotes
  when it denotes one; otherwise it is kept as the text of its literal (\<open>JReal\<close>) and is
  not interpreted. The values that are not numbers of JSON (NaN and the infinities, which
  \<open>JSON.stringify\<close> writes as null) have no counterpart here. An
  object is the list of its properties in insertion order. Strings are lists of 8-bit
  characters, read as the UTF-8 bytes of the text: the escape of a code unit stands for the
  bytes of its character, and a pair of surrogate escapes for the four bytes of the
  character they encode.
\<close>

datatype js =
    JUndefined
  | JNull
  | JBool bool
  | JNum int
  | JReal string
  | JStr string
  | JArr "js list"
  | JObj "(string \<times> js) list"

datatype token =
    TLBrace | TRBrace | TLBrack | TRBrack | TColon | TComma
  | TString string | TNumber int | TReal string
  | TTrue | TFalse | TNull

definition is_digit :: "char \<Rightarrow> bool" where
  "is_digit c = (48 \<le> (of_char c :: nat) \<and> (of_char c :: nat) \<le> 57)"

definition digit_val :: "char \<Rightarrow> nat" where
  "digit_val c = of_char c - 48"

definition digit_char :: "nat \<Rightarrow> char" where
  "digit_char d = char_of (48 + d)"

fun digits :: "nat \<Rightarrow> string" where
  "digits n = (if n < 10 then [digit_char n] else digits (n div 10) @ [digit_char (n mod 10)])"

declare digits.simps [simp del]

definition show_int :: "int \<Rightarrow> string" where
  "show_int i = (if i < 0 then CHR ''-'' # digits (nat (- i)) else digits (nat i))"

definition hex_char :: "nat \<Rightarrow> char" where
  "hex_char d = (if d < 10 then char_of (48 + d) else char_of (87 + d))"

definition escape_char :: "char \<Rightarrow> string" where
  "escape_char c =
    (if c = CHR 0x22 then [CHR 0x5C, CHR 0x22]
     else if c = CHR 0x5C then [CHR 0x5C, CHR 0x5C]
     else if c = CHR 0x08 then [CHR 0x5C, CHR ''b'']
     else if c = CHR 0x0C then [CHR 0x5C, CHR ''f'']
     else if c = CHR 0x0A then [CHR 0x5C, CHR ''n'']
     else if c = CHR 0x0D then [CHR 0x5C, CHR ''r'']
     else if c = CHR 0x09 then [CHR 0x5C, CHR ''t'']
     else if (of_char c :: nat) < 32
       then [CHR 0x5C, CHR ''u'', CHR ''0'', CHR ''0'',
             hex_char (of_char c div 16), hex_char (of_char c mod 16)]
     else [c])"

definition quote :: "string \<Rightarrow> string" where
  "quote s = CHR 0x22 # concat (map escape_char s) @ [CHR 0x22]"

fun show_token :: "token \<Rightarrow> string" where
  "show_token TLBrace = ''{''"
| "show_token TRBrace = ''}''"
| "show_token TLBrack = ''[''"
| "show_token TRBrack = '']''"
| "show_token TColon = '':''"
| "show_token TComma = '',''"
| "show_token (TString s) = quote s"
| "show_token (TNumber i) = show_int i"
| "show_token (TReal s) = s"
| "show_token TTrue = ''true''"
| "show_token TFalse = ''false''"
| "show_token TNull = ''null''"

definition render :: "token list \<Rightarrow> string" where
  "render ts = concat (map show_token ts)"

fun sep_by :: "'a \<Rightarrow> 'a list list \<Rightarrow> 'a list" where
  "sep_by s [] = []"
| "sep_by s [x] = x"
| "sep_by s (x # y # ys) = x @ s # sep_by s (y # ys)"

fun js_tokens :: "js \<Rightarrow> token list" where
  "js_tokens JUndefined = [TNull]"
| "js_tokens JNull = [TNull]"
| "js_tokens (JBool b) = [if b then TTrue else TFalse]"
| "js_tokens (JNum i) = [TNumber i]"
| "js_tokens (JReal s) = [TReal s]"
| "js_tokens (JStr s) = [TString s]"
| "js_tokens (JArr xs) = TLBrack # sep_by TComma (map js_tokens xs) @ [TRBrack]"
| "js_tokens (JObj ms) =
     TLBrace # sep_by TComma
       (map (\<lambda>(k, v). TString k # TColon # js_tokens v)
          (filter (\<lambda>(k, v). v \<noteq> JUndefined) ms)) @ [TRBrace]"

definition JSON_stringify :: "js \<Rightarrow> string option" where
  "JSON_stringify v = (if v = JUndefined then None else Some (render (js_tokens v)))"

datatype error = SyntaxError | TypeError | SqliteError string | Unmodelled

definition is_ws :: "char \<Rightarrow> bool" where
  "is_ws c = (c \<in> set [CHR '' '', CHR 0x09, CHR 0x0A, CHR 0x0D])"

definition hex_val :: "char \<Rightarrow> nat option" where
  "hex_val c =
    (let n = (of_char c :: nat)
     in if 48 \<le> n \<and> n \<le> 57 then Some (n - 48)
        else if 97 \<le> n \<and> n \<le> 102 then Some (n - 87)
        else if 65 \<le> n \<and> n \<le> 70 then Some (n - 55)
        else None)"

definition hex4 :: "char \<Rightarrow> char \<Rightarrow> char \<Rightarrow> char \<Rightarrow> nat option" where
  "hex4 a b c d =
    (case (hex_val a, hex_val b, hex_val c, hex_val d) of
       (Some x, Some y, Some z, Some w) \<Rightarrow> Some (4096 * x + 256 * y + 16 * z + w)
     | _ \<Rightarrow> None)"

definition utf8 :: "nat \<Rightarrow> string" where
  "utf8 n =
    (if n < 0x80 then [char_of n]
     else if n < 0x800 then [char_of (0xC0 + n div 64), char_of (0x80 + n mod 64)]
     else if n < 0x10000
       then [char_of (0xE0 + n div 4096), char_of (0x80 + n div 64 mod 64),
             char_of (0x80 + n mod 64)]
     else [char_of (0xF0 + n div 262144), char_of (0x80 + n div 4096 mod 64),
           char_of (0x80 + n div 64 mod 64), char_of (0x80 + n mod 64)])"

definition low_surrogate :: "string \<Rightarrow> (nat \<times> string) option" where
  "low_surrogate cs =
    (case cs of
       b # v # l1 # l2 # l3 # l4 # rest \<Rightarrow>
         if b = CHR 0x5C \<and> v = CHR ''u'' then
           (case hex4 l1 l2 l3 l4 of
              Some l \<Rightarrow> if 0xDC00 \<le> l \<and> l < 0xE000 then Some (l, rest) else None
            | None \<Rightarrow> None)
         else None
     | _ \<Rightarrow> None)"

definition lex_unicode :: "string \<Rightarrow> (string \<times> string) option" where
  "lex_unicode cs =
    (case cs of
       h1 # h2 # h3 # h4 # cs2 \<Rightarrow>
         (case hex4 h1 h2 h3 h4 of
            None \<Rightarrow> None
          | Some u \<Rightarrow>
              if 0xD800 \<le> u \<and> u < 0xDC00 then
                (case low_surrogate cs2 of
                   Some (l, cs3) \<Rightarrow>
                     Some (utf8 (0x10000 + (u - 0xD800) * 1024 + (l - 0xDC00)), cs3)
                 | None \<Rightarrow> Some (utf8 u, cs2))
              else Some (utf8 u, cs2))
     | _ \<Rightarrow> None)"

definition unescape :: "char \<Rightarrow> char option" where
  "unescape e =
    (if e = CHR 0x22 then Some (CHR 0x22)
     else if e = CHR 0x5C then Some (CHR 0x5C)
     else if e = CHR ''/'' then Some (CHR ''/'')
     else if e = CHR ''b'' then Some (CHR 0x08)
     else if e = CHR ''f'' then Some (CHR 0x0C)
     else if e = CHR ''n'' then Some (CHR 0x0A)
     else if e = CHR ''r'' then Some (CHR 0x0D)
     else if e = CHR ''t'' then Some (CHR 0x09)
     else None)"

definition cons_fst :: "'a \<Rightarrow> ('a list \<times> 'b) option \<Rightarrow> ('a list \<times> 'b) option" where
  "cons_fst c r = map_option (\<lambda>(s, rest). (c # s, rest)) r"

definition append_fst :: "'a list \<Rightarrow> ('a list \<times> 'b) option \<Rightarrow> ('a list \<times> 'b) option" where
  "append_fst bs r = map_option (\<lambda>(s, rest). (bs @ s, rest)) r"

lemma low_surrogate_shorter: "low_surrogate cs = Some (l, rest) \<Longrightarrow> length rest < length cs"
  by (auto simp: low_surrogate_def split: list.splits if_splits option.splits)

lemma lex_unicode_shorter:
  assumes "lex_unicode cs = Some (bs, rest)"
  shows "length rest < length cs"
proof -
  from assms obtain h1 h2 h3 h4 cs2 where cs: "cs = h1 # h2 # h3 # h4 # cs2"
    by (auto simp: lex_unicode_def split: list.splits)
  from assms have "rest = cs2 \<or> (\<exists>l. low_surrogate cs2 = Some (l, rest))"
    unfolding cs lex_unicode_def
    by (auto split: option.splits if_splits)
  then show ?thesis using cs low_surrogate_shorter by fastforce
qed

function lex_string :: "string \<Rightarrow> (string \<times> string) option" where
  "lex_string [] = None"
| "lex_string (c # cs) =
    (if c = CHR 0x22 then Some ([], cs)
     else if c = CHR 0x5C then
       (case cs of
          [] \<Rightarrow> None
        | e # cs1 \<Rightarrow>
            if e = CHR ''u'' then
              (case lex_unicode cs1 of
                 None \<Rightarrow> None
               | Some (bs, cs2) \<Rightarrow> append_fst bs (lex_string cs2))
            else
              (case unescape e of
                 None \<Rightarrow> None
               | Some u \<Rightarrow> cons_fst u (lex_string cs1)))
     else if (of_char c :: nat) < 32 then None
     else cons_fst c (lex_string cs))"
  by pat_completeness auto
termination
  by (relation "measure length") (auto dest: lex_unicode_shorter)

definition nat_of_digits :: "string \<Rightarrow> nat" where
  "nat_of_digits ds = foldl (\<lambda>a c. 10 * a + digit_val c) 0 ds"

definition lex_frac :: "string \<Rightarrow> (string \<times> string) option" where
  "lex_frac r =
    (case r of
       [] \<Rightarrow> Some ([], [])
     | c # r1 \<Rightarrow>
         if c = CHR ''.'' then
           (if takeWhile is_digit r1 = [] then None
            else Some (c # takeWhile is_digit r1, dropWhile is_digit r1))
         else Some ([], r))"

definition lex_sign :: "string \<Rightarrow> string \<times> string" where
  "lex_sign r =
    (case r of
       [] \<Rightarrow> ([], [])
     | s # t \<Rightarrow> if s = CHR ''+'' \<or> s = CHR ''-'' then ([s], t) else ([], r))"

definition lex_exp :: "string \<Rightarrow> (string \<times> string) option" where
  "lex_exp r =
    (case r of
       [] \<Rightarrow> Some ([], [])
     | c # r1 \<Rightarrow>
         if c = CHR ''e'' \<or> c = CHR ''E'' then
           (case lex_sign r1 of (sg, r2) \<Rightarrow>
              if takeWhile is_digit r2 = [] then None
              else Some (c # sg @ takeWhile is_digit r2, dropWhile is_digit r2))
         else Some ([], r))"

definition exponent_of :: "string \<Rightarrow> int" where
  "exponent_of es =
    (case es of
       [] \<Rightarrow> 0
     | e # r \<Rightarrow>
         (case r of
            [] \<Rightarrow> 0
          | s # ds \<Rightarrow>
              if s = CHR ''-'' then - int (nat_of_digits ds)
              else if s = CHR ''+'' then int (nat_of_digits ds)
              else int (nat_of_digits (s # ds))))"

definition integer_value :: "string \<Rightarrow> string \<Rightarrow> string \<Rightarrow> nat option" where
  "integer_value ds fs es =
    (let m = nat_of_digits (ds @ tl fs);
         x = exponent_of es - int (length (tl fs))
     in if 0 \<le> x then Some (m * 10 ^ nat x)
        else if m mod 10 ^ nat (- x) = 0 then Some (m div 10 ^ nat (- x))
        else None)"

definition lex_number :: "string \<Rightarrow> (token \<times> string) option" where
  "lex_number cs =
    (let neg = (cs \<noteq> [] \<and> hd cs = CHR ''-'');
         cs1 = (if neg then tl cs else cs);
         ds = takeWhile is_digit cs1
     in if ds = [] \<or> (1 < length ds \<and> hd ds = CHR ''0'') then None
        else case lex_frac (dropWhile is_digit cs1) of
          None \<Rightarrow> None
        | Some (fs, r2) \<Rightarrow>
            (case lex_exp r2 of
               None \<Rightarrow> None
             | Some (es, r3) \<Rightarrow>
                 if fs = [] \<and> es = []
                 then Some (TNumber (if neg then - int (nat_of_digits ds) else int (nat_of_digits ds)), r3)
                 else (case integer_value ds fs es of
                         Some m \<Rightarrow> Some (TNumber (if neg then - int m else int m), r3)
                       | None \<Rightarrow> Some (TReal ((if neg then ''-'' else []) @ ds @ fs @ es), r3))))"

definition lex_literal :: "string \<Rightarrow> token \<Rightarrow> string \<Rightarrow> (token \<times> string) option" where
  "lex_literal w t cs = (if take (length w) cs = w then Some (t, drop (length w) cs) else None)"

definition lex_token :: "char \<Rightarrow> string \<Rightarrow> (token \<times> string) option" where
  "lex_token c cs =
    (if c = CHR ''{'' then Some (TLBrace, cs)
     else if c = CHR ''}'' then Some (TRBrace, cs)
     else if c = CHR ''['' then Some (TLBrack, cs)
     else if c = CHR '']'' then Some (TRBrack, cs)
     else if c = CHR '':'' then Some (TColon, cs)
     else if c = CHR '','' then Some (TComma, cs)
     else if c = CHR 0x22 then map_option (\<lambda>(s, rest). (TString s, rest)) (lex_string cs)
     else if c = CHR ''-'' \<or> is_digit c then lex_number (c # cs)
     else if c = CHR ''t'' then lex_literal ''rue'' TTrue cs
     else if c = CHR ''f'' then lex_literal ''alse'' TFalse cs
     else if c = CHR ''n'' then lex_literal ''ull'' TNull cs
     else None)"

lemma lex_string_shorter: "lex_string cs = Some (s, rest) \<Longrightarrow> length rest < length cs"
proof (induction cs arbitrary: s rest rule: lex_string.induct)
  case 1
  then show ?case by simp
next
  case (2 c cs)
  consider (quote) "rest = cs"
    | (uni) e cs1 bs cs2 s' where "cs = e # cs1" "e = CHR ''u''" "c = CHR 0x5C" "c \<noteq> CHR 0x22"
        "lex_unicode cs1 = Some (bs, cs2)" "lex_string cs2 = Some (s', rest)"
    | (esc) e cs1 u s' where "cs = e # cs1" "e \<noteq> CHR ''u''" "c = CHR 0x5C" "c \<noteq> CHR 0x22"
        "unescape e = Some u" "lex_string cs1 = Some (s', rest)"
    | (plain) s' where "c \<noteq> CHR 0x22" "c \<noteq> CHR 0x5C" "\<not> (of_char c :: nat) < 32"
        "lex_string cs = Some (s', rest)"
    using "2.prems"
    by (auto simp: cons_fst_def append_fst_def split: if_splits list.splits option.splits)
  then show ?case
  proof cases
    case quote
    then show ?thesis by simp
  next
    case uni
    from "2.IH"(1)[OF uni(4,3,1,2,5) refl uni(6)] lex_unicode_shorter[OF uni(5)] uni(1)
    show ?thesis by simp
  next
    case esc
    from "2.IH"(2)[OF esc(4,3,1,2,5,6)] esc(1) show ?thesis by simp
  next
    case plain
    from "2.IH"(3)[OF plain] show ?thesis by simp
  qed
qed

lemma lex_frac_shorter: "lex_frac r = Some (fs, r') \<Longrightarrow> length r' \<le> length r"
  by (auto simp: lex_frac_def length_dropWhile_le le_SucI split: list.splits if_splits)

lemma lex_exp_shorter: "lex_exp r = Some (fs, r') \<Longrightarrow> length r' \<le> length r"
  by (auto simp: lex_exp_def lex_sign_def length_dropWhile_le le_SucI split: list.splits if_splits)

lemma lex_number_shorter:
  assumes "lex_number (c # cs) = Some (t, rest)"
  shows "length rest \<le> length cs"
proof -
  let ?cs1 = "if c = CHR ''-'' then cs else c # cs"
  from assms obtain fs r2 es where
    nz: "takeWhile is_digit ?cs1 \<noteq> []" and
    f: "lex_frac (dropWhile is_digit ?cs1) = Some (fs, r2)" and
    e: "lex_exp r2 = Some (es, rest)"
    by (auto simp: lex_number_def Let_def split: if_splits option.splits)
  have "length (dropWhile is_digit ?cs1) \<le> length cs"
  proof (cases "c = CHR ''-''")
    case True
    then show ?thesis by (simp add: length_dropWhile_le)
  next
    case False
    with nz have "is_digit c" by (auto split: if_splits)
    with False show ?thesis by (simp add: length_dropWhile_le)
  qed
  with lex_frac_shorter[OF f] lex_exp_shorter[OF e] show ?thesis by linarith
qed

lemma lex_token_shorter:
  assumes "lex_token c cs = Some (t, rest)"
  shows "length rest \<le> length cs"
proof -
  consider (same) "rest = cs"
    | (str) s where "lex_string cs = Some (s, rest)"
    | (num) "lex_number (c # cs) = Some (t, rest)"
    | (lit) n where "rest = drop n cs"
    using assms
    by (auto simp: lex_token_def lex_literal_def split: if_splits)
  then show ?thesis
  proof cases
    case same
    then show ?thesis by simp
  next
    case str
    then show ?thesis using lex_string_shorter by fastforce
  next
    case num
    then show ?thesis by (rule lex_number_shorter)
  next
    case lit
    then show ?thesis by simp
  qed
qed

function tokenize :: "string \<Rightarrow> token list option" where
  "tokenize [] = Some []"
| "tokenize (c # cs) =
    (if is_ws c then tokenize cs
     else case lex_token c cs of
       None \<Rightarrow> None
     | Some (t, rest) \<Rightarrow> map_option (Cons t) (tokenize rest))"
  by pat_completeness auto
termination
  by (relation "measure length") (auto dest: lex_token_shorter)

datatype frame = FArr "js list" | FObj "(string \<times> js) list" | FKey "(string \<times> js) list" string

datatype pmode = PValue | PFirst | PNext | PFirstKey | PKey | PColon | PDone js

type_synonym pstate = "pmode \<times> frame list"

fun deliver :: "js \<Rightarrow> frame list \<Rightarrow> pstate option" where
  "deliver v [] = Some (PDone v, [])"
| "deliver v (FArr xs # st) = Some (PNext, FArr (xs @ [v]) # st)"
| "deliver v (FKey ms k # st) = Some (PNext, FObj (AList.update k v ms) # st)"
| "deliver v (FObj ms # st) = None"

fun start_value :: "token \<Rightarrow> frame list \<Rightarrow> pstate option" where
  "start_value TLBrack st = Some (PFirst, FArr [] # st)"
| "start_value TLBrace st = Some (PFirstKey, FObj [] # st)"
| "start_value (TString s) st = deliver (JStr s) st"
| "start_value (TNumber i) st = deliver (JNum i) st"
| "start_value (TReal s) st = deliver (JReal s) st"
| "start_value TTrue st = deliver (JBool True) st"
| "start_value TFalse st = deliver (JBool False) st"
| "start_value TNull st = deliver JNull st"
| "start_value _ st = None"

fun close_array :: "frame list \<Rightarrow> pstate option" where
  "close_array (FArr xs # st) = deliver (JArr xs) st"
| "close_array _ = None"

fun close_object :: "frame list \<Rightarrow> pstate option" where
  "close_object (FObj ms # st) = deliver (JObj ms) st"
| "close_object _ = None"

fun next_item :: "frame list \<Rightarrow> pstate option" where
  "next_item (FArr xs # st) = Some (PValue, FArr xs # st)"
| "next_item (FObj ms # st) = Some (PKey, FObj ms # st)"
| "next_item _ = None"

fun open_key :: "string \<Rightarrow> frame list \<Rightarrow> pstate option" where
  "open_key k (FObj ms # st) = Some (PColon, FKey ms k # st)"
| "open_key k _ = None"

fun step :: "pstate \<Rightarrow> token \<Rightarrow> pstate option" where
  "step (PValue, st) t = start_value t st"
| "step (PFirst, st) t = (if t = TRBrack then close_array st else start_value t st)"
| "step (PNext, st) t =
    (if t = TComma then next_item st
     else if t = TRBrack then close_array st
     else if t = TRBrace then close_object st
     else None)"
| "step (PFirstKey, st) t =
    (case t of TRBrace \<Rightarrow> close_object st | TString k \<Rightarrow> open_key k st | _ \<Rightarrow> None)"
| "step (PKey, st) t = (case t of TString k \<Rightarrow> open_key k st | _ \<Rightarrow> None)"
| "step (PColon, st) t = (if t = TColon then Some (PValue, st) else None)"
| "step (PDone v, st) t = None"

fun parse_tokens :: "pstate \<Rightarrow> token list \<Rightarrow> pstate option" where
  "parse_tokens s [] = Some s"
| "parse_tokens s (t # ts) = (case step s t of None \<Rightarrow> None | Some s' \<Rightarrow> parse_tokens s' ts)"

definition JSON_parse :: "string \<Rightarrow> error + js" where
  "JSON_parse text =
    (case tokenize text of
       None \<Rightarrow> Inl SyntaxError
     | Some ts \<Rightarrow>
         (case parse_tokens (PValue, []) ts of
            Some (PDone v, []) \<Rightarrow> Inr v
          | _ \<Rightarrow> Inl SyntaxError))"


fun json_clean :: "js \<Rightarrow> bool" where
  "json_clean JUndefined = False"
| "json_clean (JReal s) = False"
| "json_clean (JArr xs) = (\<forall>x \<in> set xs. json_clean x)"
| "json_clean (JObj ms) = (distinct (map fst ms) \<and> (\<forall>p \<in> set ms. json_clean (snd p)))"
| "json_clean _ = True"


section \<open>The relational store\<close>

text \<open>
  Both backends keep their data in SQLite. A store is the list of its tables; a table has
  its definition (columns and table constraints), its rows in insertion order and the
  counter of AUTOINCREMENT. A value is NULL, an integer or a text; the application
  inserts integers into INTEGER columns and text into the others, so no conversion between
  the two happens on insertion. An insert checks NOT NULL, UNIQUE and FOREIGN KEY as
  declared by the table: the server's driver, better-sqlite3, opens its databases with the
  enforcement of foreign keys switched on. CURRENT_TIMESTAMP is the text \<open>now\<close> that
  an operation is given; texts are ordered byte by byte, as the storage engine orders them.
\<close>

datatype sqlval = SNull | SInt int | SText string

record column =
  col_name :: string
  col_type :: string
  col_not_null :: bool
  col_autoincrement :: bool
  col_default_now :: bool

datatype table_constraint =
    Unique "string list"
  | ForeignKey string string string

record table_def =
  td_name :: string
  td_columns :: "column list"
  td_constraints :: "table_constraint list"

type_synonym row = "(string \<times> sqlval) list"

record table =
  tbl_def :: table_def
  tbl_rows :: "row list"
  tbl_seq :: int

type_synonym database = "(string \<times> table) list"

datatype stmt = CreateTable bool table_def

fun exec_stmt :: "stmt \<Rightarrow> database \<Rightarrow> error + database" where
  "exec_stmt (CreateTable if_not_exists d) db =
    (case map_of db (td_name d) of
       Some t \<Rightarrow>
         if if_not_exists then Inr db
         else Inl (SqliteError ''table already exists'')
     | None \<Rightarrow> Inr (db @ [(td_name d, \<lparr>tbl_def = d, tbl_rows = [], tbl_seq = 0\<rparr>)]))"

fun exec_script :: "stmt list \<Rightarrow> database \<Rightarrow> error + database" where
  "exec_script [] db = Inr db"
| "exec_script (s # ss) db =
    (case exec_stmt s db of Inl e \<Rightarrow> Inl e | Inr db' \<Rightarrow> exec_script ss db')"

definition col :: "row \<Rightarrow> string \<Rightarrow> sqlval" where
  "col r c = (case map_of r c of Some v \<Rightarrow> v | None \<Rightarrow> SNull)"

definition sql_eq :: "sqlval \<Rightarrow> sqlval \<Rightarrow> bool" where
  "sql_eq a b = (a \<noteq> SNull \<and> b \<noteq> SNull \<and> a = b)"

fun sql_le :: "sqlval \<Rightarrow> sqlval \<Rightarrow> bool" where
  "sql_le SNull b = True"
| "sql_le (SInt i) SNull = False"
| "sql_le (SInt i) (SInt j) = (i \<le> j)"
| "sql_le (SInt i) (SText t) = True"
| "sql_le (SText s) (SText t) = (s \<le> t)"
| "sql_le (SText s) b = False"

definition int_literal :: "string \<Rightarrow> int option" where
  "int_literal s =
    (case lex_number s of
       Some (TNumber i, []) \<Rightarrow> Some i
     | _ \<Rightarrow> None)"

definition numeric_affinity :: "sqlval \<Rightarrow> sqlval" where
  "numeric_affinity v =
    (case v of
       SText s \<Rightarrow> (case int_literal s of Some i \<Rightarrow> SInt i | None \<Rightarrow> v)
     | _ \<Rightarrow> v)"

definition rowid :: "row \<Rightarrow> int" where
  "rowid r = (case col r ''id'' of SInt i \<Rightarrow> i | _ \<Rightarrow> 0)"

definition next_rowid :: "table \<Rightarrow> int" where
  "next_rowid t = fold max (map rowid (tbl_rows t)) (max 0 (tbl_seq t)) + 1"

definition new_row :: "table_def \<Rightarrow> int \<Rightarrow> (string \<times> sqlval) list \<Rightarrow> string \<Rightarrow> row" where
  "new_row d rid assigns now =
    map (\<lambda>c. (col_name c,
               if col_autoincrement c then SInt rid
               else case map_of assigns (col_name c) of
                      Some v \<Rightarrow> v
                    | None \<Rightarrow> if col_default_now c then SText now else SNull))
        (td_columns d)"

definition violates_not_null :: "table_def \<Rightarrow> row \<Rightarrow> bool" where
  "violates_not_null d r =
    list_ex (\<lambda>c. col_not_null c \<and> col r (col_name c) = SNull) (td_columns d)"

fun violates :: "database \<Rightarrow> row list \<Rightarrow> row \<Rightarrow> table_constraint \<Rightarrow> bool" where
  "violates db rows r (Unique cs) =
    list_ex (\<lambda>old. list_all (\<lambda>c. sql_eq (col old c) (col r c)) cs) rows"
| "violates db rows r (ForeignKey c parent pc) =
    (col r c \<noteq> SNull \<and>
     (case map_of db parent of
        None \<Rightarrow> True
      | Some p \<Rightarrow> \<not> list_ex (\<lambda>old. sql_eq (col old pc) (col r c)) (tbl_rows p)))"

definition sql_insert ::
  "string \<Rightarrow> (string \<times> sqlval) list \<Rightarrow> string \<Rightarrow> database \<Rightarrow> error + (int \<times> database)" where
  "sql_insert name assigns now db =
    (case map_of db name of
       None \<Rightarrow> Inl (SqliteError ''no such table'')
     | Some t \<Rightarrow>
         (let rid = next_rowid t;
              r = new_row (tbl_def t) rid assigns now
          in if violates_not_null (tbl_def t) r
               then Inl (SqliteError ''NOT NULL constraint failed'')
             else if list_ex (violates db (tbl_rows t) r) (td_constraints (tbl_def t))
               then Inl (SqliteError ''constraint failed'')
             else Inr (rid, AList.update name (t\<lparr>tbl_rows := tbl_rows t @ [r], tbl_seq := rid\<rparr>) db)))"

definition sql_select ::
  "string \<Rightarrow> (string \<times> sqlval) list \<Rightarrow> database \<Rightarrow> error + row list" where
  "sql_select name conds db =
    (case map_of db name of
       None \<Rightarrow> Inl (SqliteError ''no such table'')
     | Some t \<Rightarrow> Inr (filter (\<lambda>r. list_all (\<lambda>(c, v). sql_eq (col r c) v) conds) (tbl_rows t)))"

fun insert_desc :: "string \<Rightarrow> row \<Rightarrow> row list \<Rightarrow> row list" where
  "insert_desc k r [] = [r]"
| "insert_desc k r (x # xs) =
    (if sql_le (col r k) (col x k) then x # insert_desc k r xs else r # x # xs)"

definition order_by_desc :: "string \<Rightarrow> row list \<Rightarrow> row list" where
  "order_by_desc k rows = foldl (\<lambda>acc r. insert_desc k r acc) [] rows"

definition result_columns :: "row \<Rightarrow> row" where
  "result_columns r =
    [(''score'', col r ''score''), (''feedback'', col r ''feedback''),
     (''analysis'', col r ''analysis''), (''completed_at'', col r ''completed_at'')]"

definition left_join_results :: "row list \<Rightarrow> row \<Rightarrow> row list" where
  "left_join_results results t =
    (case filter (\<lambda>r. sql_eq (col t ''id'') (col r ''test_id'')) results of
       [] \<Rightarrow> [t @ result_columns []]
     | ms \<Rightarrow> map (\<lambda>r. t @ result_columns r) ms)"

definition history_query :: "sqlval \<Rightarrow> database \<Rightarrow> error + row list" where
  "history_query student db =
    (case map_of db ''tests'' of
       None \<Rightarrow> Inl (SqliteError ''no such table'')
     | Some t \<Rightarrow>
        (case map_of db ''results'' of
           None \<Rightarrow> Inl (SqliteError ''no such table'')
         | Some r \<Rightarrow>
             Inr (order_by_desc ''created_at''
                    (filter (\<lambda>j. sql_eq (col j ''student_id'') (numeric_affinity student))
                       (concat (map (left_join_results (tbl_rows r)) (tbl_rows t)))))))"

section \<open>The server (server.ts)\<close>

definition column :: "string \<Rightarrow> string \<Rightarrow> bool \<Rightarrow> column" where
  "column n t nn =
    \<lparr>col_name = n, col_type = t, col_not_null = nn,
     col_autoincrement = False, col_default_now = False\<rparr>"

definition id_column :: column where
  "id_column =
    \<lparr>col_name = ''id'', col_type = ''INTEGER'', col_not_null = False,
     col_autoincrement = True, col_default_now = False\<rparr>"

definition timestamp_column :: "string \<Rightarrow> column" where
  "timestamp_column n =
    \<lparr>col_name = n, col_type = ''DATETIME'', col_not_null = False,
     col_autoincrement = False, col_default_now = True\<rparr>"

definition server_students :: table_def where
  "server_students =
    \<lparr>td_name = ''students'',
     td_columns = [id_column, column ''name'' ''TEXT'' True, column ''age'' ''INTEGER'' True,
                   column ''class'' ''TEXT'' True],
     td_constraints = [Unique [''name'', ''age'', ''class'']]\<rparr>"

definition server_tests :: table_def where
  "server_tests =
    \<lparr>td_name = ''tests'',
     td_columns = [id_column, column ''student_id'' ''INTEGER'' True,
                   column ''topic'' ''TEXT'' True, column ''complexity'' ''TEXT'' True,
                   column ''concepts'' ''TEXT'' True, column ''questions'' ''JSON'' True,
                   timestamp_column ''created_at''],
     td_constraints = [ForeignKey ''student_id'' ''students'' ''id'']\<rparr>"

definition server_results :: table_def where
  "server_results =
    \<lparr>td_name = ''results'',
     td_columns = [id_column, column ''test_id'' ''INTEGER'' True,
                   column ''answers'' ''JSON'' True, column ''score'' ''INTEGER'' False,
                   column ''feedback'' ''TEXT'' False, column ''analysis'' ''JSON'' False,
                   timestamp_column ''completed_at''],
     td_constraints = [ForeignKey ''test_id'' ''tests'' ''id'']\<rparr>"

definition server_schema :: "stmt list" where
  "server_schema =
    [CreateTable True server_students, CreateTable True server_tests,
     CreateTable True server_results]"

fun sql_to_js :: "sqlval \<Rightarrow> js" where
  "sql_to_js SNull = JNull"
| "sql_to_js (SInt i) = JNum i"
| "sql_to_js (SText s) = JStr s"

definition row_to_js :: "row \<Rightarrow> js" where
  "row_to_js r = JObj (map (\<lambda>(c, v). (c, sql_to_js v)) r)"

fun bind :: "js \<Rightarrow> error + sqlval" where
  "bind JNull = Inr SNull"
| "bind (JNum i) = Inr (SInt i)"
| "bind (JStr s) = Inr (SText s)"
| "bind (JReal s) = Inl Unmodelled"
| "bind _ = Inl TypeError"

fun bind_all :: "js list \<Rightarrow> error + sqlval list" where
  "bind_all [] = Inr []"
| "bind_all (v # vs) =
    (case bind v of
       Inl e \<Rightarrow> Inl e
     | Inr b \<Rightarrow> (case bind_all vs of Inl e \<Rightarrow> Inl e | Inr bs \<Rightarrow> Inr (b # bs)))"

fun get_prop :: "js \<Rightarrow> string \<Rightarrow> js" where
  "get_prop (JObj ms) k = (case map_of ms k of Some v \<Rightarrow> v | None \<Rightarrow> JUndefined)"
| "get_prop _ k = JUndefined"

definition js_of_text :: "string option \<Rightarrow> js" where
  "js_of_text t = (case t of None \<Rightarrow> JUndefined | Some s \<Rightarrow> JStr s)"

type_synonym response = "nat \<times> string"

definition res_json :: "nat \<Rightarrow> js \<Rightarrow> response" where
  "res_json status v = (status, case JSON_stringify v of Some s \<Rightarrow> s | None \<Rightarrow> [])"

definition res_error :: "string \<Rightarrow> response" where
  "res_error msg = res_json 500 (JObj [(''error'', JStr msg)])"

definition api_login :: "js \<Rightarrow> string \<Rightarrow> database \<Rightarrow> response \<times> database" where
  "api_login body now db =
    (let name = get_prop body ''name''; age = get_prop body ''age''; className = get_prop body ''className''
     in case bind_all [name, age, className] of
          Inl e \<Rightarrow> (res_error ''Failed to login'', db)
        | Inr vs \<Rightarrow>
            (case sql_select ''students'' (zip [''name'', ''age'', ''class''] vs) db of
               Inl e \<Rightarrow> (res_error ''Failed to login'', db)
             | Inr (student # _) \<Rightarrow> (res_json 200 (row_to_js student), db)
             | Inr [] \<Rightarrow>
                 (case sql_insert ''students'' (zip [''name'', ''age'', ''class''] vs) now db of
                    Inl e \<Rightarrow> (res_error ''Failed to login'', db)
                  | Inr (rid, db') \<Rightarrow>
                      (res_json 200
                         (JObj [(''id'', JNum rid), (''name'', name), (''age'', age),
                                (''class'', className)]), db'))))"

definition api_tests :: "js \<Rightarrow> string \<Rightarrow> database \<Rightarrow> response \<times> database" where
  "api_tests body now db =
    (case bind_all [get_prop body ''studentId'', get_prop body ''topic'', get_prop body ''complexity'',
                    get_prop body ''concepts'', js_of_text (JSON_stringify (get_prop body ''questions''))] of
       Inl e \<Rightarrow> (res_error ''Failed to save test'', db)
     | Inr vs \<Rightarrow>
         (case sql_insert ''tests''
                 (zip [''student_id'', ''topic'', ''complexity'', ''concepts'', ''questions''] vs)
                 now db of
            Inl e \<Rightarrow> (res_error ''Failed to save test'', db)
          | Inr (rid, db') \<Rightarrow> (res_json 200 (JObj [(''id'', JNum rid)]), db')))"

definition JSON_parse_column :: "sqlval \<Rightarrow> error + js" where
  "JSON_parse_column v =
    (case v of
       SNull \<Rightarrow> JSON_parse ''null''
     | SInt i \<Rightarrow> JSON_parse (show_int i)
     | SText s \<Rightarrow> JSON_parse s)"

definition truthy :: "sqlval \<Rightarrow> bool" where
  "truthy v = (v \<noteq> SNull \<and> v \<noteq> SInt 0 \<and> v \<noteq> SText [])"

definition parse_history_row :: "row \<Rightarrow> error + js" where
  "parse_history_row h =
    (case JSON_parse_column (col h ''questions'') of
       Inl e \<Rightarrow> Inl e
     | Inr questions \<Rightarrow>
         (case (if truthy (col h ''analysis'') then JSON_parse_column (col h ''analysis'')
                else Inr JNull) of
            Inl e \<Rightarrow> Inl e
          | Inr analysis \<Rightarrow>
              (case row_to_js h of
                 JObj ms \<Rightarrow>
                   Inr (JObj (AList.update ''analysis'' analysis
                                (AList.update ''questions'' questions ms)))
               | other \<Rightarrow> Inr other)))"

fun map_result :: "('a \<Rightarrow> error + 'b) \<Rightarrow> 'a list \<Rightarrow> error + 'b list" where
  "map_result f [] = Inr []"
| "map_result f (x # xs) =
    (case f x of
       Inl e \<Rightarrow> Inl e
     | Inr y \<Rightarrow> (case map_result f xs of Inl e \<Rightarrow> Inl e | Inr ys \<Rightarrow> Inr (y # ys)))"

definition history_rows :: "sqlval \<Rightarrow> database \<Rightarrow> error + js list" where
  "history_rows student db =
    (case history_query student db of
       Inl e \<Rightarrow> Inl e
     | Inr rows \<Rightarrow> map_result parse_history_row rows)"

definition api_history :: "string \<Rightarrow> database \<Rightarrow> response" where
  "api_history req_params_id db =
    (case history_rows (SText req_params_id) db of
       Inl e \<Rightarrow> res_error ''Failed to fetch history''
     | Inr parsedHistory \<Rightarrow> res_json 200 (JArr parsedHistory))"

definition api_results :: "js \<Rightarrow> string \<Rightarrow> database \<Rightarrow> response \<times> database" where
  "api_results body now db =
    (case bind_all [get_prop body ''testId'', js_of_text (JSON_stringify (get_prop body ''answers'')),
                    get_prop body ''score'', get_prop body ''feedback'',
                    js_of_text (JSON_stringify (get_prop body ''analysis''))] of
       Inl e \<Rightarrow> (res_error ''Failed to save results'', db)
     | Inr vs \<Rightarrow>
         (case sql_insert ''results''
                 (zip [''test_id'', ''answers'', ''score'', ''feedback'', ''analysis''] vs)
                 now db of
            Inl e \<Rightarrow> (res_error ''Failed to save results'', db)
          | Inr (rid, db') \<Rightarrow> (res_json 200 (JObj [(''id'', JNum rid)]), db')))"

section \<open>The data service (dataService.ts)\<close>

definition embedded_students :: table_def where
  "embedded_students =
    \<lparr>td_name = ''students'',
     td_columns = [id_column, column ''name'' ''TEXT'' True, column ''age'' ''INTEGER'' True,
                   column ''class'' ''TEXT'' True],
     td_constraints = []\<rparr>"

definition embedded_tests :: table_def where
  "embedded_tests =
    \<lparr>td_name = ''tests'',
     td_columns = [id_column, column ''student_id'' ''INTEGER'' True,
                   column ''topic'' ''TEXT'' True, column ''complexity'' ''TEXT'' True,
                   column ''concepts'' ''TEXT'' True, column ''questions'' ''TEXT'' True,
                   timestamp_column ''created_at''],
     td_constraints = []\<rparr>"

definition embedded_results :: table_def where
  "embedded_results =
    \<lparr>td_name = ''results'',
     td_columns = [id_column, column ''test_id'' ''INTEGER'' True,
                   column ''answers'' ''TEXT'' True, column ''score'' ''INTEGER'' False,
                   column ''feedback'' ''TEXT'' False, column ''analysis'' ''TEXT'' False,
                   timestamp_column ''completed_at''],
     td_constraints = []\<rparr>"

definition embedded_schema :: "stmt list" where
  "embedded_schema =
    [CreateTable True embedded_students, CreateTable True embedded_tests,
     CreateTable True embedded_results]"

datatype reporting = ReportsLastId | ReportsNoLastId | ReportsNoChanges

record connection =
  conn_open :: bool
  conn_db :: database
  conn_reporting :: reporting

record device =
  createConnection_fails :: bool
  open_fails :: bool
  dev_db :: database
  dev_reporting :: reporting

record DataService =
  isMobile :: bool
  this_db :: "connection option"
  server_db :: database

record Changes =
  lastId :: "int option"

record capSQLiteChanges =
  changes :: "Changes option"

definition run_result :: "reporting \<Rightarrow> int \<Rightarrow> capSQLiteChanges" where
  "run_result rep rid =
    (case rep of
       ReportsLastId \<Rightarrow> \<lparr>changes = Some \<lparr>lastId = Some rid\<rparr>\<rparr>
     | ReportsNoLastId \<Rightarrow> \<lparr>changes = Some \<lparr>lastId = None\<rparr>\<rparr>
     | ReportsNoChanges \<Rightarrow> \<lparr>changes = None\<rparr>)"

definition changes_lastId :: "capSQLiteChanges \<Rightarrow> js" where
  "changes_lastId inserted =
    (case changes inserted of
       None \<Rightarrow> JUndefined
     | Some c \<Rightarrow> (case lastId c of None \<Rightarrow> JUndefined | Some i \<Rightarrow> JNum i))"

definition conn_execute :: "stmt list \<Rightarrow> connection \<Rightarrow> error + connection" where
  "conn_execute script c =
    (if \<not> conn_open c then Inl (SqliteError ''database not opened'')
     else case exec_script script (conn_db c) of
            Inl e \<Rightarrow> Inl e
          | Inr d \<Rightarrow> Inr (c\<lparr>conn_db := d\<rparr>))"

definition conn_query :: "(database \<Rightarrow> error + 'a) \<Rightarrow> connection \<Rightarrow> error + 'a" where
  "conn_query q c =
    (if \<not> conn_open c then Inl (SqliteError ''database not opened'') else q (conn_db c))"

fun bind_value :: "js \<Rightarrow> sqlval" where
  "bind_value (JNum i) = SInt i"
| "bind_value (JStr s) = SText s"
| "bind_value _ = SNull"

definition conn_run ::
  "string \<Rightarrow> string list \<Rightarrow> js list \<Rightarrow> string \<Rightarrow> connection
     \<Rightarrow> error + (capSQLiteChanges \<times> connection)" where
  "conn_run name cols vals now c =
    (if \<not> conn_open c then Inl (SqliteError ''database not opened'')
     else case sql_insert name (zip cols (map bind_value vals)) now (conn_db c) of
            Inl e \<Rightarrow> Inl e
          | Inr (rid, d) \<Rightarrow> Inr (run_result (conn_reporting c) rid, c\<lparr>conn_db := d\<rparr>))"

definition init_try :: "DataService \<Rightarrow> device \<Rightarrow> (error + unit) \<times> DataService" where
  "init_try s dev =
    (if createConnection_fails dev then (Inl (SqliteError ''createConnection failed''), s)
     else
       (let c = \<lparr>conn_open = False, conn_db = dev_db dev, conn_reporting = dev_reporting dev\<rparr>
        in if open_fails dev then (Inl (SqliteError ''open failed''), s\<lparr>this_db := Some c\<rparr>)
           else case conn_execute embedded_schema (c\<lparr>conn_open := True\<rparr>) of
                  Inl e \<Rightarrow> (Inl e, s\<lparr>this_db := Some (c\<lparr>conn_open := True\<rparr>)\<rparr>)
                | Inr c' \<Rightarrow> (Inr (), s\<lparr>this_db := Some c'\<rparr>)))"

definition init :: "DataService \<Rightarrow> device \<Rightarrow> (error + unit) \<times> DataService" where
  "init s dev =
    (if \<not> isMobile s then (Inr (), s)
     else case init_try s dev of
            (Inl err, s') \<Rightarrow> (Inr (), s')
          | (Inr u, s') \<Rightarrow> (Inr (), s'))"

definition fetch_post ::
  "(js \<Rightarrow> string \<Rightarrow> database \<Rightarrow> response \<times> database) \<Rightarrow> (string \<times> js) list \<Rightarrow> string
     \<Rightarrow> DataService \<Rightarrow> (error + js) \<times> DataService" where
  "fetch_post handler payload now s =
    (case JSON_parse (render (js_tokens (JObj payload))) of
       Inl e \<Rightarrow> (Inl SyntaxError, s)
     | Inr body \<Rightarrow>
         (case handler body now (server_db s) of
            (res, d) \<Rightarrow> (JSON_parse (snd res), s\<lparr>server_db := d\<rparr>)))"

definition login ::
  "DataService \<Rightarrow> string \<Rightarrow> string \<Rightarrow> int \<Rightarrow> string \<Rightarrow> (error + js) \<times> DataService" where
  "login s now name age className =
    (if \<not> isMobile s then
       fetch_post api_login
         [(''name'', JStr name), (''age'', JNum age), (''className'', JStr className)] now s
     else case this_db s of
       None \<Rightarrow> (Inl TypeError, s)
     | Some c \<Rightarrow>
         (case conn_query (sql_select ''students''
                  [(''name'', SText name), (''age'', SInt age), (''class'', SText className)]) c of
            Inl e \<Rightarrow> (Inl e, s)
          | Inr (student # _) \<Rightarrow> (Inr (row_to_js student), s)
          | Inr [] \<Rightarrow>
              (case conn_run ''students'' [''name'', ''age'', ''class'']
                      [JStr name, JNum age, JStr className] now c of
                 Inl e \<Rightarrow> (Inl e, s)
               | Inr (inserted, c') \<Rightarrow>
                   (Inr (JObj [(''id'', changes_lastId inserted), (''name'', JStr name),
                               (''age'', JNum age), (''class'', JStr className)]),
                    s\<lparr>this_db := Some c'\<rparr>))))"

definition saveTest ::
  "DataService \<Rightarrow> string \<Rightarrow> int \<Rightarrow> string \<Rightarrow> string \<Rightarrow> string \<Rightarrow> js
     \<Rightarrow> (error + js) \<times> DataService" where
  "saveTest s now studentId topic complexity concepts questions =
    (if \<not> isMobile s then
       fetch_post api_tests
         [(''studentId'', JNum studentId), (''topic'', JStr topic),
          (''complexity'', JStr complexity), (''concepts'', JStr concepts),
          (''questions'', questions)] now s
     else case this_db s of
       None \<Rightarrow> (Inl TypeError, s)
     | Some c \<Rightarrow>
         (case conn_run ''tests''
                 [''student_id'', ''topic'', ''complexity'', ''concepts'', ''questions'']
                 [JNum studentId, JStr topic, JStr complexity, JStr concepts,
                  js_of_text (JSON_stringify questions)] now c of
            Inl e \<Rightarrow> (Inl e, s)
          | Inr (inserted, c') \<Rightarrow>
              (Inr (JObj [(''id'', changes_lastId inserted)]), s\<lparr>this_db := Some c'\<rparr>)))"

definition getHistory :: "DataService \<Rightarrow> int \<Rightarrow> error + js" where
  "getHistory s studentId =
    (if \<not> isMobile s then JSON_parse (snd (api_history (show_int studentId) (server_db s)))
     else case this_db s of
       None \<Rightarrow> Inl TypeError
     | Some c \<Rightarrow>
         (case conn_query (history_rows (SInt studentId)) c of
            Inl e \<Rightarrow> Inl e
          | Inr hs \<Rightarrow> Inr (JArr hs)))"

definition saveResult ::
  "DataService \<Rightarrow> string \<Rightarrow> int \<Rightarrow> js \<Rightarrow> int \<Rightarrow> string \<Rightarrow> js \<Rightarrow> (error + js) \<times> DataService" where
  "saveResult s now testId answers score feedback analysis =
    (if \<not> isMobile s then
       fetch_post api_results
         [(''testId'', JNum testId), (''answers'', answers), (''score'', JNum score),
          (''feedback'', JStr feedback), (''analysis'', analysis)] now s
     else case this_db s of
       None \<Rightarrow> (Inl TypeError, s)
     | Some c \<Rightarrow>
         (case conn_run ''results'' [''test_id'', ''answers'', ''score'', ''feedback'', ''analysis'']
                 [JNum testId, js_of_text (JSON_stringify answers), JNum score, JStr feedback,
                  js_of_text (JSON_stringify analysis)] now c of
            Inl e \<Rightarrow> (Inl e, s)
          | Inr (inserted, c') \<Rightarrow>
              (Inr (JObj [(''id'', changes_lastId inserted)]), s\<lparr>this_db := Some c'\<rparr>)))"

section \<open>The question and evaluation service (geminiService.ts)\<close>

definition text_or :: "string option \<Rightarrow> string \<Rightarrow> string" where
  "text_or t d = (case t of None \<Rightarrow> d | Some s \<Rightarrow> if s = [] then d else s)"

definition generateQuestions :: "error + string option \<Rightarrow> error + js" where
  "generateQuestions response =
    (case response of
       Inl e \<Rightarrow> Inl e
     | Inr text \<Rightarrow> JSON_parse (text_or text ''[]''))"

definition evaluateAnswers :: "error + string option \<Rightarrow> error + js" where
  "evaluateAnswers response =
    (case response of
       Inl e \<Rightarrow> Inl e
     | Inr text \<Rightarrow> JSON_parse (text_or text ''{}''))"

section \<open>Questions (types.ts)\<close>




section \<open>Schema provisioning\<close>

fun stmt_table :: "stmt \<Rightarrow> table_def" where
  "stmt_table (CreateTable if_not_exists d) = d"

fun stmt_if_not_exists :: "stmt \<Rightarrow> bool" where
  "stmt_if_not_exists (CreateTable if_not_exists d) = if_not_exists"

definition column_names :: "table_def \<Rightarrow> string list" where
  "column_names d = map col_name (td_columns d)"

definition column_flags :: "table_def \<Rightarrow> (string \<times> bool \<times> bool \<times> bool) list" where
  "column_flags d =
    map (\<lambda>c. (col_name c, col_not_null c, col_autoincrement c, col_default_now c)) (td_columns d)"

definition embedded_dialect :: "string \<Rightarrow> string" where
  "embedded_dialect t = (if t = ''JSON'' then ''TEXT'' else t)"

fun provision_times :: "nat \<Rightarrow> stmt list \<Rightarrow> database \<Rightarrow> error + database" where
  "provision_times 0 script db = Inr db"
| "provision_times (Suc n) script db =
    (case exec_script script db of
       Inl e \<Rightarrow> Inl e
     | Inr db' \<Rightarrow> provision_times n script db')"

section \<open>Well-formed stores\<close>

definition provisioned :: "stmt list \<Rightarrow> database \<Rightarrow> bool" where
  "provisioned script db =
    list_all (\<lambda>s. case map_of db (td_name (stmt_table s)) of
                     Some t \<Rightarrow> tbl_def t = stmt_table s
                   | None \<Rightarrow> False) script"

definition rows_wf :: "table \<Rightarrow> bool" where
  "rows_wf t = list_all (\<lambda>r. map fst r = column_names (tbl_def t)) (tbl_rows t)"

definition parses_clean :: "sqlval \<Rightarrow> bool" where
  "parses_clean v = (case JSON_parse_column v of Inr j \<Rightarrow> json_clean j | Inl e \<Rightarrow> False)"

definition table_rows :: "database \<Rightarrow> string \<Rightarrow> row list" where
  "table_rows db name = (case map_of db name of Some t \<Rightarrow> tbl_rows t | None \<Rightarrow> [])"

definition stored_json_ok :: "database \<Rightarrow> bool" where
  "stored_json_ok db =
    (list_all (\<lambda>r. parses_clean (col r ''questions'')) (table_rows db ''tests'') \<and>
     list_all (\<lambda>r. \<not> truthy (col r ''analysis'') \<or> parses_clean (col r ''analysis''))
       (table_rows db ''results''))"

definition table_wf :: "database \<Rightarrow> string \<Rightarrow> bool" where
  "table_wf db name = (case map_of db name of Some t \<Rightarrow> rows_wf t | None \<Rightarrow> True)"

definition tables_ok :: "stmt list \<Rightarrow> database \<Rightarrow> bool" where
  "tables_ok script db =
    (provisioned script db \<and> table_wf db ''students'' \<and> table_wf db ''tests'' \<and>
     table_wf db ''results'')"

definition store_ok :: "stmt list \<Rightarrow> database \<Rightarrow> bool" where
  "store_ok script db = (tables_ok script db \<and> stored_json_ok db)"

definition backend_provisioned :: "DataService \<Rightarrow> bool" where
  "backend_provisioned s =
    (if isMobile s
     then (case this_db s of
             Some c \<Rightarrow> conn_open c \<and> tables_ok embedded_schema (conn_db c)
           | None \<Rightarrow> False)
     else tables_ok server_schema (server_db s))"

definition backend_db :: "DataService \<Rightarrow> database" where
  "backend_db s =
    (if isMobile s then (case this_db s of Some c \<Rightarrow> conn_db c | None \<Rightarrow> [])
     else server_db s)"

definition backend_ready :: "DataService \<Rightarrow> bool" where
  "backend_ready s = (backend_provisioned s \<and> stored_json_ok (backend_db s))"

definition reports_lastId :: "DataService \<Rightarrow> bool" where
  "reports_lastId s =
    (isMobile s \<longrightarrow> (case this_db s of Some c \<Rightarrow> conn_reporting c = ReportsLastId | None \<Rightarrow> False))"

definition matching_students :: "database \<Rightarrow> string \<Rightarrow> int \<Rightarrow> string \<Rightarrow> row list" where
  "matching_students db name age className =
    filter (\<lambda>r. sql_eq (col r ''name'') (SText name) \<and> sql_eq (col r ''age'') (SInt age) \<and>
                sql_eq (col r ''class'') (SText className))
      (table_rows db ''students'')"

definition student_row :: "int \<Rightarrow> string \<Rightarrow> int \<Rightarrow> string \<Rightarrow> row" where
  "student_row rid name age className =
    [(''id'', SInt rid), (''name'', SText name), (''age'', SInt age), (''class'', SText className)]"

definition student_exists :: "database \<Rightarrow> int \<Rightarrow> bool" where
  "student_exists db studentId =
    list_ex (\<lambda>r. sql_eq (col r ''id'') (SInt studentId)) (table_rows db ''students'')"

definition test_exists :: "database \<Rightarrow> int \<Rightarrow> bool" where
  "test_exists db testId =
    list_ex (\<lambda>r. sql_eq (col r ''id'') (SInt testId)) (table_rows db ''tests'')"

definition with_backend_db :: "DataService \<Rightarrow> database \<Rightarrow> DataService" where
  "with_backend_db s d =
    (if isMobile s
     then (case this_db s of Some c \<Rightarrow> s\<lparr>this_db := Some (c\<lparr>conn_db := d\<rparr>)\<rparr> | None \<Rightarrow> s)
     else s\<lparr>server_db := d\<rparr>)"

definition reported_id :: "DataService \<Rightarrow> int \<Rightarrow> js" where
  "reported_id s rid =
    (if isMobile s
     then (case this_db s of
             Some c \<Rightarrow> changes_lastId (run_result (conn_reporting c) rid)
           | None \<Rightarrow> JUndefined)
     else JNum rid)"

definition backend_schema :: "DataService \<Rightarrow> stmt list" where
  "backend_schema s = (if isMobile s then embedded_schema else server_schema)"

definition test_row :: "int \<Rightarrow> int \<Rightarrow> string \<Rightarrow> string \<Rightarrow> string \<Rightarrow> sqlval \<Rightarrow> string \<Rightarrow> row" where
  "test_row rid studentId topic complexity concepts questions now =
    [(''id'', SInt rid), (''student_id'', SInt studentId), (''topic'', SText topic),
     (''complexity'', SText complexity), (''concepts'', SText concepts),
     (''questions'', questions), (''created_at'', SText now)]"

definition result_row :: "int \<Rightarrow> int \<Rightarrow> sqlval \<Rightarrow> int \<Rightarrow> string \<Rightarrow> sqlval \<Rightarrow> string \<Rightarrow> row" where
  "result_row rid testId answers score feedback analysis now =
    [(''id'', SInt rid), (''test_id'', SInt testId), (''answers'', answers),
     (''score'', SInt score), (''feedback'', SText feedback), (''analysis'', analysis),
     (''completed_at'', SText now)]"

definition append_row :: "string \<Rightarrow> table \<Rightarrow> row \<Rightarrow> database \<Rightarrow> database" where
  "append_row name t r db =
    AList.update name (t\<lparr>tbl_rows := tbl_rows t @ [r], tbl_seq := next_rowid t\<rparr>) db"

fun time_le :: "js \<Rightarrow> js \<Rightarrow> bool" where
  "time_le JNull b = True"
| "time_le (JNum i) (JNum j) = (i \<le> j)"
| "time_le (JNum i) (JStr t) = True"
| "time_le (JStr s) (JStr t) = (s \<le> t)"
| "time_le a b = False"

definition results_reference_tests :: "database \<Rightarrow> bool" where
  "results_reference_tests db =
    list_all (\<lambda>r. list_ex (\<lambda>t. sql_eq (col t ''id'') (col r ''test_id'')) (table_rows db ''tests''))
      (table_rows db ''results'')"

datatype call =
    Login string string int string
  | SaveTest string int string string string js
  | SaveResult string int js int string js

fun perform :: "DataService \<Rightarrow> call \<Rightarrow> DataService" where
  "perform s (Login now name age className) = snd (login s now name age className)"
| "perform s (SaveTest now studentId topic complexity concepts questions) =
     snd (saveTest s now studentId topic complexity concepts questions)"
| "perform s (SaveResult now testId answers score feedback analysis) =
     snd (saveResult s now testId answers score feedback analysis)"

fun clean_call :: "call \<Rightarrow> bool" where
  "clean_call (Login now name age className) = True"
| "clean_call (SaveTest now studentId topic complexity concepts questions) = json_clean questions"
| "clean_call (SaveResult now testId answers score feedback analysis) =
     (json_clean answers \<and> json_clean analysis)"



section \<open>Auxiliary notions of the proofs\<close>

definition delim :: "string \<Rightarrow> bool" where
  "delim r = (case r of [] \<Rightarrow> True | c # _ \<Rightarrow> c \<in> set '',]}:'')"

definition lexes :: "token list \<Rightarrow> bool" where
  "lexes ts = (\<forall>r. delim r \<longrightarrow> tokenize (render ts @ r) = map_option (\<lambda>u. ts @ u) (tokenize r))"

fun self_delimiting :: "token \<Rightarrow> bool" where
  "self_delimiting (TNumber i) = False"
| "self_delimiting (TReal s) = False"
| "self_delimiting _ = True"

fun closing :: "token \<Rightarrow> bool" where
  "closing TComma = True"
| "closing TRBrack = True"
| "closing TRBrace = True"
| "closing TColon = True"
| "closing _ = False"

fun no_real :: "js \<Rightarrow> bool" where
  "no_real (JReal s) = False"
| "no_real (JArr xs) = (\<forall>x \<in> set xs. no_real x)"
| "no_real (JObj ms) = (\<forall>p \<in> set ms. no_real (snd p))"
| "no_real _ = True"

definition continue_with :: "pstate option \<Rightarrow> token list \<Rightarrow> pstate option" where
  "continue_with s ts = (case s of None \<Rightarrow> None | Some s' \<Rightarrow> parse_tokens s' ts)"

definition parses :: "js \<Rightarrow> bool" where
  "parses v = (\<forall>m st ts. m = PValue \<or> m = PFirst \<longrightarrow>
     parse_tokens (m, st) (js_tokens v @ ts) = continue_with (deliver v st) ts)"

definition member_tokens :: "string \<times> js \<Rightarrow> token list" where
  "member_tokens p = TString (fst p) # TColon # js_tokens (snd p)"

definition is_students :: "table_def \<Rightarrow> bool" where
  "is_students d = (d = server_students \<or> d = embedded_students)"

definition is_tests :: "table_def \<Rightarrow> bool" where
  "is_tests d = (d = server_tests \<or> d = embedded_tests)"

definition is_results :: "table_def \<Rightarrow> bool" where
  "is_results d = (d = server_results \<or> d = embedded_results)"

definition desc_by :: "string \<Rightarrow> row \<Rightarrow> row \<Rightarrow> bool" where
  "desc_by k a b = sql_le (col b k) (col a k)"

definition tests_columns :: "string list" where
  "tests_columns =
    [''id'', ''student_id'', ''topic'', ''complexity'', ''concepts'', ''questions'', ''created_at'']"

definition joined_rows :: "database \<Rightarrow> row list" where
  "joined_rows db =
    concat (map (left_join_results (table_rows db ''results'')) (table_rows db ''tests''))"

definition history_selection :: "database \<Rightarrow> int \<Rightarrow> row list" where
  "history_selection db studentId =
    order_by_desc ''created_at''
      (filter (\<lambda>j. sql_eq (col j ''student_id'') (SInt studentId)) (joined_rows db))"

definition history_object :: "row \<Rightarrow> js" where
  "history_object j = (case parse_history_row j of Inr h \<Rightarrow> h | Inl e \<Rightarrow> JUndefined)"

definition joins :: "database \<Rightarrow> row \<Rightarrow> row \<Rightarrow> row \<Rightarrow> bool" where
  "joins db t r j =
    (t \<in> set (table_rows db ''tests'') \<and> j = t @ result_columns r \<and>
     (r \<in> set (table_rows db ''results'') \<and> sql_eq (col t ''id'') (col r ''test_id'') \<or>
      r = [] \<and> (\<forall>x \<in> set (table_rows db ''results''). \<not> sql_eq (col t ''id'') (col x ''test_id''))))"

definition history_js :: "row \<Rightarrow> js \<Rightarrow> js \<Rightarrow> js" where
  "history_js j q a =
    JObj (AList.update ''analysis'' a
           (AList.update ''questions'' q (map (\<lambda>(c, v). (c, sql_to_js v)) j)))"

definition analysis_js :: "sqlval \<Rightarrow> js" where
  "analysis_js v = (if truthy v then projr (JSON_parse_column v) else JNull)"

definition same_key :: "string list \<Rightarrow> row \<Rightarrow> row \<Rightarrow> bool" where
  "same_key cs a b = list_all (\<lambda>c. sql_eq (col a c) (col b c)) cs"

fun key_unique :: "string list \<Rightarrow> row list \<Rightarrow> bool" where
  "key_unique cs [] = True"
| "key_unique cs (r # rs) = (\<not> list_ex (same_key cs r) rs \<and> key_unique cs rs)"

definition login_key :: "string list" where
  "login_key = [''name'', ''age'', ''class'']"

definition empty_table :: "table_def \<Rightarrow> table" where
  "empty_table d = \<lparr>tbl_def = d, tbl_rows = [], tbl_seq = 0\<rparr>"

definition server_inv :: "database \<Rightarrow> bool" where
  "server_inv db = (provisioned server_schema db \<and> results_reference_tests db)"

definition networked_inv :: "DataService \<Rightarrow> bool" where
  "networked_inv s = (\<not> isMobile s \<and> server_inv (server_db s))"


section \<open>Example states\<close>

definition populated :: database where
  "populated =
    [(''students'',
      \<lparr>tbl_def = server_students,
       tbl_rows = [[(''id'', SInt 1), (''name'', SText ''Ann''), (''age'', SInt 10),
                    (''class'', SText ''5th'')]],
       tbl_seq = 1\<rparr>)]"

definition fresh_server :: database where
  "fresh_server =
    [(''students'', \<lparr>tbl_def = server_students, tbl_rows = [], tbl_seq = 0\<rparr>),
     (''tests'', \<lparr>tbl_def = server_tests, tbl_rows = [], tbl_seq = 0\<rparr>),
     (''results'', \<lparr>tbl_def = server_results, tbl_rows = [], tbl_seq = 0\<rparr>)]"

definition fresh_embedded :: database where
  "fresh_embedded =
    [(''students'', \<lparr>tbl_def = embedded_students, tbl_rows = [], tbl_seq = 0\<rparr>),
     (''tests'', \<lparr>tbl_def = embedded_tests, tbl_rows = [], tbl_seq = 0\<rparr>),
     (''results'', \<lparr>tbl_def = embedded_results, tbl_rows = [], tbl_seq = 0\<rparr>)]"

definition web0 :: DataService where
  "web0 = \<lparr>isMobile = False, this_db = None, server_db = fresh_server\<rparr>"

definition mobile_start :: DataService where
  "mobile_start = \<lparr>isMobile = True, this_db = None, server_db = []\<rparr>"

definition working_device :: device where
  "working_device =
    \<lparr>createConnection_fails = False, open_fails = False, dev_db = [],
     dev_reporting = ReportsLastId\<rparr>"

definition mob0 :: DataService where
  "mob0 =
    \<lparr>isMobile = True,
     this_db = Some \<lparr>conn_open = True, conn_db = fresh_embedded, conn_reporting = ReportsLastId\<rparr>,
     server_db = []\<rparr>"

definition mob_silent :: DataService where
  "mob_silent =
    \<lparr>isMobile = True,
     this_db = Some \<lparr>conn_open = True, conn_db = fresh_embedded, conn_reporting = ReportsNoLastId\<rparr>,
     server_db = []\<rparr>"


definition web1 :: DataService where
  "web1 =
    \<lparr>isMobile = False, this_db = None,
     server_db =
       [(''students'', \<lparr>tbl_def = server_students,
                         tbl_rows = [student_row 1 ''Sam'' 9 ''4th''], tbl_seq = 1\<rparr>),
        (''tests'', \<lparr>tbl_def = server_tests, tbl_rows = [], tbl_seq = 0\<rparr>),
        (''results'', \<lparr>tbl_def = server_results, tbl_rows = [], tbl_seq = 0\<rparr>)]\<rparr>"

definition history_calls :: "call list" where
  "history_calls =
    [Login ''2024-01-01 10:00:00'' ''Sam'' 9 ''4th'',
     SaveTest ''2024-01-01 10:00:01'' 1 ''A'' ''Easy'' [] (JArr []),
     SaveTest ''2024-01-01 10:00:02'' 1 ''B'' ''Easy'' [] (JArr []),
     SaveTest ''2024-01-01 10:00:03'' 1 ''C'' ''Easy'' [] (JArr []),
     SaveResult ''2024-01-01 10:00:04'' 1 (JObj []) 100 ''Great job!'' (JObj [])]"

definition web_history :: DataService where
  "web_history =
    \<lparr>isMobile = False, this_db = None,
     server_db =
       [(''students'', \<lparr>tbl_def = server_students,
                         tbl_rows = [student_row 1 ''Sam'' 9 ''4th''], tbl_seq = 1\<rparr>),
        (''tests'',
         \<lparr>tbl_def = server_tests,
          tbl_rows =
            [test_row 1 1 ''A'' ''Easy'' [] (SText ''[]'') ''2024-01-01 10:00:01'',
             test_row 2 1 ''B'' ''Easy'' [] (SText ''[]'') ''2024-01-01 10:00:02'',
             test_row 3 1 ''C'' ''Easy'' [] (SText ''[]'') ''2024-01-01 10:00:03''],
          tbl_seq = 3\<rparr>),
        (''results'',
         \<lparr>tbl_def = server_results,
          tbl_rows =
            [result_row 1 1 (SText ''{}'') 100 ''Great job!'' (SText ''{}'') ''2024-01-01 10:00:04''],
          tbl_seq = 1\<rparr>)]\<rparr>"

definition mobile_history :: DataService where
  "mobile_history =
    \<lparr>isMobile = True,
     this_db = Some
       \<lparr>conn_open = True,
        conn_db =
          [(''students'', \<lparr>tbl_def = embedded_students,
                            tbl_rows = [student_row 1 ''Sam'' 9 ''4th''], tbl_seq = 1\<rparr>),
           (''tests'',
            \<lparr>tbl_def = embedded_tests,
             tbl_rows =
               [test_row 1 1 ''A'' ''Easy'' [] (SText ''[]'') ''2024-01-01 10:00:01'',
                test_row 2 1 ''B'' ''Easy'' [] (SText ''[]'') ''2024-01-01 10:00:02'',
                test_row 3 1 ''C'' ''Easy'' [] (SText ''[]'') ''2024-01-01 10:00:03''],
             tbl_seq = 3\<rparr>),
           (''results'',
            \<lparr>tbl_def = embedded_results,
             tbl_rows =
               [result_row 1 1 (SText ''{}'') 100 ''Great job!'' (SText ''{}'') ''2024-01-01 10:00:04''],
             tbl_seq = 1\<rparr>)],
        conn_reporting = ReportsLastId\<rparr>,
     server_db = []\<rparr>"

definition mob1 :: DataService where
  "mob1 =
    \<lparr>isMobile = True,
     this_db = Some
       \<lparr>conn_open = True,
        conn_db =
          [(''students'', \<lparr>tbl_def = embedded_students,
                            tbl_rows = [student_row 1 ''Sam'' 9 ''4th''], tbl_seq = 1\<rparr>),
           (''tests'', \<lparr>tbl_def = embedded_tests, tbl_rows = [], tbl_seq = 0\<rparr>),
           (''results'', \<lparr>tbl_def = embedded_results, tbl_rows = [], tbl_seq = 0\<rparr>)],
        conn_reporting = ReportsLastId\<rparr>,
     server_db = []\<rparr>"

definition broken_device :: device where
  "broken_device =
    \<lparr>createConnection_fails = True, open_fails = False, dev_db = [],
     dev_reporting = ReportsLastId\<rparr>"


section \<open>JSON text: parsing what was written\<close>

lemma is_digit_digit_char: "d < 10 \<Longrightarrow> is_digit (digit_char d)"
  by (simp add: is_digit_def digit_char_def)

lemma digit_val_digit_char: "d < 10 \<Longrightarrow> digit_val (digit_char d) = d"
  by (simp add: digit_val_def digit_char_def)

lemma digit_char_zero: "d < 10 \<Longrightarrow> digit_char d = CHR ''0'' \<longleftrightarrow> d = 0"
proof
  assume "d < 10" "digit_char d = CHR ''0''"
  then have "(of_char (digit_char d) :: nat) = of_char (CHR ''0'')" by simp
  with \<open>d < 10\<close> show "d = 0" by (simp add: digit_char_def)
next
  assume "d = 0"
  have "char_of (48::nat) = CHR ''0''" by code_simp
  with \<open>d = 0\<close> show "digit_char d = CHR ''0''" by (simp add: digit_char_def)
qed

lemma digits_nonempty: "digits n \<noteq> []"
  by (induction n rule: digits.induct) (subst digits.simps, simp)

lemma digits_all: "\<forall>c \<in> set (digits n). is_digit c"
proof (induction n rule: digits.induct)
  case (1 n)
  show ?case
    by (subst digits.simps) (use 1 in \<open>auto simp: is_digit_digit_char\<close>)
qed

lemma nat_of_digits_snoc: "nat_of_digits (ds @ [c]) = 10 * nat_of_digits ds + digit_val c"
  by (simp add: nat_of_digits_def)

lemma nat_of_digits_digits: "nat_of_digits (digits n) = n"
proof (induction n rule: digits.induct)
  case (1 n)
  show ?case
  proof (cases "n < 10")
    case True
    then show ?thesis
      by (subst digits.simps) (simp add: nat_of_digits_def digit_val_digit_char)
  next
    case False
    with 1 show ?thesis
      by (subst digits.simps) (simp add: nat_of_digits_snoc digit_val_digit_char)
  qed
qed

lemma hd_digits: "hd (digits n) = CHR ''0'' \<Longrightarrow> n = 0"
proof (induction n rule: digits.induct)
  case (1 n)
  show ?case
  proof (cases "n < 10")
    case True
    with "1.prems" show ?thesis
      by (subst (asm) digits.simps) (simp add: digit_char_zero)
  next
    case False
    then have "hd (digits n) = hd (digits (n div 10))"
      by (subst digits.simps) (simp add: digits_nonempty)
    with 1 False have "n div 10 = 0" by simp
    with False show ?thesis by simp
  qed
qed

lemma length_digits_gt1: "1 < length (digits n) \<Longrightarrow> hd (digits n) \<noteq> CHR ''0''"
proof
  assume a: "1 < length (digits n)" and b: "hd (digits n) = CHR ''0''"
  from b have "n = 0" by (rule hd_digits)
  with a show False by (simp add: digits.simps)
qed

lemma takeWhile_digits:
  "(r = [] \<or> \<not> is_digit (hd r)) \<Longrightarrow> takeWhile is_digit (digits n @ r) = digits n"
  using digits_all[of n] by (cases r) (auto simp: takeWhile_append2 takeWhile_eq_all_conv)

lemma dropWhile_digits:
  "(r = [] \<or> \<not> is_digit (hd r)) \<Longrightarrow> dropWhile is_digit (digits n @ r) = r"
  using digits_all[of n] by (cases r) (auto simp: dropWhile_append2 dropWhile_append3)

lemma delim_not_digit: "delim r \<Longrightarrow> r = [] \<or> \<not> is_digit (hd r)"
  by (auto simp: delim_def is_digit_def split: list.splits)

lemma lex_frac_delim: "delim r \<Longrightarrow> lex_frac r = Some ([], r)"
  by (auto simp: delim_def lex_frac_def split: list.splits)

lemma lex_exp_delim: "delim r \<Longrightarrow> lex_exp r = Some ([], r)"
  by (auto simp: delim_def lex_exp_def split: list.splits)

lemma hd_digits_not_minus: "hd (digits n @ r) \<noteq> CHR ''-''"
proof -
  have "is_digit (hd (digits n))" using digits_all[of n] digits_nonempty[of n]
    by (cases "digits n") auto
  then show ?thesis using digits_nonempty[of n] by (auto simp: is_digit_def)
qed

lemma lex_number_show_int:
  assumes "delim r"
  shows "lex_number (show_int i @ r) = Some (TNumber i, r)"
proof (cases "i < 0")
  case True
  let ?n = "nat (- i)"
  have s: "show_int i @ r = CHR ''-'' # digits ?n @ r" using True by (simp add: show_int_def)
  show ?thesis
    unfolding s lex_number_def
    using True assms length_digits_gt1[of ?n]
    by (simp add: Let_def takeWhile_digits dropWhile_digits delim_not_digit
          lex_frac_delim lex_exp_delim digits_nonempty nat_of_digits_digits)
next
  case False
  let ?n = "nat i"
  have s: "show_int i @ r = digits ?n @ r" using False by (simp add: show_int_def)
  show ?thesis
    unfolding s lex_number_def
    using False assms length_digits_gt1[of ?n] hd_digits_not_minus[of ?n r]
    by (simp add: Let_def takeWhile_digits dropWhile_digits delim_not_digit
          lex_frac_delim lex_exp_delim digits_nonempty nat_of_digits_digits)
qed

lemma hex_val_hex_char: "d < 16 \<Longrightarrow> hex_val (hex_char d) = Some d"
  by (simp add: hex_val_def hex_char_def)

lemma hex4_ctrl:
  assumes "(of_char c :: nat) < 32"
  shows "hex4 (CHR ''0'') (CHR ''0'') (hex_char (of_char c div 16)) (hex_char (of_char c mod 16)) =
           Some (of_char c)"
proof -
  let ?n = "of_char c :: nat"
  have a: "hex_val (hex_char (?n div 16)) = Some (?n div 16)"
    using assms by (intro hex_val_hex_char) simp
  have b: "hex_val (hex_char (?n mod 16)) = Some (?n mod 16)"
    by (intro hex_val_hex_char) simp
  have z: "hex_val (CHR ''0'') = Some 0" by (simp add: hex_val_def)
  show ?thesis by (simp add: hex4_def a b z)
qed

lemma lex_unicode_ctrl:
  assumes "(of_char c :: nat) < 32"
  shows "lex_unicode (CHR ''0'' # CHR ''0'' # hex_char (of_char c div 16) #
           hex_char (of_char c mod 16) # r) = Some ([c], r)"
  using assms by (simp add: lex_unicode_def hex4_ctrl utf8_def)

lemma lex_string_escape: "lex_string (escape_char c @ r) = cons_fst c (lex_string r)"
proof -
  consider (q) "c = CHR 0x22" | (bs) "c = CHR 0x5C" | (b) "c = CHR 0x08" | (f) "c = CHR 0x0C"
    | (n) "c = CHR 0x0A" | (r) "c = CHR 0x0D" | (t) "c = CHR 0x09"
    | (u) "(of_char c :: nat) < 32" "c \<noteq> CHR 0x22" "c \<noteq> CHR 0x5C" "c \<noteq> CHR 0x08"
          "c \<noteq> CHR 0x0C" "c \<noteq> CHR 0x0A" "c \<noteq> CHR 0x0D" "c \<noteq> CHR 0x09"
    | (reg) "\<not> (of_char c :: nat) < 32" "c \<noteq> CHR 0x22" "c \<noteq> CHR 0x5C"
    by blast
  then show ?thesis
  proof cases
    case q then show ?thesis by (simp add: escape_char_def unescape_def)
  next
    case bs then show ?thesis by (simp add: escape_char_def unescape_def)
  next
    case b then show ?thesis by (simp add: escape_char_def unescape_def)
  next
    case f then show ?thesis by (simp add: escape_char_def unescape_def)
  next
    case n then show ?thesis by (simp add: escape_char_def unescape_def)
  next
    case r then show ?thesis by (simp add: escape_char_def unescape_def)
  next
    case t then show ?thesis by (simp add: escape_char_def unescape_def)
  next
    case u then show ?thesis
      by (simp add: escape_char_def lex_unicode_ctrl append_fst_def cons_fst_def)
  next
    case reg
    from reg(1) have "c \<noteq> CHR 0x08" "c \<noteq> CHR 0x0C" "c \<noteq> CHR 0x0A" "c \<noteq> CHR 0x0D" "c \<noteq> CHR 0x09"
      by auto
    with reg show ?thesis by (simp add: escape_char_def)
  qed
qed

lemma lex_string_quote:
  "lex_string (concat (map escape_char s) @ CHR 0x22 # r) = Some (s, r)"
  by (induction s) (simp_all add: lex_string_escape cons_fst_def)

lemma render_Cons: "render (t # ts) = show_token t @ render ts"
  by (simp add: render_def)

lemma render_append: "render (a @ b) = render a @ render b"
  by (simp add: render_def)

lemma lex_quote: "tokenize (quote s @ r) = map_option (Cons (TString s)) (tokenize r)"
  by (simp add: quote_def lex_token_def lex_string_quote is_ws_def)

lemma lex_self_delimiting:
  "self_delimiting t \<Longrightarrow> tokenize (show_token t @ r) = map_option (Cons t) (tokenize r)"
proof (cases t)
  case (TString s)
  then show ?thesis by (simp add: lex_quote)
qed (simp_all add: lex_token_def lex_literal_def is_ws_def is_digit_def)

lemma show_int_first:
  "\<exists>c cs. show_int i = c # cs \<and> (c = CHR ''-'' \<or> is_digit c)"
proof (cases "i < 0")
  case True
  then show ?thesis by (simp add: show_int_def)
next
  case False
  obtain c cs where d: "digits (nat i) = c # cs"
    using digits_nonempty[of "nat i"] by (cases "digits (nat i)") auto
  with digits_all[of "nat i"] have "is_digit c" by simp
  with d False show ?thesis by (simp add: show_int_def)
qed

lemma digit_not_special:
  assumes "c = CHR ''-'' \<or> is_digit c"
  shows "\<not> is_ws c" "c \<noteq> CHR ''{''" "c \<noteq> CHR ''}''" "c \<noteq> CHR ''[''" "c \<noteq> CHR '']''"
    "c \<noteq> CHR '':''" "c \<noteq> CHR '',''" "c \<noteq> CHR 0x22"
  using assms by (auto simp: is_digit_def is_ws_def)

lemma lex_number_token:
  assumes "delim r"
  shows "tokenize (show_int i @ r) = map_option (Cons (TNumber i)) (tokenize r)"
proof -
  obtain c cs where s: "show_int i = c # cs" and c: "c = CHR ''-'' \<or> is_digit c"
    using show_int_first by blast
  have "lex_number (c # cs @ r) = Some (TNumber i, r)"
    using lex_number_show_int[OF assms, of i] s by simp
  then have "lex_token c (cs @ r) = Some (TNumber i, r)"
    using c digit_not_special[OF c] by (simp add: lex_token_def)
  then show ?thesis using s digit_not_special(1)[OF c] by simp
qed

lemma lexes_Nil: "lexes []"
  by (simp add: lexes_def render_def option.map_ident)

lemma lexes_number: "lexes [TNumber i]"
  by (simp add: lexes_def render_def lex_number_token)

lemma lexes_Cons: "self_delimiting t \<Longrightarrow> lexes ts \<Longrightarrow> lexes (t # ts)"
  by (simp add: lexes_def render_Cons lex_self_delimiting option.map_comp comp_def)

lemma delim_closing: "closing t \<Longrightarrow> delim (render (t # ts) @ r)"
  by (cases t) (simp_all add: delim_def render_Cons)

lemma closing_self_delimiting: "closing t \<Longrightarrow> self_delimiting t"
  by (cases t) simp_all

lemma lexes_append:
  assumes "lexes a" "closing t" "lexes ts"
  shows "lexes (a @ t # ts)"
proof -
  have b: "lexes (t # ts)" using assms by (simp add: lexes_Cons closing_self_delimiting)
  show ?thesis
    unfolding lexes_def
  proof (intro allI impI)
    fix r assume r: "delim r"
    have "tokenize (render (a @ t # ts) @ r) = tokenize (render a @ (render (t # ts) @ r))"
      by (simp add: render_append)
    also have "\<dots> = map_option (\<lambda>u. a @ u) (tokenize (render (t # ts) @ r))"
      using assms(1) delim_closing[OF assms(2)] by (simp add: lexes_def)
    also have "\<dots> = map_option (\<lambda>u. (a @ t # ts) @ u) (tokenize r)"
      using b r by (simp add: lexes_def option.map_comp comp_def)
    finally show "tokenize (render (a @ t # ts) @ r) = map_option (\<lambda>u. (a @ t # ts) @ u) (tokenize r)" .
  qed
qed

lemma lexes_sep_by:
  "(\<forall>ts \<in> set tss. lexes ts) \<Longrightarrow> lexes (sep_by TComma tss)"
proof (induction TComma tss rule: sep_by.induct)
  case 1
  then show ?case by (simp add: lexes_Nil)
next
  case (2 x)
  then show ?case by simp
next
  case (3 x y ys)
  then show ?case by (simp add: lexes_append)
qed

lemma lexes_bracket:
  assumes "lexes ts" "self_delimiting l" "closing r"
  shows "lexes (l # ts @ [r])"
  using lexes_Cons[OF assms(2) lexes_append[OF assms(1) assms(3) lexes_Nil]] by simp

lemma lexes_js_tokens: "no_real v \<Longrightarrow> lexes (js_tokens v)"
proof (induction v)
  case (JArr xs)
  then have "\<forall>ts \<in> set (map js_tokens xs). lexes ts" by auto
  then have "lexes (sep_by TComma (map js_tokens xs))" by (rule lexes_sep_by)
  then show ?case using lexes_bracket[of _ TLBrack TRBrack] by simp
next
  case (JObj ms)
  let ?mem = "\<lambda>(k, v). TString k # TColon # js_tokens v"
  have "lexes (?mem p)" if "p \<in> set ms" for p
  proof -
    obtain k v where p: "p = (k, v)" by (cases p)
    with that JObj.prems have "no_real v" by auto
    moreover have "v \<in> Basic_BNFs.snds p" using p by simp
    ultimately have "lexes (js_tokens v)" using JObj.IH that by blast
    then show ?thesis using p by (simp add: lexes_Cons)
  qed
  then have "\<forall>ts \<in> set (map ?mem (filter (\<lambda>(k, v). v \<noteq> JUndefined) ms)). lexes ts" by auto
  then have "lexes (sep_by TComma (map ?mem (filter (\<lambda>(k, v). v \<noteq> JUndefined) ms)))"
    by (rule lexes_sep_by)
  then show ?case using lexes_bracket[of _ TLBrace TRBrace] by simp
qed (simp_all add: lexes_number lexes_Cons lexes_Nil)

lemma lex_render_js: "no_real v \<Longrightarrow> tokenize (render (js_tokens v)) = Some (js_tokens v)"
  using lexes_js_tokens[of v] by (auto simp: lexes_def delim_def dest: spec[of _ "[]"])

lemma parsesD:
  "parses v \<Longrightarrow> m = PValue \<or> m = PFirst \<Longrightarrow>
   parse_tokens (m, st) (js_tokens v @ ts) = continue_with (deliver v st) ts"
  unfolding parses_def by blast

lemma parses_scalar:
  "parses JNull" "parses (JBool b)" "parses (JNum i)" "parses (JStr s)"
  by (auto simp: parses_def continue_with_def)

lemma parse_elements:
  assumes "\<forall>x \<in> set xs. parses x" "xs \<noteq> []" "m = PValue \<or> m = PFirst"
  shows "parse_tokens (m, FArr acc # st) (sep_by TComma (map js_tokens xs) @ TRBrack # ts)
         = continue_with (deliver (JArr (acc @ xs)) st) ts"
  using assms
proof (induction xs arbitrary: acc m)
  case Nil
  then show ?case by simp
next
  case (Cons x xs)
  have x: "parses x" using Cons.prems by simp
  show ?case
  proof (cases xs)
    case Nil
    have "parse_tokens (m, FArr acc # st) (js_tokens x @ TRBrack # ts)
          = continue_with (deliver x (FArr acc # st)) (TRBrack # ts)"
      using x Cons.prems(3) by (rule parsesD)
    then show ?thesis using Nil by (simp add: continue_with_def)
  next
    case (Cons y ys)
    have "parse_tokens (m, FArr acc # st)
            (js_tokens x @ TComma # (sep_by TComma (map js_tokens xs) @ TRBrack # ts))
          = continue_with (deliver x (FArr acc # st))
              (TComma # (sep_by TComma (map js_tokens xs) @ TRBrack # ts))"
      using x Cons.prems(3) by (rule parsesD)
    also have "\<dots> = parse_tokens (PValue, FArr (acc @ [x]) # st)
                        (sep_by TComma (map js_tokens xs) @ TRBrack # ts)"
      by (simp add: continue_with_def)
    also have "\<dots> = continue_with (deliver (JArr ((acc @ [x]) @ xs)) st) ts"
      using Cons.prems Cons by (intro Cons.IH) auto
    finally show ?thesis using Cons by simp
  qed
qed

lemma parses_array:
  assumes "\<forall>x \<in> set xs. parses x"
  shows "parses (JArr xs)"
  unfolding parses_def
proof (intro allI impI)
  fix m st ts assume m: "m = PValue \<or> m = PFirst"
  have s: "step (m, st) TLBrack = Some (PFirst, FArr [] # st)" using m by auto
  show "parse_tokens (m, st) (js_tokens (JArr xs) @ ts) = continue_with (deliver (JArr xs) st) ts"
  proof (cases "xs = []")
    case True
    then show ?thesis using s by (simp add: continue_with_def)
  next
    case False
    then show ?thesis
      using s parse_elements[OF assms False, of PFirst "[]" st ts] by simp
  qed
qed

lemma update_fresh: "k \<notin> fst ` set ms \<Longrightarrow> AList.update k v ms = ms @ [(k, v)]"
  by (induction ms) auto

lemma parse_members:
  assumes "\<forall>p \<in> set ms. parses (snd p)" "ms \<noteq> []" "m = PFirstKey \<or> m = PKey"
    "distinct (map fst (acc @ ms))"
  shows "parse_tokens (m, FObj acc # st) (sep_by TComma (map member_tokens ms) @ TRBrace # ts)
         = continue_with (deliver (JObj (acc @ ms)) st) ts"
  using assms
proof (induction ms arbitrary: acc m)
  case Nil
  then show ?case by simp
next
  case (Cons p ms)
  obtain k v where p: "p = (k, v)" by (cases p)
  have v: "parses v" using Cons.prems p by simp
  have fresh: "k \<notin> fst ` set acc" using Cons.prems(4) p by auto
  have key: "parse_tokens (m, FObj acc # st) (member_tokens p @ rest)
       = continue_with (Some (PNext, FObj (acc @ [p]) # st)) rest" for rest
  proof -
    have "parse_tokens (m, FObj acc # st) (member_tokens p @ rest)
          = parse_tokens (PValue, FKey acc k # st) (js_tokens v @ rest)"
      using Cons.prems(3) p by (auto simp: member_tokens_def)
    also have "\<dots> = continue_with (deliver v (FKey acc k # st)) rest"
      using v by (rule parsesD) simp
    finally show ?thesis using fresh p by (simp add: update_fresh)
  qed
  show ?case
  proof (cases ms)
    case Nil
    then show ?thesis using key[of "TRBrace # ts"] by (simp add: continue_with_def)
  next
    case (Cons q qs)
    have "parse_tokens (m, FObj acc # st)
            (member_tokens p @ TComma # (sep_by TComma (map member_tokens ms) @ TRBrace # ts))
          = parse_tokens (PKey, FObj (acc @ [p]) # st)
              (sep_by TComma (map member_tokens ms) @ TRBrace # ts)"
      using key by (simp add: continue_with_def)
    also have "\<dots> = continue_with (deliver (JObj ((acc @ [p]) @ ms)) st) ts"
      using Cons.prems Cons by (intro Cons.IH) auto
    finally show ?thesis using Cons by simp
  qed
qed

lemma parses_object:
  assumes "\<forall>p \<in> set ms. parses (snd p)" "distinct (map fst ms)" "\<forall>p \<in> set ms. snd p \<noteq> JUndefined"
  shows "parses (JObj ms)"
  unfolding parses_def
proof (intro allI impI)
  fix m st ts assume m: "m = PValue \<or> m = PFirst"
  have s: "step (m, st) TLBrace = Some (PFirstKey, FObj [] # st)" using m by auto
  have f: "filter (\<lambda>(k, v). v \<noteq> JUndefined) ms = ms"
    using assms(3) by (auto simp: filter_id_conv)
  have g: "(\<lambda>(k, v). TString k # TColon # js_tokens v) = member_tokens"
    by (auto simp: member_tokens_def fun_eq_iff)
  have t: "js_tokens (JObj ms) = TLBrace # sep_by TComma (map member_tokens ms) @ [TRBrace]"
    by (simp add: f g)
  show "parse_tokens (m, st) (js_tokens (JObj ms) @ ts) = continue_with (deliver (JObj ms) st) ts"
  proof (cases "ms = []")
    case True
    then show ?thesis using s by (simp add: continue_with_def)
  next
    case False
    then show ?thesis
      unfolding t using s parse_members[OF assms(1) False, of PFirstKey "[]" st ts] assms(2)
      by simp
  qed
qed

lemma json_clean_parses: "json_clean v \<Longrightarrow> parses v"
proof (induction v)
  case (JArr xs)
  then show ?case by (intro parses_array) auto
next
  case (JObj ms)
  have "parses (snd p)" if "p \<in> set ms" for p
  proof -
    have "snd p \<in> Basic_BNFs.snds p" by (cases p) simp
    then show ?thesis using JObj.IH[OF that] JObj.prems that by auto
  qed
  moreover have "snd p \<noteq> JUndefined" if "p \<in> set ms" for p
    using JObj.prems that by (cases "snd p") auto
  ultimately show ?case using JObj.prems by (intro parses_object) auto
qed (simp_all add: parses_scalar)

lemma json_clean_no_real: "json_clean v \<Longrightarrow> no_real v"
  by (induction v) auto

lemma JSON_roundtrip:
  assumes "json_clean v"
  shows "JSON_stringify v = Some (render (js_tokens v))"
    and "JSON_parse (render (js_tokens v)) = Inr v"
proof -
  show "JSON_stringify v = Some (render (js_tokens v))"
    using assms by (auto simp: JSON_stringify_def)
  have "parse_tokens (PValue, []) (js_tokens v @ []) = continue_with (deliver v []) []"
    using json_clean_parses[OF assms] by (rule parsesD) simp
  then show "JSON_parse (render (js_tokens v)) = Inr v"
    by (simp add: JSON_parse_def lex_render_js json_clean_no_real assms continue_with_def)
qed


section \<open>Rows of the three tables\<close>

lemma server_table_names [simp]:
  "td_name server_students = ''students''" "td_name server_tests = ''tests''"
  "td_name server_results = ''results''"
  by (simp_all add: server_students_def server_tests_def server_results_def)

lemma embedded_table_names [simp]:
  "td_name embedded_students = ''students''" "td_name embedded_tests = ''tests''"
  "td_name embedded_results = ''results''"
  by (simp_all add: embedded_students_def embedded_tests_def embedded_results_def)

lemma embedded_columns:
  "td_columns embedded_students = td_columns server_students"
  "td_columns embedded_results =
     map (\<lambda>c. c\<lparr>col_type := embedded_dialect (col_type c)\<rparr>) (td_columns server_results)"
  "td_columns embedded_tests =
     map (\<lambda>c. c\<lparr>col_type := embedded_dialect (col_type c)\<rparr>) (td_columns server_tests)"
  by (simp_all add: embedded_students_def server_students_def embedded_tests_def server_tests_def
        embedded_results_def server_results_def column_def id_column_def timestamp_column_def
        embedded_dialect_def)

lemma column_names_students: "is_students d \<Longrightarrow> column_names d = [''id'', ''name'', ''age'', ''class'']"
  by (auto simp: is_students_def column_names_def server_students_def embedded_students_def
        column_def id_column_def)

lemma column_names_tests:
  "is_tests d \<Longrightarrow> column_names d =
     [''id'', ''student_id'', ''topic'', ''complexity'', ''concepts'', ''questions'', ''created_at'']"
  by (auto simp: is_tests_def column_names_def server_tests_def embedded_tests_def
        column_def id_column_def timestamp_column_def)

lemma column_names_results:
  "is_results d \<Longrightarrow> column_names d =
     [''id'', ''test_id'', ''answers'', ''score'', ''feedback'', ''analysis'', ''completed_at'']"
  by (auto simp: is_results_def column_names_def server_results_def embedded_results_def
        column_def id_column_def timestamp_column_def)

lemma new_row_students:
  "is_students d \<Longrightarrow>
   new_row d rid [(''name'', a), (''age'', b), (''class'', c)] now =
     [(''id'', SInt rid), (''name'', a), (''age'', b), (''class'', c)]"
  by (auto simp: is_students_def new_row_def server_students_def embedded_students_def
        column_def id_column_def)

lemma new_row_tests:
  "is_tests d \<Longrightarrow>
   new_row d rid [(''student_id'', a), (''topic'', b), (''complexity'', c), (''concepts'', e),
                  (''questions'', q)] now =
     [(''id'', SInt rid), (''student_id'', a), (''topic'', b), (''complexity'', c),
      (''concepts'', e), (''questions'', q), (''created_at'', SText now)]"
  by (auto simp: is_tests_def new_row_def server_tests_def embedded_tests_def
        column_def id_column_def timestamp_column_def)

lemma new_row_results:
  "is_results d \<Longrightarrow>
   new_row d rid [(''test_id'', a), (''answers'', b), (''score'', c), (''feedback'', e),
                  (''analysis'', q)] now =
     [(''id'', SInt rid), (''test_id'', a), (''answers'', b), (''score'', c),
      (''feedback'', e), (''analysis'', q), (''completed_at'', SText now)]"
  by (auto simp: is_results_def new_row_def server_results_def embedded_results_def
        column_def id_column_def timestamp_column_def)

lemma not_null_students:
  "is_students d \<Longrightarrow>
   violates_not_null d [(''id'', i), (''name'', a), (''age'', b), (''class'', c)]
     = (a = SNull \<or> b = SNull \<or> c = SNull)"
  by (auto simp: is_students_def violates_not_null_def server_students_def embedded_students_def
        column_def id_column_def col_def)

lemma not_null_tests:
  "is_tests d \<Longrightarrow>
   violates_not_null d [(''id'', i), (''student_id'', a), (''topic'', b), (''complexity'', c),
      (''concepts'', e), (''questions'', q), (''created_at'', t)]
     = (a = SNull \<or> b = SNull \<or> c = SNull \<or> e = SNull \<or> q = SNull)"
  by (auto simp: is_tests_def violates_not_null_def server_tests_def embedded_tests_def
        column_def id_column_def timestamp_column_def col_def)

lemma not_null_results:
  "is_results d \<Longrightarrow>
   violates_not_null d [(''id'', i), (''test_id'', a), (''answers'', b), (''score'', c),
      (''feedback'', e), (''analysis'', q), (''completed_at'', t)]
     = (a = SNull \<or> b = SNull)"
  by (auto simp: is_results_def violates_not_null_def server_results_def embedded_results_def
        column_def id_column_def timestamp_column_def col_def)

lemma fold_max_ge: "(a::int) \<le> fold max xs a"
  by (induction xs arbitrary: a) (auto intro: order_trans[OF max.cobounded2])

lemma fold_max_mem: "x \<in> set xs \<Longrightarrow> (x::int) \<le> fold max xs a"
proof (induction xs arbitrary: a)
  case Nil
  then show ?case by simp
next
  case (Cons y ys)
  show ?case
  proof (cases "x = y")
    case True
    have "max y a \<le> fold max ys (max y a)" by (rule fold_max_ge)
    with True show ?thesis by simp
  next
    case False
    with Cons show ?thesis by simp
  qed
qed

lemma next_rowid_fresh: "r \<in> set (tbl_rows t) \<Longrightarrow> rowid r < next_rowid t"
  using fold_max_mem[of "rowid r" "map rowid (tbl_rows t)" "max 0 (tbl_seq t)"]
  by (simp add: next_rowid_def)

lemma table_rows_Some: "map_of db name = Some t \<Longrightarrow> table_rows db name = tbl_rows t"
  by (simp add: table_rows_def)

lemma select_students:
  "map_of db ''students'' = Some t \<Longrightarrow>
   sql_select ''students'' [(''name'', SText n), (''age'', SInt a), (''class'', SText c)] db
     = Inr (matching_students db n a c)"
  by (simp add: sql_select_def matching_students_def table_rows_def)

lemma constraints_cases:
  "is_students d \<Longrightarrow> td_constraints d = [] \<or> td_constraints d = [Unique [''name'', ''age'', ''class'']]"
  "is_tests d \<Longrightarrow> td_constraints d = [] \<or> td_constraints d = [ForeignKey ''student_id'' ''students'' ''id'']"
  "is_results d \<Longrightarrow> td_constraints d = [] \<or> td_constraints d = [ForeignKey ''test_id'' ''tests'' ''id'']"
  by (auto simp: is_students_def is_tests_def is_results_def server_students_def
        embedded_students_def server_tests_def embedded_tests_def server_results_def
        embedded_results_def)

lemma col_student_row [simp]:
  "col (student_row rid n a c) ''id'' = SInt rid"
  "col (student_row rid n a c) ''name'' = SText n"
  "col (student_row rid n a c) ''age'' = SInt a"
  "col (student_row rid n a c) ''class'' = SText c"
  by (simp_all add: student_row_def col_def)

lemma insert_student:
  assumes "map_of db ''students'' = Some t" "is_students (tbl_def t)"
    and "matching_students db n a c = []"
  shows "sql_insert ''students'' [(''name'', SText n), (''age'', SInt a), (''class'', SText c)] now db
     = Inr (next_rowid t,
            AList.update ''students''
              (t\<lparr>tbl_rows := tbl_rows t @ [student_row (next_rowid t) n a c],
                 tbl_seq := next_rowid t\<rparr>) db)"
proof -
  let ?r = "student_row (next_rowid t) n a c"
  have nr: "new_row (tbl_def t) (next_rowid t) [(''name'', SText n), (''age'', SInt a), (''class'', SText c)] now = ?r"
    using assms(2) by (simp add: new_row_students student_row_def)
  have nn: "\<not> violates_not_null (tbl_def t) ?r"
    using assms(2) by (simp add: student_row_def not_null_students)
  have u: "\<not> violates db (tbl_rows t) ?r (Unique [''name'', ''age'', ''class''])"
    using assms(1,3) by (auto simp: matching_students_def table_rows_def filter_empty_conv list_ex_iff)
  have "\<not> list_ex (violates db (tbl_rows t) ?r) (td_constraints (tbl_def t))"
    using constraints_cases(1)[OF assms(2)] u by auto
  then show ?thesis
    using assms(1) nn by (simp add: sql_insert_def nr Let_def)
qed

lemma col_test_row [simp]:
  "col (test_row rid sid tp cx cs q now) ''id'' = SInt rid"
  "col (test_row rid sid tp cx cs q now) ''student_id'' = SInt sid"
  "col (test_row rid sid tp cx cs q now) ''questions'' = q"
  "col (test_row rid sid tp cx cs q now) ''created_at'' = SText now"
  "col (test_row rid sid tp cx cs q now) ''topic'' = SText tp"
  by (simp_all add: test_row_def col_def)

lemma col_result_row [simp]:
  "col (result_row rid tid an sc fb al now) ''id'' = SInt rid"
  "col (result_row rid tid an sc fb al now) ''test_id'' = SInt tid"
  "col (result_row rid tid an sc fb al now) ''score'' = SInt sc"
  "col (result_row rid tid an sc fb al now) ''feedback'' = SText fb"
  "col (result_row rid tid an sc fb al now) ''analysis'' = al"
  "col (result_row rid tid an sc fb al now) ''completed_at'' = SText now"
  by (simp_all add: result_row_def col_def)

lemma insert_test:
  assumes "map_of db ''tests'' = Some t" "is_tests (tbl_def t)"
    and "td_constraints (tbl_def t) = [] \<or> student_exists db sid"
    and "q \<noteq> SNull"
  shows "sql_insert ''tests''
           [(''student_id'', SInt sid), (''topic'', SText tp), (''complexity'', SText cx),
            (''concepts'', SText cs), (''questions'', q)] now db
     = Inr (next_rowid t, append_row ''tests'' t (test_row (next_rowid t) sid tp cx cs q now) db)"
proof -
  let ?r = "test_row (next_rowid t) sid tp cx cs q now"
  have nr: "new_row (tbl_def t) (next_rowid t)
      [(''student_id'', SInt sid), (''topic'', SText tp), (''complexity'', SText cx),
       (''concepts'', SText cs), (''questions'', q)] now = ?r"
    using assms(2) by (simp add: new_row_tests test_row_def)
  have nn: "\<not> violates_not_null (tbl_def t) ?r"
    using assms(2,4) by (simp add: test_row_def not_null_tests)
  have "\<not> list_ex (violates db (tbl_rows t) ?r) (td_constraints (tbl_def t))"
  proof (cases "td_constraints (tbl_def t) = []")
    case True
    then show ?thesis by simp
  next
    case False
    then have c: "td_constraints (tbl_def t) = [ForeignKey ''student_id'' ''students'' ''id'']"
      using constraints_cases(2)[OF assms(2)] by simp
    from False assms(3) have "student_exists db sid" by simp
    then show ?thesis
      unfolding c by (auto simp: student_exists_def table_rows_def split: option.splits)
  qed
  then show ?thesis
    using assms(1) nn by (simp add: sql_insert_def nr Let_def append_row_def)
qed

lemma insert_result:
  assumes "map_of db ''results'' = Some t" "is_results (tbl_def t)"
    and "td_constraints (tbl_def t) = [] \<or> test_exists db tid"
    and "an \<noteq> SNull"
  shows "sql_insert ''results''
           [(''test_id'', SInt tid), (''answers'', an), (''score'', SInt sc),
            (''feedback'', SText fb), (''analysis'', al)] now db
     = Inr (next_rowid t, append_row ''results'' t (result_row (next_rowid t) tid an sc fb al now) db)"
proof -
  let ?r = "result_row (next_rowid t) tid an sc fb al now"
  have nr: "new_row (tbl_def t) (next_rowid t)
      [(''test_id'', SInt tid), (''answers'', an), (''score'', SInt sc),
            (''feedback'', SText fb), (''analysis'', al)] now = ?r"
    using assms(2) by (simp add: new_row_results result_row_def)
  have nn: "\<not> violates_not_null (tbl_def t) ?r"
    using assms(2,4) by (simp add: result_row_def not_null_results)
  have "\<not> list_ex (violates db (tbl_rows t) ?r) (td_constraints (tbl_def t))"
  proof (cases "td_constraints (tbl_def t) = []")
    case True
    then show ?thesis by simp
  next
    case False
    then have c: "td_constraints (tbl_def t) = [ForeignKey ''test_id'' ''tests'' ''id'']"
      using constraints_cases(3)[OF assms(2)] by simp
    from False assms(3) have "test_exists db tid" by simp
    then show ?thesis
      unfolding c by (auto simp: test_exists_def table_rows_def split: option.splits)
  qed
  then show ?thesis
    using assms(1) nn by (simp add: sql_insert_def nr Let_def append_row_def)
qed

lemma insert_result_dangling:
  assumes "map_of db ''results'' = Some t" "tbl_def t = server_results"
    and "\<not> test_exists db tid" and "an \<noteq> SNull"
  shows "sql_insert ''results''
           [(''test_id'', SInt tid), (''answers'', an), (''score'', SInt sc),
            (''feedback'', SText fb), (''analysis'', al)] now db
     = Inl (SqliteError ''constraint failed'')"
proof -
  let ?r = "result_row (next_rowid t) tid an sc fb al now"
  have k: "is_results (tbl_def t)" using assms(2) by (simp add: is_results_def)
  have nr: "new_row (tbl_def t) (next_rowid t)
      [(''test_id'', SInt tid), (''answers'', an), (''score'', SInt sc),
            (''feedback'', SText fb), (''analysis'', al)] now = ?r"
    using k by (simp add: new_row_results result_row_def)
  have nn: "\<not> violates_not_null (tbl_def t) ?r"
    using k assms(4) by (simp add: result_row_def not_null_results)
  have c: "td_constraints (tbl_def t) = [ForeignKey ''test_id'' ''tests'' ''id'']"
    using assms(2) by (simp add: server_results_def)
  have "list_ex (violates db (tbl_rows t) ?r) (td_constraints (tbl_def t))"
    unfolding c using assms(3)
    by (auto simp: test_exists_def table_rows_def split: option.splits)
  then show ?thesis
    using assms(1) nn by (simp add: sql_insert_def nr Let_def)
qed


section \<open>The operations of the data service, unfolded\<close>

lemma JSON_parse_render: "json_clean v \<Longrightarrow> JSON_parse (render (js_tokens v)) = Inr v"
  by (rule JSON_roundtrip(2))

lemma res_json_parse: "json_clean v \<Longrightarrow> JSON_parse (snd (res_json st v)) = Inr v"
  by (simp add: res_json_def JSON_roundtrip)

lemma res_error_parse: "JSON_parse (snd (res_error msg)) = Inr (JObj [(''error'', JStr msg)])"
  by (simp add: res_error_def res_json_parse)

lemma fetch_post_clean:
  "json_clean (JObj payload) \<Longrightarrow>
   fetch_post handler payload now s =
     (case handler (JObj payload) now (server_db s) of
        (res, d) \<Rightarrow> (JSON_parse (snd res), s\<lparr>server_db := d\<rparr>))"
  unfolding fetch_post_def by (simp only: JSON_parse_render sum.case)

lemma provisioned_server:
  assumes "provisioned server_schema db"
  shows "\<exists>ts tt tr. map_of db ''students'' = Some ts \<and> map_of db ''tests'' = Some tt \<and>
           map_of db ''results'' = Some tr \<and>
           tbl_def ts = server_students \<and> tbl_def tt = server_tests \<and> tbl_def tr = server_results"
proof -
  from assms have a: "case map_of db ''students'' of Some t \<Rightarrow> tbl_def t = server_students | None \<Rightarrow> False"
    and b: "case map_of db ''tests'' of Some t \<Rightarrow> tbl_def t = server_tests | None \<Rightarrow> False"
    and c: "case map_of db ''results'' of Some t \<Rightarrow> tbl_def t = server_results | None \<Rightarrow> False"
    by (simp_all add: provisioned_def server_schema_def cong: option.case_cong)
  from a obtain ts where "map_of db ''students'' = Some ts" "tbl_def ts = server_students"
    by (cases "map_of db ''students''") auto
  moreover from b obtain tt where "map_of db ''tests'' = Some tt" "tbl_def tt = server_tests"
    by (cases "map_of db ''tests''") auto
  moreover from c obtain tr where "map_of db ''results'' = Some tr" "tbl_def tr = server_results"
    by (cases "map_of db ''results''") auto
  ultimately show ?thesis by blast
qed

lemma provisioned_embedded:
  assumes "provisioned embedded_schema db"
  shows "\<exists>ts tt tr. map_of db ''students'' = Some ts \<and> map_of db ''tests'' = Some tt \<and>
           map_of db ''results'' = Some tr \<and>
           tbl_def ts = embedded_students \<and> tbl_def tt = embedded_tests \<and> tbl_def tr = embedded_results"
proof -
  from assms have a: "case map_of db ''students'' of Some t \<Rightarrow> tbl_def t = embedded_students | None \<Rightarrow> False"
    and b: "case map_of db ''tests'' of Some t \<Rightarrow> tbl_def t = embedded_tests | None \<Rightarrow> False"
    and c: "case map_of db ''results'' of Some t \<Rightarrow> tbl_def t = embedded_results | None \<Rightarrow> False"
    by (simp_all add: provisioned_def embedded_schema_def cong: option.case_cong)
  from a obtain ts where "map_of db ''students'' = Some ts" "tbl_def ts = embedded_students"
    by (cases "map_of db ''students''") auto
  moreover from b obtain tt where "map_of db ''tests'' = Some tt" "tbl_def tt = embedded_tests"
    by (cases "map_of db ''tests''") auto
  moreover from c obtain tr where "map_of db ''results'' = Some tr" "tbl_def tr = embedded_results"
    by (cases "map_of db ''results''") auto
  ultimately show ?thesis by blast
qed

lemma backend_ready_provisioned: "backend_ready s \<Longrightarrow> backend_provisioned s"
  by (simp add: backend_ready_def)

lemma backend_provisioned_tables:
  "backend_provisioned s \<Longrightarrow> tables_ok (backend_schema s) (backend_db s)"
  by (auto simp: backend_provisioned_def backend_schema_def backend_db_def split: option.splits)

lemma backend_ready_store:
  "backend_ready s \<Longrightarrow> store_ok (backend_schema s) (backend_db s)"
  by (simp add: backend_ready_def store_ok_def backend_provisioned_tables)

lemma backend_table_kinds:
  "is_students (if isMobile s then embedded_students else server_students)"
  "is_tests (if isMobile s then embedded_tests else server_tests)"
  "is_results (if isMobile s then embedded_results else server_results)"
  by (simp_all add: is_students_def is_tests_def is_results_def)

lemma row_to_js_keys: "map fst (map (\<lambda>(c, v). (c, sql_to_js v)) r) = map fst r"
  by (induction r) auto

lemma sql_to_js_clean: "json_clean (sql_to_js v)"
  by (cases v) simp_all

lemma row_to_js_clean: "distinct (map fst r) \<Longrightarrow> json_clean (row_to_js r)"
  unfolding row_to_js_def json_clean.simps row_to_js_keys
  by (auto simp: sql_to_js_clean)

lemma student_row_wf:
  assumes "rows_wf t" "is_students (tbl_def t)" "r \<in> set (tbl_rows t)"
  shows "distinct (map fst r)"
  using assms by (auto simp: rows_wf_def list_all_iff column_names_students)

lemma api_login_eq:
  assumes "map_of db ''students'' = Some t" "is_students (tbl_def t)"
  shows "api_login (JObj [(''name'', JStr n), (''age'', JNum a), (''className'', JStr c)]) now db =
    (case matching_students db n a c of
       r # rs \<Rightarrow> (res_json 200 (row_to_js r), db)
     | [] \<Rightarrow>
        (res_json 200 (JObj [(''id'', JNum (next_rowid t)), (''name'', JStr n), (''age'', JNum a),
                    (''class'', JStr c)]),
           AList.update ''students''
              (t\<lparr>tbl_rows := tbl_rows t @ [student_row (next_rowid t) n a c],
                 tbl_seq := next_rowid t\<rparr>) db))"
proof (cases "matching_students db n a c")
  case Nil
  show ?thesis
    unfolding api_login_def Let_def
    by (simp add: select_students[OF assms(1)] Nil insert_student[OF assms Nil])
next
  case (Cons r rs)
  show ?thesis
    unfolding api_login_def Let_def
    by (simp add: select_students[OF assms(1)] Cons)
qed


lemma login_networked:
  assumes "\<not> isMobile s" "map_of (server_db s) ''students'' = Some t" "is_students (tbl_def t)"
    "rows_wf t"
  shows "login s now n a c =
    (case matching_students (server_db s) n a c of
       r # rs \<Rightarrow> (Inr (row_to_js r), s)
     | [] \<Rightarrow>
        (Inr (JObj [(''id'', JNum (next_rowid t)), (''name'', JStr n), (''age'', JNum a),
                    (''class'', JStr c)]),
         s\<lparr>server_db := AList.update ''students''
              (t\<lparr>tbl_rows := tbl_rows t @ [student_row (next_rowid t) n a c],
                 tbl_seq := next_rowid t\<rparr>) (server_db s)\<rparr>))"
proof -
  have pc: "json_clean (JObj [(''name'', JStr n), (''age'', JNum a), (''className'', JStr c)])"
    by simp
  have l: "login s now n a c =
     (case api_login (JObj [(''name'', JStr n), (''age'', JNum a), (''className'', JStr c)]) now (server_db s) of
        (res, d) \<Rightarrow> (JSON_parse (snd res), s\<lparr>server_db := d\<rparr>))"
    by (simp only: login_def fetch_post_clean[OF pc] assms(1) if_True if_False simp_thms)
  show ?thesis
  proof (cases "matching_students (server_db s) n a c")
    case Nil
    have "json_clean (JObj [(''id'', JNum (next_rowid t)), (''name'', JStr n), (''age'', JNum a),
                    (''class'', JStr c)])" by simp
    then show ?thesis
      unfolding l api_login_eq[OF assms(2,3)] Nil
      by (simp only: list.case prod.case res_json_parse)
  next
    case (Cons r rs)
    then have "r \<in> set (matching_students (server_db s) n a c)" by simp
    then have "r \<in> set (tbl_rows t)"
      using assms(2) by (simp add: matching_students_def table_rows_def)
    then have "json_clean (row_to_js r)"
      using assms(3,4) by (intro row_to_js_clean student_row_wf)
    then show ?thesis
      unfolding l api_login_eq[OF assms(2,3)] Cons
      by (simp add: res_json_parse)
  qed
qed

lemma login_embedded:
  assumes "isMobile s" "this_db s = Some cn" "conn_open cn"
    "map_of (conn_db cn) ''students'' = Some t" "is_students (tbl_def t)"
  shows "login s now n a c =
    (case matching_students (conn_db cn) n a c of
       r # rs \<Rightarrow> (Inr (row_to_js r), s)
     | [] \<Rightarrow>
        (Inr (JObj [(''id'', changes_lastId (run_result (conn_reporting cn) (next_rowid t))),
                    (''name'', JStr n), (''age'', JNum a), (''class'', JStr c)]),
         s\<lparr>this_db := Some (cn\<lparr>conn_db := AList.update ''students''
              (t\<lparr>tbl_rows := tbl_rows t @ [student_row (next_rowid t) n a c],
                 tbl_seq := next_rowid t\<rparr>) (conn_db cn)\<rparr>)\<rparr>))"
proof (cases "matching_students (conn_db cn) n a c")
  case Nil
  show ?thesis
    using assms(1-3)
    by (simp add: login_def conn_query_def conn_run_def select_students[OF assms(4)] Nil
          insert_student[OF assms(4,5) Nil])
next
  case (Cons r rs)
  show ?thesis
    using assms(1-3)
    by (simp add: login_def conn_query_def select_students[OF assms(4)] Cons)
qed


section \<open>The history query\<close>

lemma sql_le_total: "\<not> sql_le a b \<Longrightarrow> sql_le b a"
  by (cases a; cases b) auto

lemma sql_le_trans: "sql_le a b \<Longrightarrow> sql_le b c \<Longrightarrow> sql_le a c"
  by (cases a; cases b; cases c) auto

lemma set_insert_desc: "set (insert_desc k r xs) = insert r (set xs)"
  by (induction xs) auto

lemma sorted_insert_desc:
  "sorted_wrt (desc_by k) xs \<Longrightarrow> sorted_wrt (desc_by k) (insert_desc k r xs)"
proof (induction xs)
  case Nil
  then show ?case by simp
next
  case (Cons x xs)
  show ?case
  proof (cases "sql_le (col r k) (col x k)")
    case True
    with Cons show ?thesis
      by (auto simp: set_insert_desc desc_by_def)
  next
    case False
    then have rx: "sql_le (col x k) (col r k)" by (rule sql_le_total)
    have "desc_by k r y" if "y \<in> set xs" for y
    proof -
      from Cons.prems that have "sql_le (col y k) (col x k)" by (auto simp: desc_by_def)
      then show ?thesis using rx unfolding desc_by_def by (rule sql_le_trans)
    qed
    with False rx Cons.prems show ?thesis by (auto simp: desc_by_def)
  qed
qed

lemma foldl_insert_desc:
  "sorted_wrt (desc_by k) acc \<Longrightarrow>
   sorted_wrt (desc_by k) (foldl (\<lambda>acc r. insert_desc k r acc) acc rows) \<and>
   set (foldl (\<lambda>acc r. insert_desc k r acc) acc rows) = set acc \<union> set rows"
proof (induction rows arbitrary: acc)
  case Nil
  then show ?case by simp
next
  case (Cons r rows)
  from Cons.prems have "sorted_wrt (desc_by k) (insert_desc k r acc)"
    by (rule sorted_insert_desc)
  from Cons.IH[OF this] show ?case by (auto simp: set_insert_desc)
qed

lemma order_by_desc_sorted: "sorted_wrt (desc_by k) (order_by_desc k rows)"
  using foldl_insert_desc[of k "[]" rows] by (simp add: order_by_desc_def)

lemma set_order_by_desc: "set (order_by_desc k rows) = set rows"
  using foldl_insert_desc[of k "[]" rows] by (simp add: order_by_desc_def)

lemma int_literal_show_int: "int_literal (show_int i) = Some i"
  using lex_number_show_int[of "[]" i] by (simp add: int_literal_def delim_def)

lemma numeric_affinity_route: "numeric_affinity (SText (show_int i)) = SInt i"
  by (simp add: numeric_affinity_def int_literal_show_int)

lemma numeric_affinity_int: "numeric_affinity (SInt i) = SInt i"
  by (simp add: numeric_affinity_def)

lemma history_rows_route: "history_rows (SText (show_int i)) db = history_rows (SInt i) db"
  unfolding history_rows_def history_query_def numeric_affinity_route numeric_affinity_int
  by (rule refl)

lemma map_result_all:
  "(\<forall>x \<in> set xs. \<exists>y. f x = Inr y) \<Longrightarrow> map_result f xs = Inr (map (projr \<circ> f) xs)"
  by (induction xs) auto

lemma history_query_eq:
  "map_of db ''tests'' = Some tt \<Longrightarrow> map_of db ''results'' = Some tr \<Longrightarrow>
   history_query (SInt sid) db = Inr (history_selection db sid)"
  by (simp add: history_query_def history_selection_def joined_rows_def table_rows_def
        numeric_affinity_int)

lemma left_join_cases:
  assumes "j \<in> set (left_join_results R t)"
  shows "\<exists>r. j = t @ result_columns r \<and>
           (r \<in> set R \<and> sql_eq (col t ''id'') (col r ''test_id'') \<or>
            r = [] \<and> (\<forall>x \<in> set R. \<not> sql_eq (col t ''id'') (col x ''test_id'')))"
proof (cases "filter (\<lambda>r. sql_eq (col t ''id'') (col r ''test_id'')) R")
  case Nil
  then have "\<forall>x \<in> set R. \<not> sql_eq (col t ''id'') (col x ''test_id'')"
    by (simp add: filter_empty_conv)
  moreover from assms Nil have "j = t @ result_columns []" by (simp add: left_join_results_def)
  ultimately show ?thesis by blast
next
  case (Cons m ms)
  with assms obtain r where "r \<in> set (filter (\<lambda>r. sql_eq (col t ''id'') (col r ''test_id'')) R)"
      "j = t @ result_columns r"
    by (auto simp: left_join_results_def)
  then show ?thesis by auto
qed

lemma left_join_unmatched:
  "\<forall>x \<in> set R. \<not> sql_eq (col t ''id'') (col x ''test_id'') \<Longrightarrow>
   left_join_results R t = [t @ result_columns []]"
  by (simp add: left_join_results_def filter_empty_conv[THEN iffD2])

lemma left_join_nonempty: "\<exists>j. j \<in> set (left_join_results R t)"
  by (cases "filter (\<lambda>r. sql_eq (col t ''id'') (col r ''test_id'')) R")
     (auto simp: left_join_results_def)

lemma joined_rows_joins: "j \<in> set (joined_rows db) \<Longrightarrow> \<exists>t r. joins db t r j"
  using left_join_cases by (fastforce simp: joined_rows_def joins_def)

lemma joined_rows_complete:
  "t \<in> set (table_rows db ''tests'') \<Longrightarrow> \<exists>j \<in> set (joined_rows db). \<exists>r. joins db t r j"
proof -
  assume t: "t \<in> set (table_rows db ''tests'')"
  obtain j where j: "j \<in> set (left_join_results (table_rows db ''results'') t)"
    using left_join_nonempty by blast
  with t have "j \<in> set (joined_rows db)" by (auto simp: joined_rows_def)
  moreover from left_join_cases[OF j] t have "\<exists>r. joins db t r j" by (auto simp: joins_def)
  ultimately show ?thesis by blast
qed

lemma col_append_left:
  assumes "c \<in> set (map fst t)"
  shows "col (t @ x) c = col t c"
proof -
  have "map_of t c \<noteq> None" using assms by (simp add: map_of_eq_None_iff)
  then obtain v where "map_of t c = Some v" by blast
  then show ?thesis by (simp add: col_def map_add_def)
qed

lemma col_append_right:
  assumes "c \<notin> set (map fst t)"
  shows "col (t @ x) c = col x c"
proof -
  have "map_of t c = None" using assms by (simp add: map_of_eq_None_iff)
  then show ?thesis by (simp add: col_def map_add_def)
qed

lemma col_result_columns:
  "col (result_columns r) ''score'' = col r ''score''"
  "col (result_columns r) ''feedback'' = col r ''feedback''"
  "col (result_columns r) ''analysis'' = col r ''analysis''"
  "col (result_columns r) ''completed_at'' = col r ''completed_at''"
  by (simp_all add: result_columns_def col_def)

lemma col_nil [simp]: "col [] c = SNull"
  by (simp add: col_def)

lemma joined_cols:
  assumes "map fst t = tests_columns"
  shows "col (t @ result_columns r) ''id'' = col t ''id''"
    "col (t @ result_columns r) ''student_id'' = col t ''student_id''"
    "col (t @ result_columns r) ''topic'' = col t ''topic''"
    "col (t @ result_columns r) ''questions'' = col t ''questions''"
    "col (t @ result_columns r) ''created_at'' = col t ''created_at''"
    "col (t @ result_columns r) ''score'' = col r ''score''"
    "col (t @ result_columns r) ''feedback'' = col r ''feedback''"
    "col (t @ result_columns r) ''analysis'' = col r ''analysis''"
    "col (t @ result_columns r) ''completed_at'' = col r ''completed_at''"
  using assms
  by (simp_all add: col_append_left col_append_right col_result_columns tests_columns_def)

lemma joined_keys:
  "map fst t = tests_columns \<Longrightarrow>
   map fst (t @ result_columns r) =
     tests_columns @ [''score'', ''feedback'', ''analysis'', ''completed_at'']"
  by (simp add: result_columns_def)

lemma parse_history_row_eq:
  assumes "JSON_parse_column (col j ''questions'') = Inr q"
    and "\<not> truthy (col j ''analysis'') \<or> (\<exists>a. JSON_parse_column (col j ''analysis'') = Inr a)"
  shows "parse_history_row j = Inr (history_js j q (analysis_js (col j ''analysis'')))"
  using assms
  by (auto simp: parse_history_row_def history_js_def analysis_js_def row_to_js_def)

lemma get_prop_row:
  "get_prop (JObj (map (\<lambda>(c, v). (c, sql_to_js v)) j)) c =
     (case map_of j c of Some v \<Rightarrow> sql_to_js v | None \<Rightarrow> JUndefined)"
  by (simp add: map_of_map split: option.splits)

lemma get_prop_history_js:
  "get_prop (history_js j q a) c =
     (if c = ''analysis'' then a else if c = ''questions'' then q
      else case map_of j c of Some v \<Rightarrow> sql_to_js v | None \<Rightarrow> JUndefined)"
  by (simp add: history_js_def update_conv' map_of_map split: option.splits)

lemma get_prop_history_col:
  assumes "c \<in> set (map fst j)" "c \<noteq> ''analysis''" "c \<noteq> ''questions''"
  shows "get_prop (history_js j q a) c = sql_to_js (col j c)"
proof -
  have "map_of j c \<noteq> None" using assms(1) by (simp add: map_of_eq_None_iff)
  then obtain v where "map_of j c = Some v" by blast
  then show ?thesis using assms(2,3) by (simp add: get_prop_history_js col_def)
qed

lemma update_values:
  "(\<forall>p \<in> set al. P (snd p)) \<Longrightarrow> P v \<Longrightarrow> \<forall>p \<in> set (AList.update k v al). P (snd p)"
  by (induction al) auto

lemma history_js_clean:
  assumes "distinct (map fst j)" "''questions'' \<in> set (map fst j)" "''analysis'' \<in> set (map fst j)"
    "json_clean q" "json_clean a"
  shows "json_clean (history_js j q a)"
proof -
  let ?ms = "map (\<lambda>(c, v). (c, sql_to_js v)) j"
  have k: "map fst ?ms = map fst j" by (rule row_to_js_keys)
  let ?u = "AList.update ''questions'' q ?ms"
  have "map fst ?u = (if ''questions'' \<in> set (map fst ?ms) then map fst ?ms
                      else map fst ?ms @ [''questions''])"
    by (rule update_keys)
  then have k1: "map fst ?u = map fst j"
    using assms(2) by (simp only: k if_True)
  have "map fst (AList.update ''analysis'' a ?u) =
          (if ''analysis'' \<in> set (map fst ?u) then map fst ?u else map fst ?u @ [''analysis''])"
    by (rule update_keys)
  then have k2: "map fst (AList.update ''analysis'' a ?u) = map fst j"
    using assms(3) by (simp only: k1 if_True)
  have v0: "\<forall>p \<in> set ?ms. json_clean (snd p)" by (auto simp: sql_to_js_clean)
  have v1: "\<forall>p \<in> set (AList.update ''questions'' q ?ms). json_clean (snd p)"
    using v0 assms(4) by (rule update_values)
  have v2: "\<forall>p \<in> set (AList.update ''analysis'' a (AList.update ''questions'' q ?ms)). json_clean (snd p)"
    using v1 assms(5) by (rule update_values)
  show ?thesis
    unfolding history_js_def json_clean.simps k2 using assms(1) v2 by simp
qed

lemma tables_ok_tables:
  assumes "tables_ok script db" "script = server_schema \<or> script = embedded_schema"
  shows "\<exists>ts tt tr. map_of db ''students'' = Some ts \<and> map_of db ''tests'' = Some tt \<and>
           map_of db ''results'' = Some tr \<and> is_students (tbl_def ts) \<and> is_tests (tbl_def tt) \<and>
           is_results (tbl_def tr) \<and> rows_wf ts \<and> rows_wf tt \<and> rows_wf tr \<and>
           (script = server_schema \<longrightarrow> tbl_def ts = server_students \<and> tbl_def tt = server_tests \<and>
              tbl_def tr = server_results) \<and>
           (script = embedded_schema \<longrightarrow> tbl_def ts = embedded_students \<and>
              tbl_def tt = embedded_tests \<and> tbl_def tr = embedded_results)"
proof -
  from assms(1) have p: "provisioned script db" by (simp add: tables_ok_def)
  have ne: "server_schema \<noteq> embedded_schema"
    by (simp add: server_schema_def embedded_schema_def server_students_def embedded_students_def)
  from assms(2) show ?thesis
  proof
    assume s: "script = server_schema"
    with p obtain ts tt tr where t: "map_of db ''students'' = Some ts" "map_of db ''tests'' = Some tt"
        "map_of db ''results'' = Some tr" "tbl_def ts = server_students" "tbl_def tt = server_tests"
        "tbl_def tr = server_results"
      using provisioned_server[of db] by auto
    moreover have "rows_wf ts" "rows_wf tt" "rows_wf tr"
      using assms(1) t(1-3) by (simp_all add: tables_ok_def table_wf_def)
    ultimately show ?thesis using s ne
      by (simp add: is_students_def is_tests_def is_results_def)
  next
    assume s: "script = embedded_schema"
    with p obtain ts tt tr where t: "map_of db ''students'' = Some ts" "map_of db ''tests'' = Some tt"
        "map_of db ''results'' = Some tr" "tbl_def ts = embedded_students" "tbl_def tt = embedded_tests"
        "tbl_def tr = embedded_results"
      using provisioned_embedded[of db] by auto
    moreover have "rows_wf ts" "rows_wf tt" "rows_wf tr"
      using assms(1) t(1-3) by (simp_all add: tables_ok_def table_wf_def)
    ultimately show ?thesis using s ne
      by (simp add: is_students_def is_tests_def is_results_def)
  qed
qed

lemma store_ok_tables_ok: "store_ok script db \<Longrightarrow> tables_ok script db"
  by (simp add: store_ok_def)

lemmas store_ok_tables = tables_ok_tables[OF store_ok_tables_ok]

lemma test_row_keys:
  assumes "store_ok script db" "script = server_schema \<or> script = embedded_schema"
    and "t \<in> set (table_rows db ''tests'')"
  shows "map fst t = tests_columns"
proof -
  obtain tt where tt: "map_of db ''tests'' = Some tt" "is_tests (tbl_def tt)" "rows_wf tt"
    using store_ok_tables[OF assms(1,2)] by blast
  with assms(3) have "t \<in> set (tbl_rows tt)" by (simp add: table_rows_def)
  with tt(3) have "map fst t = column_names (tbl_def tt)" by (simp add: rows_wf_def list_all_iff)
  then show ?thesis using tt(2) by (simp add: column_names_tests tests_columns_def)
qed

lemma parses_cleanD: "parses_clean v \<Longrightarrow> \<exists>q. JSON_parse_column v = Inr q \<and> json_clean q"
  by (auto simp: parses_clean_def split: sum.splits)

lemma joined_parse:
  assumes "store_ok script db" "script = server_schema \<or> script = embedded_schema"
    and "joins db t r j"
  shows "\<exists>q. JSON_parse_column (col t ''questions'') = Inr q \<and> json_clean q \<and>
           parse_history_row j = Inr (history_js j q (analysis_js (col r ''analysis''))) \<and>
           json_clean (history_js j q (analysis_js (col r ''analysis'')))"
proof -
  from assms(3) have t: "t \<in> set (table_rows db ''tests'')" and j: "j = t @ result_columns r"
    by (simp_all add: joins_def)
  have k: "map fst t = tests_columns" using assms(1,2) t by (rule test_row_keys)
  from assms(1) t have "parses_clean (col t ''questions'')"
    by (simp add: store_ok_def stored_json_ok_def list_all_iff)
  then obtain q where q: "JSON_parse_column (col t ''questions'') = Inr q" "json_clean q"
    using parses_cleanD by blast
  have a: "\<not> truthy (col r ''analysis'') \<or> parses_clean (col r ''analysis'')"
  proof (cases "r = []")
    case True
    then show ?thesis by (simp add: truthy_def)
  next
    case False
    with assms(3) have "r \<in> set (table_rows db ''results'')" by (auto simp: joins_def)
    with assms(1) show ?thesis by (simp add: store_ok_def stored_json_ok_def list_all_iff)
  qed
  then have a1: "\<not> truthy (col r ''analysis'') \<or> (\<exists>a. JSON_parse_column (col r ''analysis'') = Inr a)"
    using parses_cleanD by blast
  have ac: "json_clean (analysis_js (col r ''analysis''))"
    using a parses_cleanD[of "col r ''analysis''"] by (auto simp: analysis_js_def)
  have c1: "col j ''questions'' = col t ''questions''" and c2: "col j ''analysis'' = col r ''analysis''"
    unfolding j using k by (simp_all add: joined_cols)
  have p: "parse_history_row j = Inr (history_js j q (analysis_js (col r ''analysis'')))"
    using parse_history_row_eq[of j q] q(1) a1 by (simp add: c1 c2)
  have keys: "map fst j = tests_columns @ [''score'', ''feedback'', ''analysis'', ''completed_at'']"
    unfolding j using k by (rule joined_keys)
  have "json_clean (history_js j q (analysis_js (col r ''analysis'')))"
    using q(2) ac by (intro history_js_clean) (simp_all add: keys tests_columns_def)
  with q p show ?thesis by blast
qed

lemma history_object_joined:
  assumes "store_ok script db" "script = server_schema \<or> script = embedded_schema"
    and "joins db t r j"
  shows "parse_history_row j = Inr (history_object j)"
    and "json_clean (history_object j)"
    and "get_prop (history_object j) ''id'' = sql_to_js (col t ''id'')"
    and "get_prop (history_object j) ''student_id'' = sql_to_js (col t ''student_id'')"
    and "get_prop (history_object j) ''topic'' = sql_to_js (col t ''topic'')"
    and "get_prop (history_object j) ''created_at'' = sql_to_js (col t ''created_at'')"
    and "JSON_parse_column (col t ''questions'') = Inr (get_prop (history_object j) ''questions'')"
    and "get_prop (history_object j) ''score'' = sql_to_js (col r ''score'')"
    and "get_prop (history_object j) ''feedback'' = sql_to_js (col r ''feedback'')"
    and "get_prop (history_object j) ''analysis'' = analysis_js (col r ''analysis'')"
    and "get_prop (history_object j) ''completed_at'' = sql_to_js (col r ''completed_at'')"
proof -
  obtain q where q: "JSON_parse_column (col t ''questions'') = Inr q"
      "parse_history_row j = Inr (history_js j q (analysis_js (col r ''analysis'')))"
      "json_clean (history_js j q (analysis_js (col r ''analysis'')))"
    using joined_parse[OF assms] by blast
  then have h: "history_object j = history_js j q (analysis_js (col r ''analysis''))"
    by (simp add: history_object_def)
  from assms(3) have t: "t \<in> set (table_rows db ''tests'')" and j: "j = t @ result_columns r"
    by (simp_all add: joins_def)
  have k: "map fst t = tests_columns" using assms(1,2) t by (rule test_row_keys)
  have keys: "map fst j = tests_columns @ [''score'', ''feedback'', ''analysis'', ''completed_at'']"
    unfolding j using k by (rule joined_keys)
  note jc = joined_cols[OF k, of r, folded j]
  show "parse_history_row j = Inr (history_object j)" using q(2) h by simp
  show "json_clean (history_object j)" using q(3) h by simp
  show "get_prop (history_object j) ''id'' = sql_to_js (col t ''id'')"
    unfolding h jc(1)[symmetric] by (rule get_prop_history_col) (simp_all add: keys tests_columns_def)
  show "get_prop (history_object j) ''student_id'' = sql_to_js (col t ''student_id'')"
    unfolding h jc(2)[symmetric] by (rule get_prop_history_col) (simp_all add: keys tests_columns_def)
  show "get_prop (history_object j) ''topic'' = sql_to_js (col t ''topic'')"
    unfolding h jc(3)[symmetric] by (rule get_prop_history_col) (simp_all add: keys tests_columns_def)
  show "get_prop (history_object j) ''created_at'' = sql_to_js (col t ''created_at'')"
    unfolding h jc(5)[symmetric] by (rule get_prop_history_col) (simp_all add: keys tests_columns_def)
  show "JSON_parse_column (col t ''questions'') = Inr (get_prop (history_object j) ''questions'')"
    using q(1) unfolding h by (simp add: get_prop_history_js)
  show "get_prop (history_object j) ''score'' = sql_to_js (col r ''score'')"
    unfolding h jc(6)[symmetric] by (rule get_prop_history_col) (simp_all add: keys tests_columns_def)
  show "get_prop (history_object j) ''feedback'' = sql_to_js (col r ''feedback'')"
    unfolding h jc(7)[symmetric] by (rule get_prop_history_col) (simp_all add: keys tests_columns_def)
  show "get_prop (history_object j) ''analysis'' = analysis_js (col r ''analysis'')"
    unfolding h by (simp add: get_prop_history_js)
  show "get_prop (history_object j) ''completed_at'' = sql_to_js (col r ''completed_at'')"
    unfolding h jc(9)[symmetric] by (rule get_prop_history_col) (simp_all add: keys tests_columns_def)
qed

lemma time_le_sql: "time_le (sql_to_js a) (sql_to_js b) = sql_le a b"
  by (cases a; cases b) simp_all

lemma selection_joined:
  "j \<in> set (history_selection db sid) \<Longrightarrow>
   j \<in> set (joined_rows db) \<and> sql_eq (col j ''student_id'') (SInt sid)"
  by (simp add: history_selection_def set_order_by_desc)

lemma history_rows_ok:
  assumes "store_ok script db" "script = server_schema \<or> script = embedded_schema"
  shows "history_rows (SInt sid) db = Inr (map history_object (history_selection db sid))"
    and "json_clean (JArr (map history_object (history_selection db sid)))"
proof -
  obtain tt tr where t: "map_of db ''tests'' = Some tt" "map_of db ''results'' = Some tr"
    using store_ok_tables[OF assms] by blast
  have ok: "parse_history_row j = Inr (history_object j) \<and> json_clean (history_object j)"
    if "j \<in> set (history_selection db sid)" for j
  proof -
    from that have "j \<in> set (joined_rows db)" using selection_joined by blast
    then obtain t r where "joins db t r j" using joined_rows_joins by blast
    then show ?thesis using history_object_joined(1,2)[OF assms] by blast
  qed
  then have "map_result parse_history_row (history_selection db sid)
      = Inr (map (projr \<circ> parse_history_row) (history_selection db sid))"
    by (intro map_result_all) blast
  moreover have "map (projr \<circ> parse_history_row) (history_selection db sid)
      = map history_object (history_selection db sid)"
    using ok by (intro map_cong) auto
  ultimately show "history_rows (SInt sid) db = Inr (map history_object (history_selection db sid))"
    by (simp add: history_rows_def history_query_eq[OF t])
  show "json_clean (JArr (map history_object (history_selection db sid)))"
    using ok by auto
qed

lemma backend_schema_cases: "backend_schema s = server_schema \<or> backend_schema s = embedded_schema"
  by (simp add: backend_schema_def)

lemma getHistory_ready:
  assumes "backend_ready s"
  shows "getHistory s sid = Inr (JArr (map history_object (history_selection (backend_db s) sid)))"
proof -
  note ok = backend_ready_store[OF assms]
  note hr = history_rows_ok[OF ok backend_schema_cases, of sid]
  show ?thesis
  proof (cases "isMobile s")
    case True
    then obtain cn where c: "this_db s = Some cn" "conn_open cn" "backend_db s = conn_db cn"
      using assms
      by (auto simp: backend_ready_def backend_provisioned_def backend_db_def split: option.splits)
    show ?thesis
      using True c hr(1) by (simp add: getHistory_def conn_query_def)
  next
    case False
    then have d: "backend_db s = server_db s" by (simp add: backend_db_def)
    have "getHistory s sid = JSON_parse (snd (api_history (show_int sid) (server_db s)))"
      using False by (simp add: getHistory_def)
    also have "\<dots> = JSON_parse (snd (res_json 200 (JArr (map history_object (history_selection (backend_db s) sid)))))"
      using hr(1) by (simp add: api_history_def history_rows_route d)
    also have "\<dots> = Inr (JArr (map history_object (history_selection (backend_db s) sid)))"
      using hr(2) by (rule res_json_parse)
    finally show ?thesis .
  qed
qed

lemma selection_complete:
  assumes "store_ok script db" "script = server_schema \<or> script = embedded_schema"
    and "t \<in> set (table_rows db ''tests'')" "col t ''student_id'' = SInt sid"
  shows "\<exists>j \<in> set (history_selection db sid). \<exists>r. joins db t r j"
proof -
  obtain j r where j: "j \<in> set (joined_rows db)" "joins db t r j"
    using joined_rows_complete[OF assms(3)] by blast
  have k: "map fst t = tests_columns" using assms(1-3) by (rule test_row_keys)
  from j(2) have "j = t @ result_columns r" by (simp add: joins_def)
  then have "col j ''student_id'' = SInt sid" using assms(4) joined_cols(2)[OF k] by simp
  then have "j \<in> set (history_selection db sid)"
    using j(1) by (simp add: history_selection_def set_order_by_desc sql_eq_def)
  with j(2) show ?thesis by blast
qed



lemma map_of_append_row:
  "map_of (append_row name t r db) n =
     (if n = name then Some (t\<lparr>tbl_rows := tbl_rows t @ [r], tbl_seq := next_rowid t\<rparr>)
      else map_of db n)"
  by (simp add: append_row_def update_conv')

lemma table_rows_append_row:
  "map_of db name = Some t \<Longrightarrow>
   table_rows (append_row name t r db) n =
     (if n = name then table_rows db name @ [r] else table_rows db n)"
  by (simp add: table_rows_def map_of_append_row)

lemma provisioned_append_row:
  assumes "provisioned script db" "map_of db name = Some t"
  shows "provisioned script (append_row name t r db)"
  using assms
  by (auto simp: provisioned_def list_all_iff map_of_append_row split: option.splits)

lemma table_wf_append_row:
  assumes "table_wf db n" "map_of db name = Some t" "map fst r = column_names (tbl_def t)"
  shows "table_wf (append_row name t r db) n"
  using assms by (auto simp: table_wf_def map_of_append_row rows_wf_def)

lemma tables_ok_append_row:
  assumes "tables_ok script db" "map_of db name = Some t" "map fst r = column_names (tbl_def t)"
  shows "tables_ok script (append_row name t r db)"
proof -
  have "provisioned script (append_row name t r db)"
    using assms(1,2) by (intro provisioned_append_row) (simp_all add: tables_ok_def)
  moreover have "table_wf (append_row name t r db) n" if "table_wf db n" for n
    using that assms(2,3) by (rule table_wf_append_row)
  ultimately show ?thesis using assms(1) by (simp add: tables_ok_def)
qed

lemma store_ok_append_row:
  assumes "store_ok script db" "script = server_schema \<or> script = embedded_schema"
    and "map_of db name = Some t" "map fst r = column_names (tbl_def t)"
    and "name = ''tests'' \<longrightarrow> parses_clean (col r ''questions'')"
    and "name = ''results'' \<longrightarrow> \<not> truthy (col r ''analysis'') \<or> parses_clean (col r ''analysis'')"
  shows "store_ok script (append_row name t r db)"
proof -
  have "tables_ok script (append_row name t r db)"
    using assms(1,3,4) by (intro tables_ok_append_row) (simp_all add: store_ok_def)
  moreover have "stored_json_ok (append_row name t r db)"
    using assms(1,3,5,6)
    by (auto simp: store_ok_def stored_json_ok_def table_rows_append_row)
  ultimately show ?thesis by (simp add: store_ok_def)
qed

lemma backend_db_with: "backend_provisioned s \<Longrightarrow> backend_db (with_backend_db s d) = d"
  by (auto simp: backend_provisioned_def backend_db_def with_backend_db_def split: option.splits)

lemma backend_provisioned_with:
  "backend_provisioned s \<Longrightarrow> tables_ok (backend_schema s) d \<Longrightarrow>
   backend_provisioned (with_backend_db s d)"
  by (auto simp: backend_provisioned_def backend_schema_def with_backend_db_def
        split: option.splits)

lemma backend_schema_with: "backend_schema (with_backend_db s d) = backend_schema s"
  by (auto simp: backend_schema_def with_backend_db_def split: option.splits)

lemma backend_ready_with:
  assumes "backend_ready s" "store_ok (backend_schema s) d"
  shows "backend_ready (with_backend_db s d)"
proof -
  have p: "backend_provisioned s" using assms(1) by (rule backend_ready_provisioned)
  have "backend_provisioned (with_backend_db s d)"
    using p assms(2) by (intro backend_provisioned_with) (simp_all add: store_ok_def)
  moreover have "stored_json_ok (backend_db (with_backend_db s d))"
    using assms(2) by (simp add: backend_db_with[OF p] store_ok_def)
  ultimately show ?thesis by (simp add: backend_ready_def)
qed

lemma reports_lastId_with:
  "reports_lastId s \<Longrightarrow> reports_lastId (with_backend_db s d)"
  by (auto simp: reports_lastId_def with_backend_db_def split: option.splits)

lemma reported_id_reports:
  "reports_lastId s \<Longrightarrow> backend_provisioned s \<Longrightarrow> reported_id s rid = JNum rid"
  by (auto simp: reports_lastId_def reported_id_def backend_provisioned_def run_result_def
        changes_lastId_def split: option.splits)

lemma stringify_defined: "v \<noteq> JUndefined \<Longrightarrow> JSON_stringify v = Some (render (js_tokens v))"
  by (simp add: JSON_stringify_def)

lemma clean_defined: "json_clean v \<Longrightarrow> v \<noteq> JUndefined"
  by auto

lemma api_tests_eq:
  assumes "map_of db ''tests'' = Some t" "is_tests (tbl_def t)"
    and "td_constraints (tbl_def t) = [] \<or> student_exists db sid" and "q \<noteq> JUndefined"
  shows "api_tests (JObj [(''studentId'', JNum sid), (''topic'', JStr tp), (''complexity'', JStr cx),
                          (''concepts'', JStr cs), (''questions'', q)]) now db =
    (res_json 200 (JObj [(''id'', JNum (next_rowid t))]),
     append_row ''tests'' t
       (test_row (next_rowid t) sid tp cx cs (SText (render (js_tokens q))) now) db)"
  unfolding api_tests_def
  by (simp add: stringify_defined[OF assms(4)] js_of_text_def
        insert_test[OF assms(1-3)])

lemma saveTest_networked:
  assumes "\<not> isMobile s" "map_of (server_db s) ''tests'' = Some t" "is_tests (tbl_def t)"
    and "td_constraints (tbl_def t) = [] \<or> student_exists (server_db s) sid" and "json_clean q"
  shows "saveTest s now sid tp cx cs q =
    (Inr (JObj [(''id'', JNum (next_rowid t))]),
     s\<lparr>server_db := append_row ''tests'' t
       (test_row (next_rowid t) sid tp cx cs (SText (render (js_tokens q))) now) (server_db s)\<rparr>)"
proof -
  have pc: "json_clean (JObj [(''studentId'', JNum sid), (''topic'', JStr tp), (''complexity'', JStr cx),
                          (''concepts'', JStr cs), (''questions'', q)])"
    using assms(5) by simp
  have l: "saveTest s now sid tp cx cs q =
     (case api_tests (JObj [(''studentId'', JNum sid), (''topic'', JStr tp), (''complexity'', JStr cx),
                          (''concepts'', JStr cs), (''questions'', q)]) now (server_db s) of
        (res, d) \<Rightarrow> (JSON_parse (snd res), s\<lparr>server_db := d\<rparr>))"
    by (simp only: saveTest_def fetch_post_clean[OF pc] assms(1) if_True if_False simp_thms)
  have "json_clean (JObj [(''id'', JNum (next_rowid t))])" by simp
  then show ?thesis
    unfolding l api_tests_eq[OF assms(2-4) clean_defined[OF assms(5)]]
    by (simp only: prod.case res_json_parse)
qed

lemma saveTest_embedded:
  assumes "isMobile s" "this_db s = Some cn" "conn_open cn"
    and "map_of (conn_db cn) ''tests'' = Some t" "tbl_def t = embedded_tests" and "q \<noteq> JUndefined"
  shows "saveTest s now sid tp cx cs q =
    (Inr (JObj [(''id'', changes_lastId (run_result (conn_reporting cn) (next_rowid t)))]),
     s\<lparr>this_db := Some (cn\<lparr>conn_db := append_row ''tests'' t
       (test_row (next_rowid t) sid tp cx cs (SText (render (js_tokens q))) now) (conn_db cn)\<rparr>)\<rparr>)"
proof -
  have k: "is_tests (tbl_def t)" "td_constraints (tbl_def t) = [] \<or> student_exists (conn_db cn) sid"
    using assms(5) by (simp_all add: is_tests_def embedded_tests_def)
  show ?thesis
    using assms(1-3)
    by (simp add: saveTest_def conn_run_def stringify_defined[OF assms(6)] js_of_text_def
          insert_test[OF assms(4) k])
qed

lemma saveTest_ready:
  assumes "backend_provisioned s" "isMobile s \<or> student_exists (backend_db s) sid" "json_clean q"
    and "map_of (backend_db s) ''tests'' = Some t"
  shows "saveTest s now sid tp cx cs q =
    (Inr (JObj [(''id'', reported_id s (next_rowid t))]),
     with_backend_db s (append_row ''tests'' t
       (test_row (next_rowid t) sid tp cx cs (SText (render (js_tokens q))) now) (backend_db s)))"
proof (cases "isMobile s")
  case True
  then obtain cn where c: "this_db s = Some cn" "conn_open cn" "backend_db s = conn_db cn"
      "tables_ok embedded_schema (conn_db cn)"
    using assms(1) by (auto simp: backend_provisioned_def backend_db_def split: option.splits)
  then have "tbl_def t = embedded_tests"
    using tables_ok_tables[of embedded_schema "conn_db cn"] assms(4) by auto
  then show ?thesis
    using saveTest_embedded[OF True c(1,2) _ _ clean_defined[OF assms(3)], of t now sid tp cx cs]
      assms(4) c True
    by (simp add: reported_id_def with_backend_db_def)
next
  case False
  then have d: "backend_db s = server_db s" "tables_ok server_schema (server_db s)"
    using assms(1) by (simp_all add: backend_db_def backend_provisioned_def)
  then have "is_tests (tbl_def t)"
    using tables_ok_tables[of server_schema "server_db s"] assms(4) by auto
  then show ?thesis
    using saveTest_networked[OF False _ _ _ assms(3), of t sid now tp cx cs] assms(2,4) d False
    by (simp add: reported_id_def with_backend_db_def)
qed

lemma test_row_keys_new: "map fst (test_row rid sid tp cx cs q now) = tests_columns"
  by (simp add: test_row_def tests_columns_def)

lemma parses_clean_render: "json_clean q \<Longrightarrow> parses_clean (SText (render (js_tokens q)))"
  by (simp add: parses_clean_def JSON_parse_column_def JSON_parse_render)

lemma login_ready:
  assumes "backend_provisioned s" "map_of (backend_db s) ''students'' = Some t"
  shows "login s now n a c =
    (case matching_students (backend_db s) n a c of
       r # rs \<Rightarrow> (Inr (row_to_js r), s)
     | [] \<Rightarrow>
        (Inr (JObj [(''id'', reported_id s (next_rowid t)), (''name'', JStr n), (''age'', JNum a),
                    (''class'', JStr c)]),
         with_backend_db s
           (append_row ''students'' t (student_row (next_rowid t) n a c) (backend_db s))))"
proof -
  note ok = backend_provisioned_tables[OF assms(1)]
  obtain ts where "map_of (backend_db s) ''students'' = Some ts" "is_students (tbl_def ts)" "rows_wf ts"
    using tables_ok_tables[OF ok backend_schema_cases] by blast
  with assms(2) have t: "is_students (tbl_def t)" "rows_wf t" by auto
  show ?thesis
  proof (cases "isMobile s")
    case True
    then obtain cn where c: "this_db s = Some cn" "conn_open cn" "backend_db s = conn_db cn"
      using assms(1)
        by (auto simp: backend_provisioned_def backend_db_def split: option.splits)
    show ?thesis
      using login_embedded[OF True c(1,2) _ t(1), of now n a c] assms(2) c True
      by (cases "matching_students (conn_db cn) n a c")
         (simp_all add: reported_id_def with_backend_db_def append_row_def)
  next
    case False
    then have d: "backend_db s = server_db s" by (simp add: backend_db_def)
    show ?thesis
      using login_networked[OF False _ t, of now n a c] assms(2) d False
      by (cases "matching_students (server_db s) n a c")
         (simp_all add: reported_id_def with_backend_db_def append_row_def)
  qed
qed

lemma student_row_keys: "map fst (student_row rid n a c) = [''id'', ''name'', ''age'', ''class'']"
  by (simp add: student_row_def)

lemma row_to_js_student_row:
  "row_to_js (student_row rid n a c) =
     JObj [(''id'', JNum rid), (''name'', JStr n), (''age'', JNum a), (''class'', JStr c)]"
  by (simp add: row_to_js_def student_row_def)

lemma matching_student_row:
  "filter (\<lambda>r. sql_eq (col r ''name'') (SText n) \<and> sql_eq (col r ''age'') (SInt a) \<and>
                sql_eq (col r ''class'') (SText c)) [student_row rid n a c] = [student_row rid n a c]"
  by (simp add: sql_eq_def)

lemma api_results_eq:
  assumes "map_of db ''results'' = Some t" "is_results (tbl_def t)"
    and "td_constraints (tbl_def t) = [] \<or> test_exists db tid" and "an \<noteq> JUndefined"
    and "al \<noteq> JUndefined"
  shows "api_results (JObj [(''testId'', JNum tid), (''answers'', an), (''score'', JNum sc),
                          (''feedback'', JStr fb), (''analysis'', al)]) now db =
    (res_json 200 (JObj [(''id'', JNum (next_rowid t))]),
     append_row ''results'' t
       (result_row (next_rowid t) tid (SText (render (js_tokens an))) sc fb
          (SText (render (js_tokens al))) now) db)"
  unfolding api_results_def
  by (simp add: stringify_defined[OF assms(4)] stringify_defined[OF assms(5)] js_of_text_def
        insert_result[OF assms(1-3)])

lemma api_results_dangling:
  assumes "map_of db ''results'' = Some t" "tbl_def t = server_results"
    and "\<not> test_exists db tid" and "an \<noteq> JUndefined" and "al \<noteq> JUndefined"
  shows "api_results (JObj [(''testId'', JNum tid), (''answers'', an), (''score'', JNum sc),
                          (''feedback'', JStr fb), (''analysis'', al)]) now db =
    (res_error ''Failed to save results'', db)"
  unfolding api_results_def
  by (simp add: stringify_defined[OF assms(4)] stringify_defined[OF assms(5)] js_of_text_def
        insert_result_dangling[OF assms(1-3)])

lemma saveResult_networked_unfold:
  assumes "\<not> isMobile s" "json_clean an" "json_clean al"
  shows "saveResult s now tid an sc fb al =
     (case api_results (JObj [(''testId'', JNum tid), (''answers'', an), (''score'', JNum sc),
                          (''feedback'', JStr fb), (''analysis'', al)]) now (server_db s) of
        (res, d) \<Rightarrow> (JSON_parse (snd res), s\<lparr>server_db := d\<rparr>))"
proof -
  have pc: "json_clean (JObj [(''testId'', JNum tid), (''answers'', an), (''score'', JNum sc),
                          (''feedback'', JStr fb), (''analysis'', al)])"
    using assms(2,3) by simp
  show ?thesis
    by (simp only: saveResult_def fetch_post_clean[OF pc] assms(1) if_True if_False simp_thms)
qed

lemma saveResult_networked:
  assumes "\<not> isMobile s" "map_of (server_db s) ''results'' = Some t" "is_results (tbl_def t)"
    and "td_constraints (tbl_def t) = [] \<or> test_exists (server_db s) tid"
    and "json_clean an" "json_clean al"
  shows "saveResult s now tid an sc fb al =
    (Inr (JObj [(''id'', JNum (next_rowid t))]),
     s\<lparr>server_db := append_row ''results'' t
       (result_row (next_rowid t) tid (SText (render (js_tokens an))) sc fb
          (SText (render (js_tokens al))) now) (server_db s)\<rparr>)"
proof -
  have "json_clean (JObj [(''id'', JNum (next_rowid t))])" by simp
  then show ?thesis
    unfolding saveResult_networked_unfold[OF assms(1,5,6)]
      api_results_eq[OF assms(2-4) clean_defined[OF assms(5)] clean_defined[OF assms(6)]]
    by (simp only: prod.case res_json_parse)
qed

lemma saveResult_dangling:
  assumes "\<not> isMobile s" "map_of (server_db s) ''results'' = Some t" "tbl_def t = server_results"
    and "\<not> test_exists (server_db s) tid" and "json_clean an" "json_clean al"
  shows "saveResult s now tid an sc fb al =
    (Inr (JObj [(''error'', JStr ''Failed to save results'')]), s)"
  unfolding saveResult_networked_unfold[OF assms(1,5,6)]
    api_results_dangling[OF assms(2-4) clean_defined[OF assms(5)] clean_defined[OF assms(6)]]
  by (simp add: res_error_parse)

lemma saveResult_embedded:
  assumes "isMobile s" "this_db s = Some cn" "conn_open cn"
    and "map_of (conn_db cn) ''results'' = Some t" "tbl_def t = embedded_results"
    and "an \<noteq> JUndefined"
  shows "saveResult s now tid an sc fb al =
    (Inr (JObj [(''id'', changes_lastId (run_result (conn_reporting cn) (next_rowid t)))]),
     s\<lparr>this_db := Some (cn\<lparr>conn_db := append_row ''results'' t
       (result_row (next_rowid t) tid (SText (render (js_tokens an))) sc fb
          (bind_value (js_of_text (JSON_stringify al))) now) (conn_db cn)\<rparr>)\<rparr>)"
proof -
  have k: "is_results (tbl_def t)" "td_constraints (tbl_def t) = [] \<or> test_exists (conn_db cn) tid"
    using assms(5) by (simp_all add: is_results_def embedded_results_def)
  show ?thesis
    using assms(1-3)
    by (simp add: saveResult_def conn_run_def stringify_defined[OF assms(6)] js_of_text_def
          insert_result[OF assms(4) k])
qed

lemma unreported_id:
  "rep \<noteq> ReportsLastId \<Longrightarrow> changes_lastId (run_result rep rid) = JUndefined"
  by (cases rep) (simp_all add: changes_lastId_def run_result_def)


section \<open>Results and the tests they belong to\<close>

lemma sql_insert_cases:
  assumes "sql_insert name assigns now db = Inr (rid, db')"
  shows "\<exists>t r. map_of db name = Some t \<and> db' = append_row name t r db \<and>
           \<not> violates_not_null (tbl_def t) r \<and>
           \<not> list_ex (violates db (tbl_rows t) r) (td_constraints (tbl_def t))"
  using assms
  by (auto simp: sql_insert_def Let_def append_row_def split: option.splits if_splits)

lemma server_results_not_null:
  "\<not> violates_not_null server_results r \<Longrightarrow> col r ''test_id'' \<noteq> SNull"
  by (simp add: violates_not_null_def server_results_def column_def id_column_def
        timestamp_column_def)

lemma sql_insert_inv:
  assumes "server_inv db" "sql_insert name assigns now db = Inr (rid, db')"
  shows "server_inv db'"
proof -
  obtain t r where t: "map_of db name = Some t" "db' = append_row name t r db"
      "\<not> violates_not_null (tbl_def t) r"
      "\<not> list_ex (violates db (tbl_rows t) r) (td_constraints (tbl_def t))"
    using sql_insert_cases[OF assms(2)] by blast
  from assms(1) have p: "provisioned server_schema db" and i: "results_reference_tests db"
    by (simp_all add: server_inv_def)
  have p': "provisioned server_schema db'"
    unfolding t(2) using p t(1) by (rule provisioned_append_row)
  obtain tr where tr: "map_of db ''results'' = Some tr" "tbl_def tr = server_results"
    using provisioned_server[OF p] by blast
  note rows = table_rows_append_row[OF t(1), of r]
  have "results_reference_tests db'"
  proof (cases "name = ''results''")
    case True
    with t(1) tr have d: "tbl_def t = server_results" by simp
    then have nn: "col r ''test_id'' \<noteq> SNull" using t(3) by (simp add: server_results_not_null)
    have "\<not> violates db (tbl_rows t) r (ForeignKey ''test_id'' ''tests'' ''id'')"
      using t(4) d by (simp add: server_results_def)
    with nn have "list_ex (\<lambda>old. sql_eq (col old ''id'') (col r ''test_id'')) (table_rows db ''tests'')"
      by (auto simp: table_rows_def split: option.splits)
    with i True show ?thesis
      unfolding t(2) results_reference_tests_def rows by simp
  next
    case False
    show ?thesis
    proof (cases "name = ''tests''")
      case True
      with i show ?thesis
        unfolding t(2) results_reference_tests_def rows
        by (auto simp: list_all_iff list_ex_iff)
    next
      case nt: False
      with False i show ?thesis
        unfolding t(2) results_reference_tests_def rows by simp
    qed
  qed
  with p' show ?thesis by (simp add: server_inv_def)
qed

lemma api_login_inv: "server_inv db \<Longrightarrow> api_login body now db = (res, db') \<Longrightarrow> server_inv db'"
  unfolding api_login_def Let_def
  by (auto split: sum.splits list.splits dest: sql_insert_inv)

lemma api_tests_inv: "server_inv db \<Longrightarrow> api_tests body now db = (res, db') \<Longrightarrow> server_inv db'"
  unfolding api_tests_def
  by (auto split: sum.splits dest: sql_insert_inv)

lemma api_results_inv: "server_inv db \<Longrightarrow> api_results body now db = (res, db') \<Longrightarrow> server_inv db'"
  unfolding api_results_def
  by (auto split: sum.splits dest: sql_insert_inv)

lemma fetch_post_inv:
  assumes "\<And>body res d. handler body now (server_db s) = (res, d) \<Longrightarrow> server_inv d"
    and "server_inv (server_db s)"
  shows "server_inv (server_db (snd (fetch_post handler payload now s)))"
    and "isMobile (snd (fetch_post handler payload now s)) = isMobile s"
  using assms
  by (auto simp: fetch_post_def split: sum.splits prod.splits)

lemma perform_inv: "networked_inv s \<Longrightarrow> networked_inv (perform s c)"
proof (cases c)
  case (Login now n a cl)
  assume i: "networked_inv s"
  then have "perform s c = snd (fetch_post api_login
      [(''name'', JStr n), (''age'', JNum a), (''className'', JStr cl)] now s)"
    using Login by (simp add: login_def networked_inv_def)
  then show ?thesis
    using i fetch_post_inv[of api_login now s] api_login_inv
    by (simp add: networked_inv_def)
next
  case (SaveTest now sid tp cx cs q)
  assume i: "networked_inv s"
  then have "perform s c = snd (fetch_post api_tests
         [(''studentId'', JNum sid), (''topic'', JStr tp),
          (''complexity'', JStr cx), (''concepts'', JStr cs),
          (''questions'', q)] now s)"
    using SaveTest by (simp add: saveTest_def networked_inv_def)
  then show ?thesis
    using i fetch_post_inv[of api_tests now s] api_tests_inv
    by (simp add: networked_inv_def)
next
  case (SaveResult now tid an sc fb al)
  assume i: "networked_inv s"
  then have "perform s c = snd (fetch_post api_results
         [(''testId'', JNum tid), (''answers'', an), (''score'', JNum sc),
          (''feedback'', JStr fb), (''analysis'', al)] now s)"
    using SaveResult by (simp add: saveResult_def networked_inv_def)
  then show ?thesis
    using i fetch_post_inv[of api_results now s] api_results_inv
    by (simp add: networked_inv_def)
qed

lemma foldl_perform_inv: "networked_inv s \<Longrightarrow> networked_inv (foldl perform s calls)"
  by (induction calls arbitrary: s) (simp_all add: perform_inv)

lemma web0_inv: "networked_inv web0"
  by (simp add: networked_inv_def server_inv_def web0_def fresh_server_def provisioned_def
        server_schema_def results_reference_tests_def table_rows_def)

section \<open>The states that the operations reach\<close>

text \<open>
  The theorems about the operations assume a provisioned backend: the three tables exist
  with the definitions of the schema script, every row has the columns of its table, and
  (where the history is read) the stored questions and analyses are JSON texts. Every
  operation keeps the first two, whatever it is called with, and all three when the nested
  data it is given is JSON data; so they hold in every state that login, saveTest and
  saveResult reach from a store that provisioning has just created.
\<close>

lemma new_row_keys: "map fst (new_row d rid assigns now) = column_names d"
  by (simp add: new_row_def column_names_def comp_def)

lemma sql_insert_shape:
  assumes "sql_insert name assigns now db = Inr (rid, db')"
  shows "\<exists>t. map_of db name = Some t \<and>
           db' = append_row name t (new_row (tbl_def t) (next_rowid t) assigns now) db"
  using assms
  by (auto simp: sql_insert_def Let_def append_row_def split: option.splits if_splits)

lemma sql_insert_tables_ok:
  assumes "tables_ok script db" "sql_insert name assigns now db = Inr (rid, db')"
  shows "tables_ok script db'"
proof -
  obtain t where t: "map_of db name = Some t"
      "db' = append_row name t (new_row (tbl_def t) (next_rowid t) assigns now) db"
    using sql_insert_shape[OF assms(2)] by blast
  show ?thesis unfolding t(2) using assms(1) t(1) new_row_keys by (rule tables_ok_append_row)
qed

lemma api_login_tables_ok:
  "tables_ok script db \<Longrightarrow> api_login body now db = (res, db') \<Longrightarrow> tables_ok script db'"
  unfolding api_login_def Let_def
  by (auto split: sum.splits list.splits dest: sql_insert_tables_ok)

lemma api_tests_tables_ok:
  "tables_ok script db \<Longrightarrow> api_tests body now db = (res, db') \<Longrightarrow> tables_ok script db'"
  unfolding api_tests_def
  by (auto split: sum.splits dest: sql_insert_tables_ok)

lemma api_results_tables_ok:
  "tables_ok script db \<Longrightarrow> api_results body now db = (res, db') \<Longrightarrow> tables_ok script db'"
  unfolding api_results_def
  by (auto split: sum.splits dest: sql_insert_tables_ok)

lemma fetch_post_tables_ok:
  assumes "\<And>body res d. handler body now (server_db s) = (res, d) \<Longrightarrow> tables_ok script d"
    and "tables_ok script (server_db s)"
  shows "tables_ok script (server_db (snd (fetch_post handler payload now s)))"
    and "isMobile (snd (fetch_post handler payload now s)) = isMobile s"
  using assms
  by (auto simp: fetch_post_def split: sum.splits prod.splits)

lemma conn_run_tables_ok:
  assumes "conn_open c" "tables_ok script (conn_db c)"
    and "conn_run name cols vals now c = Inr (ch, c')"
  shows "conn_open c' \<and> tables_ok script (conn_db c')"
  using assms
  by (auto simp: conn_run_def split: if_splits sum.splits dest: sql_insert_tables_ok)

lemma perform_provisioned:
  assumes "backend_provisioned s"
  shows "backend_provisioned (perform s c)"
proof (cases "isMobile s")
  case False
  with assms have ok: "tables_ok server_schema (server_db s)"
    by (simp add: backend_provisioned_def)
  show ?thesis
  proof (cases c)
    case (Login now n a cl)
    then have "perform s c = snd (fetch_post api_login
        [(''name'', JStr n), (''age'', JNum a), (''className'', JStr cl)] now s)"
      using False by (simp add: login_def)
    then show ?thesis
      using False ok fetch_post_tables_ok[of api_login now s server_schema] api_login_tables_ok
      by (simp add: backend_provisioned_def)
  next
    case (SaveTest now sid tp cx cs q)
    then have "perform s c = snd (fetch_post api_tests
           [(''studentId'', JNum sid), (''topic'', JStr tp),
            (''complexity'', JStr cx), (''concepts'', JStr cs),
            (''questions'', q)] now s)"
      using False by (simp add: saveTest_def)
    then show ?thesis
      using False ok fetch_post_tables_ok[of api_tests now s server_schema] api_tests_tables_ok
      by (simp add: backend_provisioned_def)
  next
    case (SaveResult now tid an sc fb al)
    then have "perform s c = snd (fetch_post api_results
           [(''testId'', JNum tid), (''answers'', an), (''score'', JNum sc),
            (''feedback'', JStr fb), (''analysis'', al)] now s)"
      using False by (simp add: saveResult_def)
    then show ?thesis
      using False ok fetch_post_tables_ok[of api_results now s server_schema] api_results_tables_ok
      by (simp add: backend_provisioned_def)
  qed
next
  case True
  with assms obtain cn where cn: "this_db s = Some cn" "conn_open cn"
      "tables_ok embedded_schema (conn_db cn)"
    by (auto simp: backend_provisioned_def split: option.splits)
  note run = conn_run_tables_ok[OF cn(2,3)]
  show ?thesis
  proof (cases c)
    case (Login now n a cl)
    show ?thesis
      using True cn assms run unfolding Login
      by (auto simp: login_def backend_provisioned_def split: sum.splits list.splits)
  next
    case (SaveTest now sid tp cx cs q)
    show ?thesis
      using True cn assms run unfolding SaveTest
      by (auto simp: saveTest_def backend_provisioned_def split: sum.splits)
  next
    case (SaveResult now tid an sc fb al)
    show ?thesis
      using True cn assms run unfolding SaveResult
      by (auto simp: saveResult_def backend_provisioned_def split: sum.splits)
  qed
qed

lemma reachable_provisioned:
  "backend_provisioned s \<Longrightarrow> backend_provisioned (foldl perform s calls)"
  by (induction calls arbitrary: s) (simp_all add: perform_provisioned)

lemma insert_test_dangling:
  assumes "map_of db ''tests'' = Some t" "tbl_def t = server_tests"
    and "\<not> student_exists db sid" and "q \<noteq> SNull"
  shows "sql_insert ''tests''
           [(''student_id'', SInt sid), (''topic'', SText tp), (''complexity'', SText cx),
            (''concepts'', SText cs), (''questions'', q)] now db
     = Inl (SqliteError ''constraint failed'')"
proof -
  let ?r = "test_row (next_rowid t) sid tp cx cs q now"
  have k: "is_tests (tbl_def t)" using assms(2) by (simp add: is_tests_def)
  have nr: "new_row (tbl_def t) (next_rowid t)
      [(''student_id'', SInt sid), (''topic'', SText tp), (''complexity'', SText cx),
       (''concepts'', SText cs), (''questions'', q)] now = ?r"
    using k by (simp add: new_row_tests test_row_def)
  have nn: "\<not> violates_not_null (tbl_def t) ?r"
    using k assms(4) by (simp add: test_row_def not_null_tests)
  have c: "td_constraints (tbl_def t) = [ForeignKey ''student_id'' ''students'' ''id'']"
    using assms(2) by (simp add: server_tests_def)
  have "list_ex (violates db (tbl_rows t) ?r) (td_constraints (tbl_def t))"
    unfolding c using assms(3)
    by (auto simp: student_exists_def table_rows_def split: option.splits)
  then show ?thesis
    using assms(1) nn by (simp add: sql_insert_def nr Let_def)
qed

lemma api_tests_dangling:
  assumes "map_of db ''tests'' = Some t" "tbl_def t = server_tests"
    and "\<not> student_exists db sid" and "q \<noteq> JUndefined"
  shows "api_tests (JObj [(''studentId'', JNum sid), (''topic'', JStr tp), (''complexity'', JStr cx),
                          (''concepts'', JStr cs), (''questions'', q)]) now db =
    (res_error ''Failed to save test'', db)"
  unfolding api_tests_def
  by (simp add: stringify_defined[OF assms(4)] js_of_text_def insert_test_dangling[OF assms(1-3)])

lemma saveTest_dangling:
  assumes "\<not> isMobile s" "map_of (server_db s) ''tests'' = Some t" "tbl_def t = server_tests"
    and "\<not> student_exists (server_db s) sid" and "json_clean q"
  shows "saveTest s now sid tp cx cs q = (Inr (JObj [(''error'', JStr ''Failed to save test'')]), s)"
proof -
  have pc: "json_clean (JObj [(''studentId'', JNum sid), (''topic'', JStr tp), (''complexity'', JStr cx),
                          (''concepts'', JStr cs), (''questions'', q)])"
    using assms(5) by simp
  have l: "saveTest s now sid tp cx cs q =
     (case api_tests (JObj [(''studentId'', JNum sid), (''topic'', JStr tp), (''complexity'', JStr cx),
                          (''concepts'', JStr cs), (''questions'', q)]) now (server_db s) of
        (res, d) \<Rightarrow> (JSON_parse (snd res), s\<lparr>server_db := d\<rparr>))"
    by (simp only: saveTest_def fetch_post_clean[OF pc] assms(1) if_True if_False simp_thms)
  show ?thesis
    unfolding l api_tests_dangling[OF assms(2-4) clean_defined[OF assms(5)]]
    by (simp add: res_error_parse)
qed

lemma perform_ready:
  assumes "backend_ready s" "clean_call c"
  shows "backend_ready (perform s c)"
proof -
  let ?db = "backend_db s"
  note p = backend_ready_provisioned[OF assms(1)]
  note ok = backend_ready_store[OF assms(1)]
  note sc = backend_schema_cases[of s]
  obtain ts tt tr where t: "map_of ?db ''students'' = Some ts" "map_of ?db ''tests'' = Some tt"
      "map_of ?db ''results'' = Some tr" "is_students (tbl_def ts)" "is_tests (tbl_def tt)"
      "is_results (tbl_def tr)"
      "backend_schema s = server_schema \<longrightarrow> tbl_def tt = server_tests \<and> tbl_def tr = server_results"
      "backend_schema s = embedded_schema \<longrightarrow> tbl_def tr = embedded_results"
    using store_ok_tables[OF ok sc] by blast
  have grow: "backend_ready (with_backend_db s (append_row name t r ?db))"
    if "map_of ?db name = Some t" "map fst r = column_names (tbl_def t)"
      "name = ''tests'' \<longrightarrow> parses_clean (col r ''questions'')"
      "name = ''results'' \<longrightarrow> \<not> truthy (col r ''analysis'') \<or> parses_clean (col r ''analysis'')"
    for name t r
    using assms(1) store_ok_append_row[OF ok sc that] by (rule backend_ready_with)
  show ?thesis
  proof (cases c)
    case (Login now n a cl)
    note l = login_ready[OF p t(1), of now n a cl]
    show ?thesis
    proof (cases "matching_students ?db n a cl")
      case Nil
      have "backend_ready (with_backend_db s
          (append_row ''students'' ts (student_row (next_rowid ts) n a cl) ?db))"
        using t(1) by (rule grow) (simp_all add: student_row_keys column_names_students[OF t(4)])
      with l Nil Login show ?thesis by simp
    next
      case (Cons r rs)
      with l Login assms(1) show ?thesis by simp
    qed
  next
    case (SaveTest now sid tp cx cs q)
    with assms(2) have qc: "json_clean q" by simp
    show ?thesis
    proof (cases "isMobile s \<or> student_exists ?db sid")
      case True
      have "backend_ready (with_backend_db s (append_row ''tests'' tt
          (test_row (next_rowid tt) sid tp cx cs (SText (render (js_tokens q))) now) ?db))"
        using t(2)
        by (rule grow)
           (simp_all add: test_row_keys_new column_names_tests[OF t(5)] tests_columns_def
              parses_clean_render[OF qc])
      with saveTest_ready[OF p True qc t(2), of now tp cx cs] SaveTest show ?thesis by simp
    next
      case False
      then have m: "\<not> isMobile s" and d: "backend_db s = server_db s"
        by (simp_all add: backend_db_def)
      then have "tbl_def tt = server_tests" using t(7) by (simp add: backend_schema_def)
      with saveTest_dangling[OF m _ _ _ qc, of tt sid now tp cx cs] t(2) False d
      have "saveTest s now sid tp cx cs q = (Inr (JObj [(''error'', JStr ''Failed to save test'')]), s)"
        by simp
      with SaveTest assms(1) show ?thesis by simp
    qed
  next
    case (SaveResult now tid an sc fb al)
    with assms(2) have c: "json_clean an" "json_clean al" by simp_all
    have al: "bind_value (js_of_text (JSON_stringify al)) = SText (render (js_tokens al))"
      using c(2) by (simp add: stringify_defined[OF clean_defined] js_of_text_def)
    have new: "backend_ready (with_backend_db s (append_row ''results'' tr
          (result_row (next_rowid tr) tid (SText (render (js_tokens an))) sc fb
             (SText (render (js_tokens al))) now) ?db))"
      using t(3)
      by (rule grow)
         (simp_all add: result_row_def column_names_results[OF t(6)] col_def
            parses_clean_render[OF c(2)])
    show ?thesis
    proof (cases "isMobile s")
      case True
      then obtain cn where cn: "this_db s = Some cn" "conn_open cn" "backend_db s = conn_db cn"
        using p by (auto simp: backend_provisioned_def backend_db_def split: option.splits)
      have e: "tbl_def tr = embedded_results" using t(8) True by (simp add: backend_schema_def)
      from saveResult_embedded[OF True cn(1,2) _ e clean_defined[OF c(1)], of now tid sc fb al]
        t(3) cn(3) al
      have "snd (saveResult s now tid an sc fb al) =
          with_backend_db s (append_row ''results'' tr
            (result_row (next_rowid tr) tid (SText (render (js_tokens an))) sc fb
               (SText (render (js_tokens al))) now) ?db)"
        using True cn(1) by (simp add: with_backend_db_def)
      with new SaveResult show ?thesis by simp
    next
      case False
      then have d: "backend_db s = server_db s" by (simp add: backend_db_def)
      have sr: "tbl_def tr = server_results" using t(7) False by (simp add: backend_schema_def)
      show ?thesis
      proof (cases "test_exists ?db tid")
        case True
        from saveResult_networked[OF False _ t(6) _ c, of tid now sc fb] t(3) True d
        have "snd (saveResult s now tid an sc fb al) =
          with_backend_db s (append_row ''results'' tr
            (result_row (next_rowid tr) tid (SText (render (js_tokens an))) sc fb
               (SText (render (js_tokens al))) now) ?db)"
          using False by (simp add: with_backend_db_def)
        with new SaveResult show ?thesis by simp
      next
        case nt: False
        from saveResult_dangling[OF False _ sr _ c, of tid now sc fb] t(3) nt d
        have "snd (saveResult s now tid an sc fb al) = s" by simp
        with SaveResult assms(1) show ?thesis by simp
      qed
    qed
  qed
qed

lemma reachable_ready:
  "backend_ready s \<Longrightarrow> list_all clean_call calls \<Longrightarrow> backend_ready (foldl perform s calls)"
  by (induction calls arbitrary: s) (simp_all add: perform_ready)


section \<open>The example states\<close>

lemma web0_ready: "backend_ready web0"
  by code_simp

lemma mob0_ready: "backend_ready mob0"
  by code_simp


lemma mob1_ready: "backend_ready mob1"
  by code_simp

lemma web_history_ready: "backend_ready web_history"
  by code_simp

lemma mobile_history_ready: "backend_ready mobile_history"
  by code_simp

lemma mob_silent_ready: "backend_ready mob_silent"
  by code_simp

lemma fresh_server_provisioned: "exec_script server_schema [] = Inr fresh_server"
  by (simp add: server_schema_def fresh_server_def)

lemma init_mob0: "init mobile_start working_device = (Inr (), mob0)"
  by code_simp

lemma web1_reached: "foldl perform web0 [Login ''2024-01-01 10:00:00'' ''Sam'' 9 ''4th''] = web1"
  by code_simp

lemma mob1_reached: "foldl perform mob0 [Login ''2024-01-01 10:00:00'' ''Sam'' 9 ''4th''] = mob1"
  by code_simp

lemma web_history_reached: "foldl perform web0 history_calls = web_history"
  by code_simp

lemma mobile_history_reached: "foldl perform mob0 history_calls = mobile_history"
  by code_simp

lemma reachable_from_fresh:
  "backend_provisioned (foldl perform web0 calls)"
  "backend_provisioned (foldl perform mob0 calls)"
  "list_all clean_call calls \<Longrightarrow> backend_ready (foldl perform web0 calls)"
  "list_all clean_call calls \<Longrightarrow> backend_ready (foldl perform mob0 calls)"
  using web0_ready mob0_ready
  by (simp_all add: reachable_provisioned reachable_ready backend_ready_provisioned)

section \<open>Responses of the question and evaluation service\<close>

lemma parse_empty_array: "JSON_parse ''[]'' = Inr (JArr [])"
  by code_simp

lemma parse_empty_object: "JSON_parse ''{}'' = Inr (JObj [])"
  by code_simp

lemma parse_oops: "JSON_parse ''oops'' = Inl SyntaxError"
  by code_simp

text \<open>
  C8, as the code has it. When the text of the response is missing or empty,
  \<open>generateQuestions\<close> returns the empty sequence and \<open>evaluateAnswers\<close> the empty
  object. Any other text is handed to \<open>JSON.parse\<close> and its outcome is the outcome of
  the call: a text that does not parse makes the call throw the parser's error.
\<close>

theorem service_response_handling:
  "(text = None \<or> text = Some [] \<longrightarrow>
      generateQuestions (Inr text) = Inr (JArr []) \<and> evaluateAnswers (Inr text) = Inr (JObj []))
   \<and> (\<forall>t. text = Some t \<and> t \<noteq> [] \<longrightarrow>
      generateQuestions (Inr text) = JSON_parse t \<and> evaluateAnswers (Inr text) = JSON_parse t)"
  by (auto simp: generateQuestions_def evaluateAnswers_def text_or_def
        parse_empty_array parse_empty_object)

theorem service_response_handling_witness:
  "generateQuestions (Inr (Some [])) = Inr (JArr []) \<and>
   evaluateAnswers (Inr None) = Inr (JObj []) \<and>
   generateQuestions (Inr (Some ''oops'')) = Inl SyntaxError \<and>
   evaluateAnswers (Inr (Some ''oops'')) = Inl SyntaxError"
  using service_response_handling [of "Some []"] service_response_handling [of None]
    service_response_handling [of "Some ''oops''"] parse_oops
  by simp

text \<open>
  C8 as stated fails: on the response text \<open>oops\<close>, which is not JSON, neither function
  returns its empty default.
\<close>

theorem unparseable_response_counterexample:
  "generateQuestions (Inr (Some ''oops'')) \<noteq> Inr (JArr []) \<and>
   evaluateAnswers (Inr (Some ''oops'')) \<noteq> Inr (JObj [])"
  by (simp add: generateQuestions_def evaluateAnswers_def text_or_def parse_oops)

section \<open>The schema on the two backends\<close>

lemma same_key_sym: "same_key cs a b = same_key cs b a"
  by (auto simp: same_key_def sql_eq_def list_all_iff)

lemma key_unique_append:
  "key_unique cs (rs @ [r]) = (key_unique cs rs \<and> \<not> list_ex (\<lambda>old. same_key cs old r) rs)"
  by (induction rs) (auto simp: list_ex_iff same_key_sym[of cs r])

lemma same_key_login:
  "same_key login_key old (student_row rid n a c) =
     (sql_eq (col old ''name'') (SText n) \<and> sql_eq (col old ''age'') (SInt a) \<and>
      sql_eq (col old ''class'') (SText c))"
  by (simp add: same_key_def login_key_def student_row_def col_def)

lemma same_key_matching:
  assumes "sql_eq (col x ''name'') (SText n) \<and> sql_eq (col x ''age'') (SInt a) \<and>
           sql_eq (col x ''class'') (SText c)"
    and "sql_eq (col y ''name'') (SText n) \<and> sql_eq (col y ''age'') (SInt a) \<and>
         sql_eq (col y ''class'') (SText c)"
  shows "same_key login_key x y"
  using assms by (simp add: same_key_def login_key_def sql_eq_def)

lemma key_unique_filter:
  assumes "key_unique cs rs" and "\<And>x y. P x \<Longrightarrow> P y \<Longrightarrow> same_key cs x y"
  shows "length (filter P rs) \<le> 1"
  using assms(1)
proof (induction rs)
  case Nil
  then show ?case by simp
next
  case (Cons r rs)
  then have ih: "length (filter P rs) \<le> 1" and new: "\<not> list_ex (same_key cs r) rs" by simp_all
  show ?case
  proof (cases "P r")
    case True
    have "\<not> P y" if "y \<in> set rs" for y
      using that new assms(2)[OF True, of y] by (auto simp: list_ex_iff)
    then have "filter P rs = []" by (simp add: filter_empty_conv)
    with True show ?thesis by simp
  next
    case False
    with ih show ?thesis by simp
  qed
qed

lemma key_unique_matching:
  assumes "key_unique login_key rs"
  shows "length (filter (\<lambda>r. sql_eq (col r ''name'') (SText n) \<and> sql_eq (col r ''age'') (SInt a) \<and>
                        sql_eq (col r ''class'') (SText c)) rs) \<le> 1"
  using assms by (rule key_unique_filter) (rule same_key_matching)

lemma login_keeps_key:
  assumes "backend_provisioned s"
    and "key_unique login_key (table_rows (backend_db s) ''students'')"
  shows "key_unique login_key (table_rows (backend_db (snd (login s now n a c))) ''students'')"
    and "length (matching_students (backend_db (snd (login s now n a c))) n a c) = 1"
proof -
  let ?db = "backend_db s"
  note ok = backend_provisioned_tables[OF assms(1)]
  obtain t where t: "map_of ?db ''students'' = Some t" "is_students (tbl_def t)"
    using tables_ok_tables[OF ok backend_schema_cases] by blast
  note l = login_ready[OF assms(1) t(1), of now n a c]
  have both: "key_unique login_key (table_rows (backend_db (snd (login s now n a c))) ''students'') \<and>
      length (matching_students (backend_db (snd (login s now n a c))) n a c) = 1"
  proof (cases "matching_students ?db n a c")
    case (Cons r rs)
    then have same: "snd (login s now n a c) = s" using l by simp
    have "length (matching_students ?db n a c) \<le> 1"
      unfolding matching_students_def using assms(2) by (rule key_unique_matching)
    with Cons have "length (matching_students ?db n a c) = 1" by simp
    with assms(2) same show ?thesis by simp
  next
    case Nil
    let ?row = "student_row (next_rowid t) n a c"
    let ?db1 = "append_row ''students'' t ?row ?db"
    have s1: "snd (login s now n a c) = with_backend_db s ?db1" using l Nil by simp
    have d1: "backend_db (with_backend_db s ?db1) = ?db1" using assms(1) by (rule backend_db_with)
    have rows1: "table_rows ?db1 ''students'' = table_rows ?db ''students'' @ [?row]"
      using t(1) by (simp add: table_rows_append_row)
    have none: "\<not> list_ex (\<lambda>old. same_key login_key old ?row) (table_rows ?db ''students'')"
      using Nil by (auto simp: matching_students_def same_key_login list_ex_iff filter_empty_conv)
    have m1: "matching_students ?db1 n a c = [?row]"
      using Nil unfolding matching_students_def rows1 filter_append
      by (simp only: matching_student_row append_Nil)
    show ?thesis
      unfolding s1 d1 using assms(2) none m1 by (simp add: rows1 key_unique_append)
  qed
  from both show "key_unique login_key (table_rows (backend_db (snd (login s now n a c))) ''students'')"
    by simp
  from both show "length (matching_students (backend_db (snd (login s now n a c))) n a c) = 1"
    by simp
qed

text \<open>
  C5 as stated fails: the uniqueness constraint on students and both foreign keys are
  declared by the server's schema and by none of the tables of the embedded schema.
\<close>

theorem schema_constraints_counterexample:
  "Unique [''name'', ''age'', ''class''] \<in> set (td_constraints server_students) \<and>
   Unique [''name'', ''age'', ''class''] \<notin> set (td_constraints embedded_students) \<and>
   ForeignKey ''student_id'' ''students'' ''id'' \<in> set (td_constraints server_tests) \<and>
   ForeignKey ''student_id'' ''students'' ''id'' \<notin> set (td_constraints embedded_tests) \<and>
   ForeignKey ''test_id'' ''tests'' ''id'' \<in> set (td_constraints server_results) \<and>
   ForeignKey ''test_id'' ''tests'' ''id'' \<notin> set (td_constraints embedded_results)"
  by (simp add: server_students_def server_tests_def server_results_def
        embedded_students_def embedded_tests_def embedded_results_def)

text \<open>
  C5, as the code has it by design. Both backends declare the same three tables, every one
  with IF NOT EXISTS, with the same columns in the same order and the same NOT NULL,
  AUTOINCREMENT and DEFAULT CURRENT_TIMESTAMP marks; the declared column types agree
  once the server's JSON is read as the embedded TEXT. The server's schema declares
  UNIQUE(name, age, class) on students and the two foreign keys. The embedded students
  table declares no constraint; there the key is kept by login, which looks the triple up
  before it inserts: on a provisioned embedded store whose students differ pairwise in
  (name, age, class), login leaves such a store, and in it exactly one student has the
  triple of the call.
\<close>

theorem schema_parity:
  "map (td_name \<circ> stmt_table) embedded_schema = [''students'', ''tests'', ''results''] \<and>
   map (td_name \<circ> stmt_table) server_schema = [''students'', ''tests'', ''results''] \<and>
   list_all stmt_if_not_exists embedded_schema \<and> list_all stmt_if_not_exists server_schema \<and>
   map (column_flags \<circ> stmt_table) embedded_schema = map (column_flags \<circ> stmt_table) server_schema \<and>
   map (map col_type \<circ> td_columns \<circ> stmt_table) embedded_schema
     = map (map (embedded_dialect \<circ> col_type) \<circ> td_columns \<circ> stmt_table) server_schema \<and>
   map (td_constraints \<circ> stmt_table) server_schema =
     [[Unique [''name'', ''age'', ''class'']],
      [ForeignKey ''student_id'' ''students'' ''id''],
      [ForeignKey ''test_id'' ''tests'' ''id'']] \<and>
   td_constraints embedded_students = [] \<and>
   (isMobile s \<and> backend_provisioned s \<and>
    key_unique [''name'', ''age'', ''class''] (table_rows (backend_db s) ''students'') \<longrightarrow>
      key_unique [''name'', ''age'', ''class'']
        (table_rows (backend_db (snd (login s now n a c))) ''students'') \<and>
      length (matching_students (backend_db (snd (login s now n a c))) n a c) = 1)"
proof -
  have decl:
    "map (td_name \<circ> stmt_table) embedded_schema = [''students'', ''tests'', ''results'']"
    "map (td_name \<circ> stmt_table) server_schema = [''students'', ''tests'', ''results'']"
    "list_all stmt_if_not_exists embedded_schema" "list_all stmt_if_not_exists server_schema"
    "map (column_flags \<circ> stmt_table) embedded_schema = map (column_flags \<circ> stmt_table) server_schema"
    "map (map col_type \<circ> td_columns \<circ> stmt_table) embedded_schema
       = map (map (embedded_dialect \<circ> col_type) \<circ> td_columns \<circ> stmt_table) server_schema"
    "map (td_constraints \<circ> stmt_table) server_schema =
       [[Unique [''name'', ''age'', ''class'']],
        [ForeignKey ''student_id'' ''students'' ''id''],
        [ForeignKey ''test_id'' ''tests'' ''id'']]"
    "td_constraints embedded_students = []"
    by (simp_all add: server_schema_def embedded_schema_def
          server_students_def server_tests_def server_results_def
          embedded_students_def embedded_tests_def embedded_results_def
          column_flags_def column_def id_column_def timestamp_column_def embedded_dialect_def)
  have "key_unique [''name'', ''age'', ''class'']
          (table_rows (backend_db (snd (login s now n a c))) ''students'') \<and>
        length (matching_students (backend_db (snd (login s now n a c))) n a c) = 1"
    if "backend_provisioned s"
      "key_unique [''name'', ''age'', ''class''] (table_rows (backend_db s) ''students'')"
    using login_keeps_key[of s now n a c] that by (simp add: login_key_def)
  with decl show ?thesis by (intro conjI impI) simp_all
qed

theorem schema_parity_witness:
  "isMobile mob1 \<and> backend_provisioned mob1 \<and>
   key_unique [''name'', ''age'', ''class''] (table_rows (backend_db mob1) ''students'') \<and>
   key_unique [''name'', ''age'', ''class'']
     (table_rows (backend_db (snd (login mob1 ''2024-01-01 10:00:09'' ''Ann'' 10 ''5th''))) ''students'') \<and>
   length (matching_students
     (backend_db (snd (login mob1 ''2024-01-01 10:00:09'' ''Ann'' 10 ''5th''))) ''Ann'' 10 ''5th'') = 1 \<and>
   length (matching_students
     (backend_db (snd (login mob1 ''2024-01-01 10:00:09'' ''Sam'' 9 ''4th''))) ''Sam'' 9 ''4th'') = 1 \<and>
   length (table_rows (backend_db (snd (login mob1 ''2024-01-01 10:00:09'' ''Sam'' 9 ''4th'')))
     ''students'') = 1"
proof -
  have m: "isMobile mob1" by (simp add: mob1_def)
  note p = backend_ready_provisioned[OF mob1_ready]
  have k: "key_unique [''name'', ''age'', ''class''] (table_rows (backend_db mob1) ''students'')"
    by code_simp
  have one: "length (table_rows (backend_db (snd (login mob1 ''2024-01-01 10:00:09'' ''Sam'' 9 ''4th'')))
     ''students'') = 1"
    by code_simp
  from schema_parity[of mob1 "''2024-01-01 10:00:09''" "''Ann''" 10 "''5th''"]
    schema_parity[of mob1 "''2024-01-01 10:00:09''" "''Sam''" 9 "''4th''"] m p k one
  show ?thesis by simp
qed


section \<open>Running the schema script again\<close>

lemma exec_stmt_if_not_exists:
  "stmt_if_not_exists s \<Longrightarrow> \<exists>ext. exec_stmt s db = Inr (db @ ext)"
  by (cases s) (auto split: option.splits)

lemma exec_script_extends:
  "\<forall>s \<in> set script. stmt_if_not_exists s \<Longrightarrow> \<exists>ext. exec_script script db = Inr (db @ ext)"
proof (induction script arbitrary: db)
  case Nil
  then show ?case by simp
next
  case (Cons s script)
  then obtain e1 where e1: "exec_stmt s db = Inr (db @ e1)"
    using exec_stmt_if_not_exists[of s db] by auto
  from Cons obtain e2 where "exec_script script (db @ e1) = Inr ((db @ e1) @ e2)"
    by fastforce
  with e1 show ?case by simp
qed

lemma map_of_extends: "map_of db name = Some t \<Longrightarrow> map_of (db @ ext) name = Some t"
  by (simp add: map_add_Some_iff)

lemma exec_script_keeps:
  assumes "\<forall>s \<in> set script. stmt_if_not_exists s" "exec_script script db = Inr db'"
    and "map_of db name = Some t"
  shows "map_of db' name = Some t"
  using exec_script_extends[OF assms(1), of db] assms(2,3) by (auto simp: map_of_extends)

lemma exec_stmt_map:
  assumes "exec_stmt s db = Inr db'"
  shows "map_of db' name =
    (if map_of db name = None \<and> name = td_name (stmt_table s)
     then Some (empty_table (stmt_table s)) else map_of db name)"
  using assms
  by (cases s) (auto simp: empty_table_def map_add_def split: option.splits if_splits)

lemma exec_script_creates:
  assumes "\<forall>s \<in> set script. stmt_if_not_exists s"
    and "distinct (map (td_name \<circ> stmt_table) script)"
    and "exec_script script db = Inr db'" and "d \<in> set (map stmt_table script)"
  shows "map_of db' (td_name d) =
    Some (case map_of db (td_name d) of Some t \<Rightarrow> t | None \<Rightarrow> empty_table d)"
  using assms
proof (induction script arbitrary: db)
  case Nil
  then show ?case by simp
next
  case (Cons s script)
  from Cons.prems(3) obtain d1 where d1: "exec_stmt s db = Inr d1" "exec_script script d1 = Inr db'"
    by (auto split: sum.splits)
  have ine: "\<forall>s \<in> set script. stmt_if_not_exists s" using Cons.prems(1) by simp
  note m = exec_stmt_map[OF d1(1)]
  show ?case
  proof (cases "d = stmt_table s")
    case True
    have "map_of d1 (td_name d) =
        Some (case map_of db (td_name d) of Some t \<Rightarrow> t | None \<Rightarrow> empty_table d)"
      using m[of "td_name d"] True by (auto split: option.splits)
    then show ?thesis using ine d1(2) by (rule exec_script_keeps[rotated 2])
  next
    case False
    with Cons.prems(4) have in_rest: "d \<in> set (map stmt_table script)" by auto
    then have "td_name d \<in> set (map (td_name \<circ> stmt_table) script)" by auto
    with Cons.prems(2) have "td_name d \<noteq> td_name (stmt_table s)" by auto
    then have same: "map_of d1 (td_name d) = map_of db (td_name d)" using m[of "td_name d"] by simp
    have "distinct (map (td_name \<circ> stmt_table) script)"
      using Cons.prems(2) by (simp add: comp_def)
    from Cons.IH[OF ine this d1(2) in_rest] same show ?thesis by simp
  qed
qed

lemma exec_script_no_other:
  assumes "exec_script script db = Inr db'" "map_of db name = None"
    and "name \<notin> set (map (td_name \<circ> stmt_table) script)"
  shows "map_of db' name = None"
  using assms
proof (induction script arbitrary: db)
  case Nil
  then show ?case by simp
next
  case (Cons s script)
  from Cons.prems(1) obtain d1 where d1: "exec_stmt s db = Inr d1" "exec_script script d1 = Inr db'"
    by (auto split: sum.splits)
  have "map_of d1 name = None" using exec_stmt_map[OF d1(1), of name] Cons.prems(2,3) by simp
  with Cons.IH[OF d1(2)] Cons.prems(3) show ?case by simp
qed

lemma exec_script_again:
  "\<forall>s \<in> set script. stmt_if_not_exists s \<and> map_of db (td_name (stmt_table s)) \<noteq> None \<Longrightarrow>
   exec_script script db = Inr db"
proof (induction script)
  case Nil
  then show ?case by simp
next
  case (Cons s script)
  then have "exec_stmt s db = Inr db" by (cases s) auto
  with Cons show ?case by simp
qed

lemma provision_times_fixed:
  "exec_script script db = Inr db \<Longrightarrow> provision_times n script db = Inr db"
  by (induction n) simp_all

lemma schema_if_not_exists:
  "script = server_schema \<or> script = embedded_schema \<Longrightarrow> \<forall>s \<in> set script. stmt_if_not_exists s"
  by (auto simp: server_schema_def embedded_schema_def)

lemma schema_names:
  "script = server_schema \<or> script = embedded_schema \<Longrightarrow>
   map (td_name \<circ> stmt_table) script = [''students'', ''tests'', ''results'']"
  by (auto simp: server_schema_def embedded_schema_def server_students_def server_tests_def
        server_results_def embedded_students_def embedded_tests_def embedded_results_def)

text \<open>
  C6. On either backend, running the schema script any number \<open>n \<ge> 1\<close> of times
  never fails and leaves the store that one run leaves. In that store every table of the
  script exists: a table that existed before is as it was (its definition, its rows and
  its row counter), and a table that did not exist has the columns and constraints of the
  script and no row. Every other table of the store is as it was, and no other table
  appears.
\<close>

theorem provisioning_idempotent:
  assumes "script = server_schema \<or> script = embedded_schema" and "1 \<le> n"
  shows "\<exists>db1. exec_script script db = Inr db1 \<and> provision_times n script db = Inr db1 \<and>
           (\<forall>d \<in> set (map stmt_table script).
              map_of db1 (td_name d) =
                Some (case map_of db (td_name d) of
                        Some t \<Rightarrow> t
                      | None \<Rightarrow> \<lparr>tbl_def = d, tbl_rows = [], tbl_seq = 0\<rparr>)) \<and>
           (\<forall>name t. map_of db name = Some t \<longrightarrow> map_of db1 name = Some t) \<and>
           (\<forall>name. map_of db name = None \<and> name \<notin> {''students'', ''tests'', ''results''} \<longrightarrow>
              map_of db1 name = None)"
proof -
  have ine: "\<forall>s \<in> set script. stmt_if_not_exists s"
    using assms(1) by (rule schema_if_not_exists)
  note names = schema_names[OF assms(1)]
  then have dist: "distinct (map (td_name \<circ> stmt_table) script)" by simp
  obtain db1 where once: "exec_script script db = Inr db1"
    using exec_script_extends[OF ine] by blast
  have created: "\<forall>d \<in> set (map stmt_table script).
      map_of db1 (td_name d) =
        Some (case map_of db (td_name d) of
                Some t \<Rightarrow> t
              | None \<Rightarrow> \<lparr>tbl_def = d, tbl_rows = [], tbl_seq = 0\<rparr>)"
    using exec_script_creates[OF ine dist once]
    by (auto simp: empty_table_def split: option.splits)
  then have "\<forall>s \<in> set script. map_of db1 (td_name (stmt_table s)) \<noteq> None" by simp
  with ine have "exec_script script db1 = Inr db1" by (intro exec_script_again) simp
  then have "provision_times (n - 1) script db1 = Inr db1"
    by (rule provision_times_fixed)
  moreover obtain m where "n = Suc m" using assms(2) by (cases n) auto
  ultimately have many: "provision_times n script db = Inr db1"
    using once by simp
  have kept: "\<forall>name t. map_of db name = Some t \<longrightarrow> map_of db1 name = Some t"
    using exec_script_keeps[OF ine once] by blast
  have others: "\<forall>name. map_of db name = None \<and> name \<notin> {''students'', ''tests'', ''results''} \<longrightarrow>
      map_of db1 name = None"
    using exec_script_no_other[OF once] names by simp
  from once many created kept others show ?thesis by blast
qed

theorem provisioning_idempotent_witness:
  "(\<exists>db1. exec_script embedded_schema [] = Inr db1 \<and>
      provision_times 3 embedded_schema [] = Inr db1 \<and>
      map_of db1 ''students'' = Some \<lparr>tbl_def = embedded_students, tbl_rows = [], tbl_seq = 0\<rparr> \<and>
      map_of db1 ''tests'' = Some \<lparr>tbl_def = embedded_tests, tbl_rows = [], tbl_seq = 0\<rparr> \<and>
      map_of db1 ''results'' = Some \<lparr>tbl_def = embedded_results, tbl_rows = [], tbl_seq = 0\<rparr>) \<and>
   (\<exists>db1. exec_script server_schema populated = Inr db1 \<and>
      provision_times 2 server_schema populated = Inr db1 \<and>
      map_of db1 ''students'' = map_of populated ''students'' \<and>
      map_of db1 ''tests'' = Some \<lparr>tbl_def = server_tests, tbl_rows = [], tbl_seq = 0\<rparr>)"
proof -
  have n: "td_name embedded_students = ''students''" "td_name embedded_tests = ''tests''"
      "td_name embedded_results = ''results''" "td_name server_tests = ''tests''"
      "td_name server_students = ''students''"
    by (simp_all add: server_students_def server_tests_def embedded_results_def embedded_tests_def
          embedded_students_def)
  have s: "set (map stmt_table server_schema) = {server_students, server_tests, server_results}"
    "set (map stmt_table embedded_schema) = {embedded_students, embedded_tests, embedded_results}"
    by (auto simp: server_schema_def embedded_schema_def)
  have p: "map_of populated ''students'' \<noteq> None" "map_of populated ''tests'' = None"
    by (simp_all add: populated_def)
  then obtain t where t: "map_of populated ''students'' = Some t" by blast
  have a: "\<exists>db1. exec_script embedded_schema [] = Inr db1 \<and>
      provision_times 3 embedded_schema [] = Inr db1 \<and>
      map_of db1 ''students'' = Some \<lparr>tbl_def = embedded_students, tbl_rows = [], tbl_seq = 0\<rparr> \<and>
      map_of db1 ''tests'' = Some \<lparr>tbl_def = embedded_tests, tbl_rows = [], tbl_seq = 0\<rparr> \<and>
      map_of db1 ''results'' = Some \<lparr>tbl_def = embedded_results, tbl_rows = [], tbl_seq = 0\<rparr>"
    using provisioning_idempotent[of embedded_schema 3 "[]"] n unfolding s by fastforce
  have b: "\<exists>db1. exec_script server_schema populated = Inr db1 \<and>
      provision_times 2 server_schema populated = Inr db1 \<and>
      map_of db1 ''students'' = map_of populated ''students'' \<and>
      map_of db1 ''tests'' = Some \<lparr>tbl_def = server_tests, tbl_rows = [], tbl_seq = 0\<rparr>"
    using provisioning_idempotent[of server_schema 2 populated] n p(2) t unfolding s
    by fastforce
  from a b show ?thesis by (rule conjI)
qed


section \<open>Login\<close>

text \<open>
  C2. On a provisioned backend whose driver reports the identifier of an inserted row, login
  returns a student and leaves a store on which a second login with the same name, age and
  class returns the same student, identifier included, and changes nothing. When a row of
  students matches the triple, the student returned is that row, unchanged, and the store
  is unchanged; when none matches, one row is appended, the student carries its
  identifier, and no earlier student has that identifier. No branch is an error.
\<close>

theorem login_idempotent:
  assumes "backend_provisioned s" "reports_lastId s"
  shows "\<exists>student s1. login s now n a c = (Inr student, s1) \<and>
           login s1 now' n a c = (Inr student, s1) \<and>
           (case matching_students (backend_db s) n a c of
              r # rs \<Rightarrow> student = row_to_js r \<and> s1 = s
            | [] \<Rightarrow>
               (\<exists>rid. student = JObj [(''id'', JNum rid), (''name'', JStr n), (''age'', JNum a),
                                       (''class'', JStr c)] \<and>
                      \<not> student_exists (backend_db s) rid \<and>
                      table_rows (backend_db s1) ''students'' =
                        table_rows (backend_db s) ''students'' @ [student_row rid n a c]))"
proof -
  let ?db = "backend_db s"
  note ok = backend_provisioned_tables[OF assms(1)]
  note sc = backend_schema_cases[of s]
  obtain t where t: "map_of ?db ''students'' = Some t" "is_students (tbl_def t)"
    using tables_ok_tables[OF ok sc] by blast
  note l = login_ready[OF assms(1) t(1)]
  show ?thesis
  proof (cases "matching_students ?db n a c")
    case (Cons r rs)
    then have "login s now n a c = (Inr (row_to_js r), s)" "login s now' n a c = (Inr (row_to_js r), s)"
      using l by simp_all
    with Cons show ?thesis by simp
  next
    case Nil
    let ?rid = "next_rowid t"
    let ?row = "student_row ?rid n a c"
    let ?db1 = "append_row ''students'' t ?row ?db"
    let ?s1 = "with_backend_db s ?db1"
    let ?student = "JObj [(''id'', JNum ?rid), (''name'', JStr n), (''age'', JNum a), (''class'', JStr c)]"
    have first: "login s now n a c = (Inr ?student, ?s1)"
      using l[of now n a c] Nil reported_id_reports[OF assms(2,1)] by simp
    have ok1: "tables_ok (backend_schema s) ?db1"
      using ok t(1)
      by (rule tables_ok_append_row) (simp add: student_row_keys column_names_students[OF t(2)])
    have r1: "backend_provisioned ?s1" using assms(1) ok1 by (rule backend_provisioned_with)
    have d1: "backend_db ?s1 = ?db1" using assms(1) by (rule backend_db_with)
    have rows1: "table_rows ?db1 ''students'' = table_rows ?db ''students'' @ [?row]"
      using t(1) by (simp add: table_rows_append_row)
    have m1: "matching_students ?db1 n a c = [?row]"
      using Nil unfolding matching_students_def rows1 filter_append
      by (simp only: matching_student_row append_Nil)
    obtain t1 where t1: "map_of ?db1 ''students'' = Some t1"
      by (simp add: map_of_append_row)
    have second: "login ?s1 now' n a c = (Inr ?student, ?s1)"
      using login_ready[OF r1, of t1 now' n a c] t1 m1 by (simp add: d1 row_to_js_student_row)
    have fresh: "\<not> student_exists ?db ?rid"
    proof
      assume "student_exists ?db ?rid"
      then obtain r where r: "r \<in> set (tbl_rows t)" "col r ''id'' = SInt ?rid"
        using t(1) by (auto simp: student_exists_def list_ex_iff table_rows_def sql_eq_def)
      then have "rowid r = ?rid" by (simp add: rowid_def)
      with next_rowid_fresh[OF r(1)] show False by simp
    qed
    from first second fresh rows1 Nil show ?thesis by (simp add: d1)
  qed
qed

theorem login_idempotent_witness:
  "backend_provisioned web0 \<and> reports_lastId web0 \<and>
   backend_provisioned mob0 \<and> reports_lastId mob0 \<and>
   (\<exists>student s1. login web0 ''2024-01-01 10:00:00'' ''Ann'' 10 ''5th'' = (Inr student, s1) \<and>
        login s1 ''2024-01-01 10:00:09'' ''Ann'' 10 ''5th'' = (Inr student, s1) \<and>
        get_prop student ''id'' = JNum 1) \<and>
   (\<exists>student s1. login mob0 ''2024-01-01 10:00:00'' ''Ann'' 10 ''5th'' = (Inr student, s1) \<and>
        login s1 ''2024-01-01 10:00:09'' ''Ann'' 10 ''5th'' = (Inr student, s1) \<and>
        get_prop student ''id'' = JNum 1)"
proof -
  have rw: "reports_lastId web0" and rm: "reports_lastId mob0" by code_simp+
  note pw = backend_ready_provisioned[OF web0_ready]
  note pm = backend_ready_provisioned[OF mob0_ready]
  have ew: "get_prop (projr (fst (login web0 ''2024-01-01 10:00:00'' ''Ann'' 10 ''5th''))) ''id'' = JNum 1"
    by code_simp
  have em: "get_prop (projr (fst (login mob0 ''2024-01-01 10:00:00'' ''Ann'' 10 ''5th''))) ''id'' = JNum 1"
    by code_simp
  obtain sw s1w where w: "login web0 ''2024-01-01 10:00:00'' ''Ann'' 10 ''5th'' = (Inr sw, s1w)"
      "login s1w ''2024-01-01 10:00:09'' ''Ann'' 10 ''5th'' = (Inr sw, s1w)"
    using login_idempotent[OF pw rw] by blast
  obtain sm s1m where m: "login mob0 ''2024-01-01 10:00:00'' ''Ann'' 10 ''5th'' = (Inr sm, s1m)"
      "login s1m ''2024-01-01 10:00:09'' ''Ann'' 10 ''5th'' = (Inr sm, s1m)"
    using login_idempotent[OF pm rm] by blast
  from w ew have "get_prop sw ''id'' = JNum 1" by simp
  moreover from m em have "get_prop sm ''id'' = JNum 1" by simp
  ultimately show ?thesis using w m pw pm rw rm by blast
qed


section \<open>Saving a test and reading it back\<close>




section \<open>The history of a student\<close>

text \<open>
  C3. On a backend that is ready, getHistory returns records of the student only, each
  test of the student among them, in descending order of the creation time of the test
  (the order in which the storage engine compares the stored timestamps).
\<close>

theorem history_ordered:
  assumes "backend_ready s"
  shows "\<exists>hs. getHistory s sid = Inr (JArr hs) \<and>
     sorted_wrt (\<lambda>a b. time_le (get_prop b ''created_at'') (get_prop a ''created_at'')) hs \<and>
     (\<forall>h \<in> set hs. get_prop h ''student_id'' = JNum sid) \<and>
     (\<forall>t \<in> set (table_rows (backend_db s) ''tests''). col t ''student_id'' = SInt sid \<longrightarrow>
        (\<exists>h \<in> set hs. get_prop h ''id'' = sql_to_js (col t ''id'') \<and>
                       get_prop h ''created_at'' = sql_to_js (col t ''created_at'')))"
proof -
  let ?db = "backend_db s"
  let ?sel = "history_selection ?db sid"
  let ?hs = "map history_object ?sel"
  note ok = backend_ready_store[OF assms]
  note sc = backend_schema_cases[of s]
  have created: "\<exists>t. joins ?db t r j \<and> t \<in> set (table_rows ?db ''tests'') \<and>
        col j ''created_at'' = col t ''created_at'' \<and> col j ''student_id'' = col t ''student_id''"
    if "joins ?db t r j" for t r j
  proof -
    from that have t: "t \<in> set (table_rows ?db ''tests'')" and j: "j = t @ result_columns r"
      by (simp_all add: joins_def)
    have k: "map fst t = tests_columns" using ok sc t by (rule test_row_keys)
    show ?thesis using that t j joined_cols(2,5)[OF k] by auto
  qed
  have prop_created: "get_prop (history_object j) ''created_at'' = sql_to_js (col j ''created_at'')
      \<and> get_prop (history_object j) ''student_id'' = sql_to_js (col j ''student_id'')"
    if "j \<in> set ?sel" for j
  proof -
    from that obtain t r where jn: "joins ?db t r j"
      using selection_joined joined_rows_joins by blast
    from created[OF jn] have "col j ''created_at'' = col t ''created_at''"
        "col j ''student_id'' = col t ''student_id''"
      using jn by (auto simp: joins_def)
    then show ?thesis using history_object_joined(4,6)[OF ok sc jn] by simp
  qed
  have "sorted_wrt (desc_by ''created_at'') ?sel"
    by (simp add: history_selection_def order_by_desc_sorted)
  then have "sorted_wrt (\<lambda>a b. time_le (get_prop (history_object b) ''created_at'')
                                    (get_prop (history_object a) ''created_at'')) ?sel"
  proof (rule sorted_wrt_mono_rel[rotated])
    fix a b assume "a \<in> set ?sel" "b \<in> set ?sel" "desc_by ''created_at'' a b"
    then show "time_le (get_prop (history_object b) ''created_at'')
                 (get_prop (history_object a) ''created_at'')"
      using prop_created by (simp add: time_le_sql desc_by_def)
  qed
  then have sorted: "sorted_wrt (\<lambda>a b. time_le (get_prop b ''created_at'') (get_prop a ''created_at'')) ?hs"
    by (simp add: sorted_wrt_map)
  have student: "\<forall>h \<in> set ?hs. get_prop h ''student_id'' = JNum sid"
  proof
    fix h assume "h \<in> set ?hs"
    then obtain j where j: "j \<in> set ?sel" "h = history_object j" by auto
    then have "col j ''student_id'' = SInt sid"
      using selection_joined[of j ?db sid] by (simp add: sql_eq_def)
    with prop_created[OF j(1)] j(2) show "get_prop h ''student_id'' = JNum sid" by simp
  qed
  have complete: "\<forall>t \<in> set (table_rows ?db ''tests''). col t ''student_id'' = SInt sid \<longrightarrow>
        (\<exists>h \<in> set ?hs. get_prop h ''id'' = sql_to_js (col t ''id'') \<and>
                       get_prop h ''created_at'' = sql_to_js (col t ''created_at''))"
  proof (intro ballI impI)
    fix t assume t: "t \<in> set (table_rows ?db ''tests'')" "col t ''student_id'' = SInt sid"
    then obtain j r where j: "j \<in> set ?sel" "joins ?db t r j"
      using selection_complete[OF ok sc] by blast
    have "get_prop (history_object j) ''id'' = sql_to_js (col t ''id'')"
        "get_prop (history_object j) ''created_at'' = sql_to_js (col t ''created_at'')"
      using history_object_joined(3,6)[OF ok sc j(2)] by simp_all
    with j(1) show "\<exists>h \<in> set ?hs. get_prop h ''id'' = sql_to_js (col t ''id'') \<and>
                       get_prop h ''created_at'' = sql_to_js (col t ''created_at'')"
      by auto
  qed
  from getHistory_ready[OF assms, of sid] sorted student complete show ?thesis by blast
qed

theorem history_ordered_witness:
  "backend_ready web_history \<and> backend_ready mobile_history \<and>
   (\<exists>hs. getHistory web_history 1 = Inr (JArr hs) \<and>
      sorted_wrt (\<lambda>a b. time_le (get_prop b ''created_at'') (get_prop a ''created_at'')) hs \<and>
      map (\<lambda>h. get_prop h ''created_at'') hs =
        [JStr ''2024-01-01 10:00:03'', JStr ''2024-01-01 10:00:02'', JStr ''2024-01-01 10:00:01'']) \<and>
   (\<exists>hs. getHistory mobile_history 1 = Inr (JArr hs) \<and>
      sorted_wrt (\<lambda>a b. time_le (get_prop b ''created_at'') (get_prop a ''created_at'')) hs \<and>
      map (\<lambda>h. get_prop h ''created_at'') hs =
        [JStr ''2024-01-01 10:00:03'', JStr ''2024-01-01 10:00:02'', JStr ''2024-01-01 10:00:01''])"
proof -
  have ew: "map (\<lambda>h. get_prop h ''created_at'')
              (case getHistory web_history 1 of Inr (JArr hs) \<Rightarrow> hs | _ \<Rightarrow> []) =
        [JStr ''2024-01-01 10:00:03'', JStr ''2024-01-01 10:00:02'', JStr ''2024-01-01 10:00:01'']"
    by code_simp
  have em: "map (\<lambda>h. get_prop h ''created_at'')
              (case getHistory mobile_history 1 of Inr (JArr hs) \<Rightarrow> hs | _ \<Rightarrow> []) =
        [JStr ''2024-01-01 10:00:03'', JStr ''2024-01-01 10:00:02'', JStr ''2024-01-01 10:00:01'']"
    by code_simp
  obtain hw where w: "getHistory web_history 1 = Inr (JArr hw)"
      "sorted_wrt (\<lambda>a b. time_le (get_prop b ''created_at'') (get_prop a ''created_at'')) hw"
    using history_ordered[OF web_history_ready, of 1] by blast
  obtain hm where m: "getHistory mobile_history 1 = Inr (JArr hm)"
      "sorted_wrt (\<lambda>a b. time_le (get_prop b ''created_at'') (get_prop a ''created_at'')) hm"
    using history_ordered[OF mobile_history_ready, of 1] by blast
  from ew w(1) have cw: "map (\<lambda>h. get_prop h ''created_at'') hw =
        [JStr ''2024-01-01 10:00:03'', JStr ''2024-01-01 10:00:02'', JStr ''2024-01-01 10:00:01'']"
    by simp
  from em m(1) have cm: "map (\<lambda>h. get_prop h ''created_at'') hm =
        [JStr ''2024-01-01 10:00:03'', JStr ''2024-01-01 10:00:02'', JStr ''2024-01-01 10:00:01'']"
    by simp
  have aw: "\<exists>hs. getHistory web_history 1 = Inr (JArr hs) \<and>
      sorted_wrt (\<lambda>a b. time_le (get_prop b ''created_at'') (get_prop a ''created_at'')) hs \<and>
      map (\<lambda>h. get_prop h ''created_at'') hs =
        [JStr ''2024-01-01 10:00:03'', JStr ''2024-01-01 10:00:02'', JStr ''2024-01-01 10:00:01'']"
    using w cw by (intro exI[of _ hw] conjI)
  have am: "\<exists>hs. getHistory mobile_history 1 = Inr (JArr hs) \<and>
      sorted_wrt (\<lambda>a b. time_le (get_prop b ''created_at'') (get_prop a ''created_at'')) hs \<and>
      map (\<lambda>h. get_prop h ''created_at'') hs =
        [JStr ''2024-01-01 10:00:03'', JStr ''2024-01-01 10:00:02'', JStr ''2024-01-01 10:00:01'']"
    using m cm by (intro exI[of _ hm] conjI)
  show ?thesis using web_history_ready mobile_history_ready aw am by (intro conjI)
qed

text \<open>
  C4. On a backend that is ready, a test of the student that no row of results refers to
  has a record in the history of the student, and the score, feedback, analysis and
  completed_at of that record are null.
\<close>

theorem history_null_safe_join:
  assumes "backend_ready s"
    and "t \<in> set (table_rows (backend_db s) ''tests'')" "col t ''student_id'' = SInt sid"
    and "\<not> list_ex (\<lambda>r. sql_eq (col t ''id'') (col r ''test_id'')) (table_rows (backend_db s) ''results'')"
  shows "\<exists>hs. getHistory s sid = Inr (JArr hs) \<and>
     (\<exists>h \<in> set hs. get_prop h ''id'' = sql_to_js (col t ''id'') \<and>
        get_prop h ''score'' = JNull \<and> get_prop h ''feedback'' = JNull \<and>
        get_prop h ''analysis'' = JNull \<and> get_prop h ''completed_at'' = JNull)"
proof -
  let ?db = "backend_db s"
  note ok = backend_ready_store[OF assms(1)]
  note sc = backend_schema_cases[of s]
  obtain j r where j: "j \<in> set (history_selection ?db sid)" "joins ?db t r j"
    using selection_complete[OF ok sc assms(2,3)] by blast
  from j(2) assms(4) have r: "r = []" by (auto simp: joins_def list_ex_iff)
  have "get_prop (history_object j) ''id'' = sql_to_js (col t ''id'')"
    "get_prop (history_object j) ''score'' = JNull"
    "get_prop (history_object j) ''feedback'' = JNull"
    "get_prop (history_object j) ''analysis'' = JNull"
    "get_prop (history_object j) ''completed_at'' = JNull"
    using history_object_joined(3,8,9,10,11)[OF ok sc j(2)] r
    by (simp_all add: analysis_js_def truthy_def)
  with j(1) getHistory_ready[OF assms(1), of sid] show ?thesis by auto
qed

theorem history_null_safe_join_witness:
  "backend_ready web_history \<and> backend_ready mobile_history \<and>
   (\<exists>hs. getHistory web_history 1 = Inr (JArr hs) \<and>
      (\<exists>h \<in> set hs. get_prop h ''id'' = JNum 2 \<and> get_prop h ''score'' = JNull \<and>
         get_prop h ''feedback'' = JNull \<and> get_prop h ''analysis'' = JNull)) \<and>
   (\<exists>hs. getHistory mobile_history 1 = Inr (JArr hs) \<and>
      (\<exists>h \<in> set hs. get_prop h ''id'' = JNum 2 \<and> get_prop h ''score'' = JNull \<and>
         get_prop h ''feedback'' = JNull \<and> get_prop h ''analysis'' = JNull))"
proof -
  let ?t = "test_row 2 1 ''B'' ''Easy'' [] (SText ''[]'') ''2024-01-01 10:00:02''"
  have tw: "?t \<in> set (table_rows (backend_db web_history) ''tests'')" by code_simp
  have tm: "?t \<in> set (table_rows (backend_db mobile_history) ''tests'')" by code_simp
  have nw: "\<not> list_ex (\<lambda>r. sql_eq (col ?t ''id'') (col r ''test_id''))
              (table_rows (backend_db web_history) ''results'')" by code_simp
  have nm: "\<not> list_ex (\<lambda>r. sql_eq (col ?t ''id'') (col r ''test_id''))
              (table_rows (backend_db mobile_history) ''results'')" by code_simp
  have c: "col ?t ''student_id'' = SInt 1" "sql_to_js (col ?t ''id'') = JNum 2" by simp_all
  from history_null_safe_join[OF web_history_ready tw c(1) nw] c(2)
  have "\<exists>hs. getHistory web_history 1 = Inr (JArr hs) \<and>
      (\<exists>h \<in> set hs. get_prop h ''id'' = JNum 2 \<and> get_prop h ''score'' = JNull \<and>
         get_prop h ''feedback'' = JNull \<and> get_prop h ''analysis'' = JNull)"
    by auto
  moreover from history_null_safe_join[OF mobile_history_ready tm c(1) nm] c(2)
  have "\<exists>hs. getHistory mobile_history 1 = Inr (JArr hs) \<and>
      (\<exists>h \<in> set hs. get_prop h ''id'' = JNum 2 \<and> get_prop h ''score'' = JNull \<and>
         get_prop h ''feedback'' = JNull \<and> get_prop h ''analysis'' = JNull)"
    by auto
  ultimately show ?thesis using web_history_ready mobile_history_ready by blast
qed


section \<open>The identifier returned by the embedded backend\<close>

text \<open>
  C10. On the embedded backend, when the driver's answer to an insert carries no lastId
  (no changes record, or one without lastId), login for a new student, saveTest and
  saveResult still insert their row and return normally, with the id of the returned
  object undefined.
\<close>

theorem missing_lastId_not_checked:
  assumes "backend_provisioned s" "isMobile s" "\<not> reports_lastId s"
  shows "(matching_students (backend_db s) n a c = [] \<longrightarrow>
            (\<exists>s1 rid. login s now n a c =
               (Inr (JObj [(''id'', JUndefined), (''name'', JStr n), (''age'', JNum a),
                           (''class'', JStr c)]), s1) \<and>
             table_rows (backend_db s1) ''students'' =
               table_rows (backend_db s) ''students'' @ [student_row rid n a c])) \<and>
         (q \<noteq> JUndefined \<longrightarrow>
            (\<exists>s1 row. saveTest s now sid tp cx cs q = (Inr (JObj [(''id'', JUndefined)]), s1) \<and>
             table_rows (backend_db s1) ''tests'' = table_rows (backend_db s) ''tests'' @ [row])) \<and>
         (an \<noteq> JUndefined \<longrightarrow>
            (\<exists>s1 row. saveResult s now tid an sc fb al = (Inr (JObj [(''id'', JUndefined)]), s1) \<and>
             table_rows (backend_db s1) ''results'' = table_rows (backend_db s) ''results'' @ [row]))"
proof -
  obtain cn where c: "this_db s = Some cn" "conn_open cn" "backend_db s = conn_db cn"
      "tables_ok embedded_schema (conn_db cn)"
    using assms(1,2) by (auto simp: backend_provisioned_def backend_db_def split: option.splits)
  have rep: "conn_reporting cn \<noteq> ReportsLastId"
    using assms(2,3) c(1) by (simp add: reports_lastId_def)
  obtain ts tt tr where t: "map_of (conn_db cn) ''students'' = Some ts"
      "map_of (conn_db cn) ''tests'' = Some tt" "map_of (conn_db cn) ''results'' = Some tr"
      "tbl_def ts = embedded_students" "tbl_def tt = embedded_tests" "tbl_def tr = embedded_results"
    using tables_ok_tables[OF c(4)] by auto
  have db_upd: "backend_db (s\<lparr>this_db := Some (cn\<lparr>conn_db := d\<rparr>)\<rparr>) = d" for d
    using assms(2) by (simp add: backend_db_def)
  have "\<exists>s1 rid. login s now n a c =
               (Inr (JObj [(''id'', JUndefined), (''name'', JStr n), (''age'', JNum a),
                           (''class'', JStr c)]), s1) \<and>
             table_rows (backend_db s1) ''students'' =
               table_rows (backend_db s) ''students'' @ [student_row rid n a c]"
    if m: "matching_students (backend_db s) n a c = []"
  proof -
    have k: "is_students (tbl_def ts)" using t(4) by (simp add: is_students_def)
    from login_embedded[OF assms(2) c(1,2) t(1) k, of now n a c] m
    have "login s now n a c =
       (Inr (JObj [(''id'', JUndefined), (''name'', JStr n), (''age'', JNum a), (''class'', JStr c)]),
        s\<lparr>this_db := Some (cn\<lparr>conn_db := append_row ''students'' ts
            (student_row (next_rowid ts) n a c) (conn_db cn)\<rparr>)\<rparr>)"
      by (simp add: c(3) unreported_id[OF rep] append_row_def)
    moreover have "table_rows (append_row ''students'' ts (student_row (next_rowid ts) n a c) (conn_db cn))
        ''students'' = table_rows (conn_db cn) ''students'' @ [student_row (next_rowid ts) n a c]"
      using t(1) by (simp add: table_rows_append_row)
    ultimately show ?thesis using db_upd c(3) by fastforce
  qed
  moreover have "\<exists>s1 row. saveTest s now sid tp cx cs q = (Inr (JObj [(''id'', JUndefined)]), s1) \<and>
             table_rows (backend_db s1) ''tests'' = table_rows (backend_db s) ''tests'' @ [row]"
    if q: "q \<noteq> JUndefined"
  proof -
    note st = saveTest_embedded[OF assms(2) c(1,2) t(2,5) q, of now sid tp cx cs]
    have "table_rows (append_row ''tests'' tt
        (test_row (next_rowid tt) sid tp cx cs (SText (render (js_tokens q))) now) (conn_db cn)) ''tests''
        = table_rows (conn_db cn) ''tests'' @
            [test_row (next_rowid tt) sid tp cx cs (SText (render (js_tokens q))) now]"
      using t(2) by (simp add: table_rows_append_row)
    with st show ?thesis using db_upd c(3) by (fastforce simp: unreported_id[OF rep])
  qed
  moreover have "\<exists>s1 row. saveResult s now tid an sc fb al = (Inr (JObj [(''id'', JUndefined)]), s1) \<and>
             table_rows (backend_db s1) ''results'' = table_rows (backend_db s) ''results'' @ [row]"
    if an: "an \<noteq> JUndefined"
  proof -
    note sr = saveResult_embedded[OF assms(2) c(1,2) t(3,6) an, of now tid sc fb al]
    have "table_rows (append_row ''results'' tr
        (result_row (next_rowid tr) tid (SText (render (js_tokens an))) sc fb
          (bind_value (js_of_text (JSON_stringify al))) now) (conn_db cn)) ''results''
        = table_rows (conn_db cn) ''results'' @
            [result_row (next_rowid tr) tid (SText (render (js_tokens an))) sc fb
              (bind_value (js_of_text (JSON_stringify al))) now]"
      using t(3) by (simp add: table_rows_append_row)
    with sr show ?thesis using db_upd c(3) by (fastforce simp: unreported_id[OF rep])
  qed
  ultimately show ?thesis by blast
qed

theorem missing_lastId_not_checked_witness:
  "backend_provisioned mob_silent \<and> isMobile mob_silent \<and> \<not> reports_lastId mob_silent \<and>
   (\<exists>s1. login mob_silent ''2024-01-01 10:00:00'' ''Ann'' 10 ''5th'' =
      (Inr (JObj [(''id'', JUndefined), (''name'', JStr ''Ann''), (''age'', JNum 10),
                  (''class'', JStr ''5th'')]), s1) \<and>
      table_rows (backend_db s1) ''students'' \<noteq> []) \<and>
   (\<exists>s1. saveTest mob_silent ''2024-01-01 10:00:01'' 1 ''A'' ''Easy'' [] (JArr []) =
      (Inr (JObj [(''id'', JUndefined)]), s1) \<and> table_rows (backend_db s1) ''tests'' \<noteq> []) \<and>
   (\<exists>s1. saveResult mob_silent ''2024-01-01 10:00:02'' 1 (JObj []) 100 ''ok'' (JObj []) =
      (Inr (JObj [(''id'', JUndefined)]), s1) \<and> table_rows (backend_db s1) ''results'' \<noteq> [])"
proof -
  have m: "isMobile mob_silent" and r: "\<not> reports_lastId mob_silent" by code_simp+
  note p = backend_ready_provisioned[OF mob_silent_ready]
  have e: "matching_students (backend_db mob_silent) ''Ann'' 10 ''5th'' = []" by code_simp
  have q: "JArr [] \<noteq> JUndefined" "JObj [] \<noteq> JUndefined" by simp_all
  note th = missing_lastId_not_checked[OF p m r,
      where n = "''Ann''" and a = 10 and c = "''5th''" and q = "JArr []" and an = "JObj []"]
  from th[where now = "''2024-01-01 10:00:00''"] e
  have a1: "\<exists>s1. login mob_silent ''2024-01-01 10:00:00'' ''Ann'' 10 ''5th'' =
      (Inr (JObj [(''id'', JUndefined), (''name'', JStr ''Ann''), (''age'', JNum 10),
                  (''class'', JStr ''5th'')]), s1) \<and>
      table_rows (backend_db s1) ''students'' \<noteq> []"
    by fastforce
  from th[where now = "''2024-01-01 10:00:01''" and sid = 1 and tp = "''A''" and cx = "''Easy''"
      and cs = "[]"] q
  have a2: "\<exists>s1. saveTest mob_silent ''2024-01-01 10:00:01'' 1 ''A'' ''Easy'' [] (JArr []) =
      (Inr (JObj [(''id'', JUndefined)]), s1) \<and> table_rows (backend_db s1) ''tests'' \<noteq> []"
    by fastforce
  from th[where now = "''2024-01-01 10:00:02''" and tid = 1 and sc = 100 and fb = "''ok''"
      and al = "JObj []"] q
  have a3: "\<exists>s1. saveResult mob_silent ''2024-01-01 10:00:02'' 1 (JObj []) 100 ''ok'' (JObj []) =
      (Inr (JObj [(''id'', JUndefined)]), s1) \<and> table_rows (backend_db s1) ''results'' \<noteq> []"
    by fastforce
  show ?thesis using p m r a1 a2 a3 by (intro conjI)
qed

section \<open>Referential integrity of results\<close>

text \<open>
  On the networked backend the foreign key of results does what the invariant asks: after
  any sequence of login, saveTest and saveResult calls on a freshly provisioned store, every
  row of results refers to a row of tests, and saveResult for a test identifier that no row
  of tests has inserts nothing: the server answers with its error object.
\<close>

lemma networked_results_reference_tests:
  "results_reference_tests (server_db (foldl perform web0 calls)) \<and>
   (\<not> test_exists (server_db (foldl perform web0 calls)) tid \<and> json_clean an \<and> json_clean al \<longrightarrow>
      saveResult (foldl perform web0 calls) now tid an sc fb al =
        (Inr (JObj [(''error'', JStr ''Failed to save results'')]), foldl perform web0 calls))"
proof -
  let ?s = "foldl perform web0 calls"
  have i: "networked_inv ?s" using web0_inv by (rule foldl_perform_inv)
  then have m: "\<not> isMobile ?s" and p: "provisioned server_schema (server_db ?s)"
    and r: "results_reference_tests (server_db ?s)"
    by (simp_all add: networked_inv_def server_inv_def)
  obtain tr where tr: "map_of (server_db ?s) ''results'' = Some tr" "tbl_def tr = server_results"
    using provisioned_server[OF p] by blast
  show ?thesis
    using r saveResult_dangling[OF m tr] by blast
qed

text \<open>
  C9 fails on the embedded backend, whose schema omits the foreign key that the server's
  schema declares. On the store that init leaves on an empty device (it is the store that
  provisioning creates, and no test has been saved), saveResult for the test identifier 99
  does not fail: it returns the identifier 1 and leaves a row of results that refers to no
  row of tests. The same call on the networked backend is refused.
\<close>

theorem embedded_dangling_result:
  "init mobile_start working_device = (Inr (), mob0) \<and>
   \<not> test_exists (backend_db mob0) 99 \<and>
   fst (saveResult mob0 ''2024-01-01 10:00:05'' 99 (JObj []) 100 ''ok'' (JObj [])) =
     Inr (JObj [(''id'', JNum 1)]) \<and>
   \<not> results_reference_tests
        (backend_db (snd (saveResult mob0 ''2024-01-01 10:00:05'' 99 (JObj []) 100 ''ok'' (JObj [])))) \<and>
   saveResult web0 ''2024-01-01 10:00:05'' 99 (JObj []) 100 ''ok'' (JObj []) =
     (Inr (JObj [(''error'', JStr ''Failed to save results'')]), web0)"
proof -
  have a: "init mobile_start working_device = (Inr (), mob0)" by (rule init_mob0)
  have b: "\<not> test_exists (backend_db mob0) 99" by code_simp
  have c: "fst (saveResult mob0 ''2024-01-01 10:00:05'' 99 (JObj []) 100 ''ok'' (JObj [])) =
     Inr (JObj [(''id'', JNum 1)])" by code_simp
  have d: "\<not> results_reference_tests
        (backend_db (snd (saveResult mob0 ''2024-01-01 10:00:05'' 99 (JObj []) 100 ''ok'' (JObj []))))"
    by code_simp
  have e: "saveResult web0 ''2024-01-01 10:00:05'' 99 (JObj []) 100 ''ok'' (JObj []) =
     (Inr (JObj [(''error'', JStr ''Failed to save results'')]), web0)" by code_simp
  from a b c d e show ?thesis by (intro conjI)
qed

section \<open>Failures at the boundary of the data service\<close>

text \<open>
  C7 fails on the code. On the embedded backend init catches every failure of
  createConnection, open and execute and returns normally: whatever the device does, init
  never returns a failure, although the controller calls it inside a try block and shows
  its initialization error only when init throws. When createConnection fails, init leaves
  the connection unset, and the first operation then throws a TypeError. On the networked
  backend the operations do not look at the status of the response: a saveResult that the
  store refuses (its test does not exist) returns the error object of the server as an
  ordinary value, while on the embedded backend a refused statement throws.
\<close>

theorem init_failure_not_surfaced:
  "fst (init s dev) = Inr () \<and>
   init mobile_start broken_device = (Inr (), mobile_start) \<and>
   fst (login mobile_start ''2024-01-01 10:00:00'' ''Ann'' 10 ''5th'') = Inl TypeError \<and>
   fst (saveResult web0 ''2024-01-01 10:00:05'' 99 (JObj []) 100 ''ok'' (JObj [])) =
     Inr (JObj [(''error'', JStr ''Failed to save results'')])"
proof -
  have a: "fst (init s dev) = Inr ()"
    by (auto simp: init_def split: prod.splits sum.splits)
  have b: "init mobile_start broken_device = (Inr (), mobile_start)"
    by (simp add: init_def init_try_def mobile_start_def broken_device_def)
  have c: "fst (login mobile_start ''2024-01-01 10:00:00'' ''Ann'' 10 ''5th'') = Inl TypeError"
    by (simp add: login_def mobile_start_def)
  have d: "fst (saveResult web0 ''2024-01-01 10:00:05'' 99 (JObj []) 100 ''ok'' (JObj [])) =
     Inr (JObj [(''error'', JStr ''Failed to save results'')])"
    by code_simp
  from a b c d show ?thesis by blast
qed

end
